theory Spec2Isabelle
  imports Main "HOL-Library.Word"
begin

unbundle bit_operations_syntax

section \<open>The firmware image loader of OpenOCD (src/target/image.c)\<close>

text \<open>
  A shallow embedding of the parts of \<^verbatim>\<open>image.c\<close> that the statements below are about.
  C integers are words of their width, so every addition and shift wraps as in C.
\<close>

type_synonym u8 = "8 word"
type_synonym u16 = "16 word"
type_synonym u32 = "32 word"
type_synonym u64 = "64 word"

text \<open>
  The return codes of the C functions that occur in \<^verbatim>\<open>image.c\<close>. The last five
  constructors are not return codes: they mark the places where the C program leaves defined
  behaviour (a store or load outside an array, a dereferenced null pointer, the use of a
  variable that no conversion has assigned, a \<^verbatim>\<open>void *\<close> read as a structure it does not
  point to, an \<^verbatim>\<open>int\<close> decremented below \<^verbatim>\<open>INT_MIN\<close>), where the model stops instead of
  guessing.
\<close>

datatype error =
    ERROR_FAIL
  | ERROR_IMAGE_FORMAT_ERROR
  | ERROR_IMAGE_TYPE_UNKNOWN
  | ERROR_IMAGE_TEMPORARILY_UNAVAILABLE
  | ERROR_IMAGE_CHECKSUM
  | ERROR_COMMAND_SYNTAX_ERROR
  | ERROR_FILEIO_OPERATION_FAILED
  | ERROR_SERVER_INTERRUPTED
  | UNDEFINED_OUT_OF_BOUNDS
  | UNDEFINED_NULL_DEREFERENCE
  | UNDEFINED_INDETERMINATE_VALUE
  | UNDEFINED_TYPE_MISMATCH
  | UNDEFINED_SIGNED_OVERFLOW

section \<open>CRC-32 (image_calculate_checksum)\<close>

text \<open>
  The host control interface (\<^verbatim>\<open>keep_alive\<close>, \<^verbatim>\<open>openocd_is_shutdown_pending\<close>) lives in
  the server, outside \<^verbatim>\<open>image.c\<close>. The model records how often each was called, and
  \<open>pending k\<close> is the answer the server gives to poll number \<open>k\<close>.
\<close>

record host =
  keep_alives :: nat
  polls :: nat
  pending :: "nat \<Rightarrow> bool"

definition keep_alive :: "host \<Rightarrow> host" where
  "keep_alive h = h\<lparr>keep_alives := Suc (keep_alives h)\<rparr>"

definition openocd_is_shutdown_pending :: "host \<Rightarrow> bool \<times> host" where
  "openocd_is_shutdown_pending h = (pending h (polls h), h\<lparr>polls := Suc (polls h)\<rparr>)"

text \<open>
  The table initialisation: \<^verbatim>\<open>for (c = i << 24, j = 8; j > 0; --j)
  c = c & 0x80000000 ? (c << 1) ^ 0x04c11db7 : (c << 1);\<close>
\<close>

definition crc32_shift :: "u32 \<Rightarrow> u32" where
  "crc32_shift c = (if c AND 0x80000000 \<noteq> 0 then push_bit 1 c XOR 0x04c11db7 else push_bit 1 c)"

fun crc32_table_loop :: "nat \<Rightarrow> u32 \<Rightarrow> u32" where
  "crc32_table_loop 0 c = c"
| "crc32_table_loop (Suc j) c = crc32_table_loop j (crc32_shift c)"

definition crc32_table_entry :: "nat \<Rightarrow> u32" where
  "crc32_table_entry i = crc32_table_loop 8 (push_bit 24 (of_nat i))"

text \<open>
  The static table \<^verbatim>\<open>crc32_table[256]\<close>. The C code fills it on the first call and keeps
  it; as the entries do not depend on the call, the table is a constant here.
\<close>

definition crc32_table :: "u32 list" where
  "crc32_table = map crc32_table_entry [0..<256]"

text \<open>One step of the inner loop:
  \<^verbatim>\<open>crc = (crc << 8) ^ crc32_table[((crc >> 24) ^ *buffer++) & 255];\<close>\<close>

definition crc32_update :: "u32 \<Rightarrow> u8 \<Rightarrow> u32" where
  "crc32_update crc b =
     push_bit 8 crc XOR crc32_table ! unat ((drop_bit 24 crc XOR ucast b) AND 255)"

text \<open>
  \<^verbatim>\<open>while (run--)\<close>: \<open>run\<close> is a C \<^verbatim>\<open>int\<close>, kept as its 32-bit pattern in two's
  complement (so \<^verbatim>\<open>int run = nbytes\<close> is negative for \<open>nbytes \<ge> 2^31\<close>). The loop ends when
  \<open>run\<close> is zero. The decrement of \<^verbatim>\<open>INT_MIN\<close>, the pattern \<open>0x80000000\<close>, overflows the
  \<^verbatim>\<open>int\<close>: there the C program is undefined. The buffer is the list of the bytes from the
  current position on; reading past its end is outside the caller's buffer.
\<close>

function crc32_run :: "u32 \<Rightarrow> u8 list \<Rightarrow> u32 \<Rightarrow> error + (u32 \<times> u8 list)" where
  "crc32_run crc buffer run =
     (if run = 0 then Inr (crc, buffer)
      else if run = 0x80000000 then Inl UNDEFINED_SIGNED_OVERFLOW
      else case buffer of
             [] \<Rightarrow> Inl UNDEFINED_OUT_OF_BOUNDS
           | b # buffer' \<Rightarrow> crc32_run (crc32_update crc b) buffer' (run - 1))"
  by pat_completeness auto
termination
  by (relation "measure (\<lambda>(crc, buffer, run). unat run)")
     (auto simp: unat_minus_one unat_gt_0)

declare crc32_run.simps [simp del]

text \<open>
  The outer loop \<^verbatim>\<open>while (nbytes > 0)\<close>. \<^verbatim>\<open>int run = nbytes; if (run > 32768) run = 32768;\<close>
  compares as signed integers; \<^verbatim>\<open>nbytes -= run\<close> is unsigned.
\<close>

definition crc32_run_length :: "u32 \<Rightarrow> u32" where
  "crc32_run_length nbytes = (if 32768 <s nbytes then 32768 else nbytes)"

lemma sless_32768_unat:
  assumes "(32768::u32) <s nbytes"
  shows "32768 < unat nbytes"
proof -
  from assms have s: "32768 < sint nbytes" by (simp add: word_sless_alt)
  have "(0::int) \<le> uint nbytes" by simp
  then have "- 2147483648 \<le> uint nbytes" by linarith
  then have "sint nbytes \<le> uint nbytes"
    by (simp add: sint_uint signed_take_bit_int_less_eq_self_iff)
  with s have "32768 < int (unat nbytes)" by (simp only: uint_nat [symmetric])
  then show ?thesis by linarith
qed

lemma unat_crc32_run_length_le: "unat (crc32_run_length nbytes) \<le> unat nbytes"
  using sless_32768_unat [of nbytes] by (auto simp: crc32_run_length_def)

lemma crc32_run_length_le: "crc32_run_length nbytes \<le> nbytes"
  by (simp add: word_le_nat_alt unat_crc32_run_length_le)

lemma unat_crc32_run_length_pos: "nbytes \<noteq> 0 \<Longrightarrow> 0 < unat (crc32_run_length nbytes)"
  by (simp add: crc32_run_length_def unat_gt_0)

lemma unat_sub_crc32_run_length:
  "unat (nbytes - crc32_run_length nbytes) = unat nbytes - unat (crc32_run_length nbytes)"
  by (rule unat_sub) (rule crc32_run_length_le)

lemma crc32_loop_decreases:
  "nbytes \<noteq> 0 \<Longrightarrow> unat (nbytes - crc32_run_length nbytes) < unat nbytes"
  using unat_crc32_run_length_pos [of nbytes] unat_crc32_run_length_le [of nbytes]
  by (simp add: unat_sub_crc32_run_length)

function crc32_loop :: "host \<Rightarrow> u32 \<Rightarrow> u8 list \<Rightarrow> u32 \<Rightarrow> (error + u32) \<times> host" where
  "crc32_loop h crc buffer nbytes =
     (if nbytes = 0 then (Inr crc, h)
      else
        let run = crc32_run_length nbytes;
            nbytes' = nbytes - run
        in case crc32_run crc buffer run of
             Inl e \<Rightarrow> (Inl e, h)
           | Inr (crc', buffer') \<Rightarrow>
               let (stop, h') = openocd_is_shutdown_pending (keep_alive h)
               in if stop then (Inl ERROR_SERVER_INTERRUPTED, h')
                  else crc32_loop h' crc' buffer' nbytes')"
  by pat_completeness auto
termination
  by (relation "measure (\<lambda>(h, crc, buffer, nbytes). unat nbytes)")
     (auto simp: crc32_loop_decreases)

declare crc32_loop.simps [simp del]

text \<open>\<^verbatim>\<open>image_calculate_checksum(buffer, nbytes, &checksum)\<close>, started with
  \<^verbatim>\<open>crc = 0xffffffff\<close>.\<close>

definition image_calculate_checksum :: "host \<Rightarrow> u8 list \<Rightarrow> u32 \<Rightarrow> (error + u32) \<times> host" where
  "image_calculate_checksum h buffer nbytes = crc32_loop h 0xffffffff buffer nbytes"


section \<open>The image and its sections\<close>

text \<open>
  The structures of \<^verbatim>\<open>image.h\<close>. Fields keep their C names, but for \<^verbatim>\<open>size\<close>,
  \<^verbatim>\<open>private\<close>, \<^verbatim>\<open>type\<close> and the image's own \<^verbatim>\<open>base_address\<close>, which are \<open>size_sec\<close>,
  \<open>private_sec\<close>, \<open>type_img\<close> and \<open>base_address_img\<close> here. \<^verbatim>\<open>target_addr_t\<close> is the 64-bit
  unsigned type of \<^verbatim>\<open>helper/types.h\<close>, and \<^verbatim>\<open>size_t\<close> is 64 bits wide.
\<close>

type_synonym target_addr_t = u64
type_synonym size_t = u64

datatype image_type =
  IMAGE_BINARY | IMAGE_IHEX | IMAGE_MEMORY | IMAGE_ELF | IMAGE_SRECORD | IMAGE_BUILDER

text \<open>
  What the \<^verbatim>\<open>void *private\<close> of a section points to: nothing yet (BINARY and MEMORY never
  assign it), \<^verbatim>\<open>NULL\<close>, the byte \<open>n\<close> of the decoded buffer of an IHEX or S-record image,
  the program header \<open>n\<close> of an ELF image, or a heap block of its own (BUILDER).
\<close>

datatype section_private =
    PRIVATE_UNSET
  | PRIVATE_NULL
  | PRIVATE_BUFFER nat
  | PRIVATE_SEGMENT nat
  | PRIVATE_OWNED "u8 list"

record imagesection =
  base_address :: target_addr_t
  size_sec :: u32
  flags :: u64
  private_sec :: section_private

text \<open>
  The ELF structures of \<^verbatim>\<open>elf.h\<close>. A field holds the bytes of the file, first byte least
  significant: that is the raw content of the C field, whatever the host. The decoders
  \<^verbatim>\<open>le_to_h_u32\<close> and \<^verbatim>\<open>be_to_h_u32\<close> of \<^verbatim>\<open>helper/types.h\<close> read the bytes of a field in
  little-endian and big-endian order, so on this representation the first is the identity and
  the second reverses the bytes.
\<close>

record Elf32_Ehdr =
  e_ident :: "u8 list"
  e_type :: u16
  e_machine :: u16
  e_version :: u32
  e_entry :: u32
  e_phoff :: u32
  e_shoff :: u32
  e_flags :: u32
  e_ehsize :: u16
  e_phentsize :: u16
  e_phnum :: u16
  e_shentsize :: u16
  e_shnum :: u16
  e_shstrndx :: u16

record Elf32_Phdr =
  p_type :: u32
  p_offset :: u32
  p_vaddr :: u32
  p_paddr :: u32
  p_filesz :: u32
  p_memsz :: u32
  p_flags :: u32
  p_align :: u32

record Elf64_Phdr =
  p_type64 :: u32
  p_flags64 :: u32
  p_offset64 :: u64
  p_vaddr64 :: u64
  p_paddr64 :: u64
  p_filesz64 :: u64
  p_memsz64 :: u64
  p_align64 :: u64

definition PT_LOAD :: u32 where "PT_LOAD = 1"
definition ELFDATA2LSB :: u8 where "ELFDATA2LSB = 1"
definition ELFDATA2MSB :: u8 where "ELFDATA2MSB = 2"

definition le_to_h_u16 :: "u16 \<Rightarrow> u16" where
  "le_to_h_u16 raw = raw"

definition be_to_h_u16 :: "u16 \<Rightarrow> u16" where
  "be_to_h_u16 raw = push_bit 8 raw OR drop_bit 8 raw"

definition le_to_h_u32 :: "u32 \<Rightarrow> u32" where
  "le_to_h_u32 raw = raw"

definition be_to_h_u32 :: "u32 \<Rightarrow> u32" where
  "be_to_h_u32 raw =
     push_bit 24 raw OR push_bit 8 (raw AND 0xFF00) OR (drop_bit 8 raw AND 0xFF00)
       OR drop_bit 24 raw"

definition le_to_h_u64 :: "u64 \<Rightarrow> u64" where
  "le_to_h_u64 raw = raw"

definition be_to_h_u64 :: "u64 \<Rightarrow> u64" where
  "be_to_h_u64 raw =
     push_bit 56 raw OR push_bit 40 (raw AND 0xFF00) OR push_bit 24 (raw AND 0xFF0000)
       OR push_bit 8 (raw AND 0xFF000000) OR (drop_bit 8 raw AND 0xFF000000)
       OR (drop_bit 24 raw AND 0xFF0000) OR (drop_bit 40 raw AND 0xFF00) OR drop_bit 56 raw"

text \<open>
  The per-type private data. The headers and the program headers of an ELF image are C
  unions of a 32-bit and a 64-bit pointer. The \<^verbatim>\<open>fileio\<close> and the \<^verbatim>\<open>target\<close> these
  structures point to live outside the image and are passed to the operations next to it.
\<close>

datatype elf_header = HEADER_NULL | HEADER32 Elf32_Ehdr | HEADER64

datatype elf_segments = SEGMENTS_NULL | SEGMENTS32 "Elf32_Phdr list" | SEGMENTS64 "Elf64_Phdr list"

record image_elf =
  is_64_bit :: bool
  header :: elf_header
  segments :: elf_segments
  segment_count :: u32
  endianness :: u8

record image_memory =
  cache :: "u8 list option"
  cache_address :: u32

datatype type_private =
    NULL
  | PRIVATE_BINARY
  | PRIVATE_IHEX "u8 list option"
  | PRIVATE_ELF image_elf
  | PRIVATE_MEMORY image_memory
  | PRIVATE_MOT "u8 list option"

record image =
  type_img :: image_type
  type_private :: type_private
  num_sections :: nat
  sections :: "imagesection list option"
  base_address_set :: bool
  base_address_img :: u64
  start_address_set :: bool
  start_address :: u32

text \<open>\<^verbatim>\<open>field16\<close>, \<^verbatim>\<open>field32\<close>, \<^verbatim>\<open>field64\<close>: a header field in host order.\<close>

definition field16 :: "image_elf \<Rightarrow> u16 \<Rightarrow> u16" where
  "field16 elf field = (if endianness elf = ELFDATA2LSB then le_to_h_u16 field else be_to_h_u16 field)"

definition field32 :: "image_elf \<Rightarrow> u32 \<Rightarrow> u32" where
  "field32 elf field = (if endianness elf = ELFDATA2LSB then le_to_h_u32 field else be_to_h_u32 field)"

definition field64 :: "image_elf \<Rightarrow> u64 \<Rightarrow> u64" where
  "field64 elf field = (if endianness elf = ELFDATA2LSB then le_to_h_u64 field else be_to_h_u64 field)"

section \<open>The collaborators: file source and target memory\<close>

text \<open>
  Modelled from the spec: the file source (\<^verbatim>\<open>helper/fileio\<close>, not part of \<^verbatim>\<open>image.c\<close>) is
  a sequential byte source with \<open>seek(offset)\<close> and \<open>read(n) -> bytes\<close>. A read returns the
  bytes that are there, fewer than asked for at the end of the file; a source that is not
  \<open>healthy\<close> fails every operation with \<open>ERROR_FILEIO_OPERATION_FAILED\<close>.
\<close>

record fileio =
  contents :: "u8 list"
  position :: nat
  healthy :: bool

definition fileio_seek :: "fileio \<Rightarrow> nat \<Rightarrow> error + fileio" where
  "fileio_seek f pos =
     (if healthy f then Inr (f\<lparr>position := pos\<rparr>) else Inl ERROR_FILEIO_OPERATION_FAILED)"

definition fileio_read :: "fileio \<Rightarrow> nat \<Rightarrow> error + (u8 list \<times> fileio)" where
  "fileio_read f n =
     (if healthy f
      then let bytes = take n (drop (position f) (contents f))
           in Inr (bytes, f\<lparr>position := position f + length bytes\<rparr>)
      else Inl ERROR_FILEIO_OPERATION_FAILED)"

text \<open>
  Modelled from the spec: the target memory source, of which only
  \<open>read_buffer(address, len, out)\<close> is required; it returns ok or an error.
\<close>

record target =
  memory :: "u32 \<Rightarrow> u8"
  readable :: "u32 \<Rightarrow> bool"

definition target_read_buffer :: "target \<Rightarrow> u32 \<Rightarrow> nat \<Rightarrow> u8 list option" where
  "target_read_buffer t address n =
     (if readable t address then Some (map (\<lambda>i. memory t (address + of_nat i)) [0..<n])
      else None)"

text \<open>
  Modelled from the spec: \<^verbatim>\<open>IMAGE_MEMORY_CACHE_SIZE\<close> (\<^verbatim>\<open>image.h\<close>) is a compile-time
  power of two, typically 512.
\<close>

definition IMAGE_MEMORY_CACHE_SIZE :: u32 where
  "IMAGE_MEMORY_CACHE_SIZE = 512"


section \<open>Reading a section (image_read_section)\<close>

text \<open>
  The C parameters \<^verbatim>\<open>image\<close> and \<^verbatim>\<open>size\<close> are \<open>img\<close> and \<open>sz\<close> here.
  The operations return the status (an error, or the bytes stored into the caller's buffer
  with \<^verbatim>\<open>*size_read\<close>) together with the file source and the image as the call leaves them.
\<close>

type_synonym read_result = "error + (u8 list \<times> size_t)"

text \<open>
  \<^verbatim>\<open>memcpy(buffer, (uint8_t *)image->sections[section].private + offset, size)\<close> of the
  IHEX, S-record and BUILDER branches. The source pointer is good inside the block it points
  into: the decoded buffer held by the private data of the image, or the section's own block.
\<close>

definition decoded_buffer :: "image \<Rightarrow> u8 list option" where
  "decoded_buffer img =
     (case type_private img of
        PRIVATE_IHEX buffer \<Rightarrow> buffer
      | PRIVATE_MOT buffer \<Rightarrow> buffer
      | _ \<Rightarrow> None)"

definition section_memcpy :: "image \<Rightarrow> imagesection \<Rightarrow> target_addr_t \<Rightarrow> u32 \<Rightarrow> read_result" where
  "section_memcpy img sec offset sz =
     (case private_sec sec of
        PRIVATE_BUFFER n \<Rightarrow>
          (case decoded_buffer img of
             None \<Rightarrow> Inl UNDEFINED_NULL_DEREFERENCE
           | Some buffer \<Rightarrow>
               if n + unat offset + unat sz \<le> length buffer
               then Inr (take (unat sz) (drop (n + unat offset) buffer), ucast sz)
               else Inl UNDEFINED_OUT_OF_BOUNDS)
      | PRIVATE_OWNED block \<Rightarrow>
          if unat offset + unat sz \<le> length block
          then Inr (take (unat sz) (drop (unat offset) block), ucast sz)
          else Inl UNDEFINED_OUT_OF_BOUNDS
      | PRIVATE_NULL \<Rightarrow> Inl UNDEFINED_NULL_DEREFERENCE
      | PRIVATE_UNSET \<Rightarrow> Inl UNDEFINED_INDETERMINATE_VALUE
      | PRIVATE_SEGMENT n \<Rightarrow> Inl UNDEFINED_TYPE_MISMATCH)"

text \<open>The BINARY branch after its test of the section number: seek, then read.\<close>

definition image_binary_read :: "fileio \<Rightarrow> image \<Rightarrow> target_addr_t \<Rightarrow> u32 \<Rightarrow> read_result \<times> fileio" where
  "image_binary_read f img offset sz =
     (case type_private img of
        PRIVATE_BINARY \<Rightarrow>
          (case fileio_seek f (unat offset) of
             Inl e \<Rightarrow> (Inl e, f)
           | Inr f1 \<Rightarrow>
               (case fileio_read f1 (unat sz) of
                  Inl e \<Rightarrow> (Inl e, f1)
                | Inr (bytes, f2) \<Rightarrow> (Inr (bytes, of_nat (length bytes)), f2)))
      | NULL \<Rightarrow> (Inl UNDEFINED_NULL_DEREFERENCE, f)
      | _ \<Rightarrow> (Inl UNDEFINED_TYPE_MISMATCH, f))"

text \<open>
  \<^verbatim>\<open>image_elf32_read_section\<close> and \<^verbatim>\<open>image_elf64_read_section\<close>, given the program header
  the section points to. \<^verbatim>\<open>*size_read\<close> is set to \<^verbatim>\<open>read_size\<close>, not to what the file
  gave.
\<close>

definition image_elf32_read_section ::
  "fileio \<Rightarrow> image_elf \<Rightarrow> Elf32_Phdr \<Rightarrow> target_addr_t \<Rightarrow> u32 \<Rightarrow> read_result \<times> fileio" where
  "image_elf32_read_section f elf segment offset sz =
     (if offset < ucast (field32 elf (p_filesz segment))
      then
        let read_size = min (ucast sz) (ucast (field32 elf (p_filesz segment)) - offset) :: size_t
        in case fileio_seek f (unat (ucast (field32 elf (p_offset segment)) + offset)) of
             Inl e \<Rightarrow> (Inl e, f)
           | Inr f1 \<Rightarrow>
               (case fileio_read f1 (unat read_size) of
                  Inl e \<Rightarrow> (Inl e, f1)
                | Inr (bytes, f2) \<Rightarrow> (Inr (bytes, read_size), f2))
      else (Inr ([], 0), f))"

definition image_elf64_read_section ::
  "fileio \<Rightarrow> image_elf \<Rightarrow> Elf64_Phdr \<Rightarrow> target_addr_t \<Rightarrow> u32 \<Rightarrow> read_result \<times> fileio" where
  "image_elf64_read_section f elf segment offset sz =
     (if offset < field64 elf (p_filesz64 segment)
      then
        let read_size = min (ucast sz) (field64 elf (p_filesz64 segment) - offset) :: size_t
        in case fileio_seek f (unat (field64 elf (p_offset64 segment) + offset)) of
             Inl e \<Rightarrow> (Inl e, f)
           | Inr f1 \<Rightarrow>
               (case fileio_read f1 (unat read_size) of
                  Inl e \<Rightarrow> (Inl e, f1)
                | Inr (bytes, f2) \<Rightarrow> (Inr (bytes, read_size), f2))
      else (Inr ([], 0), f))"

text \<open>\<^verbatim>\<open>image_elf_read_section\<close>: the dispatch on \<^verbatim>\<open>elf->is_64_bit\<close>, and the cast of the
  section's private pointer to the program header.\<close>

definition image_elf_read_section ::
  "fileio \<Rightarrow> image \<Rightarrow> imagesection \<Rightarrow> target_addr_t \<Rightarrow> u32 \<Rightarrow> read_result \<times> fileio" where
  "image_elf_read_section f img sec offset sz =
     (case type_private img of
        PRIVATE_ELF elf \<Rightarrow>
          (case private_sec sec of
             PRIVATE_SEGMENT n \<Rightarrow>
               (case segments elf of
                  SEGMENTS_NULL \<Rightarrow> (Inl UNDEFINED_NULL_DEREFERENCE, f)
                | SEGMENTS32 segs \<Rightarrow>
                    if is_64_bit elf then (Inl UNDEFINED_TYPE_MISMATCH, f)
                    else if n < length segs
                    then image_elf32_read_section f elf (segs ! n) offset sz
                    else (Inl UNDEFINED_OUT_OF_BOUNDS, f)
                | SEGMENTS64 segs \<Rightarrow>
                    if \<not> is_64_bit elf then (Inl UNDEFINED_TYPE_MISMATCH, f)
                    else if n < length segs
                    then image_elf64_read_section f elf (segs ! n) offset sz
                    else (Inl UNDEFINED_OUT_OF_BOUNDS, f))
           | PRIVATE_NULL \<Rightarrow> (Inl UNDEFINED_NULL_DEREFERENCE, f)
           | PRIVATE_UNSET \<Rightarrow> (Inl UNDEFINED_INDETERMINATE_VALUE, f)
           | _ \<Rightarrow> (Inl UNDEFINED_TYPE_MISMATCH, f))
      | NULL \<Rightarrow> (Inl UNDEFINED_NULL_DEREFERENCE, f)
      | _ \<Rightarrow> (Inl UNDEFINED_TYPE_MISMATCH, f))"

text \<open>
  The MEMORY branch: \<^verbatim>\<open>while ((size - *size_read) > 0)\<close>, a comparison of \<^verbatim>\<open>size_t\<close> values.
  Each round copies \<^verbatim>\<open>(size_in_cache > size) ? size : size_in_cache\<close> bytes, so \<^verbatim>\<open>*size_read\<close>
  can step over \<^verbatim>\<open>size\<close> and the loop need not end: it runs on fuel, and \<open>None\<close> says that
  the fuel did not suffice. The private data is returned as the loop leaves it.
\<close>

fun image_memory_read ::
  "nat \<Rightarrow> target \<Rightarrow> image_memory \<Rightarrow> u32 \<Rightarrow> u32 \<Rightarrow> u8 list \<Rightarrow> size_t \<Rightarrow>
     (read_result \<times> image_memory) option" where
  "image_memory_read 0 t image_memory address sz buffer size_read = None"
| "image_memory_read (Suc fuel) t image_memory address sz buffer size_read =
     (if \<not> (0 < ucast sz - size_read) then Some (Inr (buffer, size_read), image_memory)
      else
        let miss = (cache image_memory = None
                    \<or> address < cache_address image_memory
                    \<or> cache_address image_memory + IMAGE_MEMORY_CACHE_SIZE \<le> address);
            page = address AND NOT (IMAGE_MEMORY_CACHE_SIZE - 1);
            filled = (if miss
                      then case target_read_buffer t page (unat IMAGE_MEMORY_CACHE_SIZE) of
                             None \<Rightarrow> image_memory\<lparr>cache := None\<rparr>
                           | Some bytes \<Rightarrow> \<lparr>cache = Some bytes, cache_address = page\<rparr>
                      else image_memory)
        in case cache filled of
             None \<Rightarrow> Some (Inl ERROR_IMAGE_TEMPORARILY_UNAVAILABLE, filled)
           | Some bytes \<Rightarrow>
               let size_in_cache = (cache_address filled + IMAGE_MEMORY_CACHE_SIZE) - address;
                   n = (if sz < size_in_cache then sz else size_in_cache);
                   chunk = take (unat n) (drop (unat (address - cache_address filled)) bytes)
               in image_memory_read fuel t filled (address + n) sz (buffer @ chunk)
                    (size_read + ucast n))"

definition image_read_section ::
  "nat \<Rightarrow> target \<Rightarrow> fileio \<Rightarrow> image \<Rightarrow> int \<Rightarrow> target_addr_t \<Rightarrow> u32 \<Rightarrow>
     (read_result \<times> fileio \<times> image) option" where
  "image_read_section fuel t f img section offset sz =
     (case sections img of
        None \<Rightarrow> Some (Inl UNDEFINED_NULL_DEREFERENCE, f, img)
      | Some secs \<Rightarrow>
          if section < 0 \<or> int (length secs) \<le> section
          then Some (Inl UNDEFINED_OUT_OF_BOUNDS, f, img)
          else
            let sec = secs ! nat section in
            if ucast (size_sec sec) < offset + ucast sz
            then Some (Inl ERROR_COMMAND_SYNTAX_ERROR, f, img)
            else
              (case type_img img of
                 IMAGE_BINARY \<Rightarrow>
                   if section \<noteq> 0 then Some (Inl ERROR_COMMAND_SYNTAX_ERROR, f, img)
                   else let (r, f') = image_binary_read f img offset sz
                        in Some (r, f', img)
               | IMAGE_IHEX \<Rightarrow> Some (section_memcpy img sec offset sz, f, img)
               | IMAGE_ELF \<Rightarrow>
                   let (r, f') = image_elf_read_section f img sec offset sz
                   in Some (r, f', img)
               | IMAGE_MEMORY \<Rightarrow>
                   (case type_private img of
                      PRIVATE_MEMORY image_memory \<Rightarrow>
                        (case image_memory_read fuel t image_memory
                                (ucast (base_address sec + offset)) sz [] 0 of
                           None \<Rightarrow> None
                         | Some (r, image_memory') \<Rightarrow>
                             Some (r, f, img\<lparr>type_private := PRIVATE_MEMORY image_memory'\<rparr>))
                    | NULL \<Rightarrow>
                        if 0 < (ucast sz :: size_t)
                        then Some (Inl UNDEFINED_NULL_DEREFERENCE, f, img)
                        else Some (Inr ([], 0), f, img)
                    | _ \<Rightarrow>
                        if 0 < (ucast sz :: size_t)
                        then Some (Inl UNDEFINED_TYPE_MISMATCH, f, img)
                        else Some (Inr ([], 0), f, img))
               | IMAGE_SRECORD \<Rightarrow> Some (section_memcpy img sec offset sz, f, img)
               | IMAGE_BUILDER \<Rightarrow> Some (section_memcpy img sec offset sz, f, img)))"

section \<open>Closing an image (image_close)\<close>

text \<open>
  \<^verbatim>\<open>image_close\<close> first releases what the private data of the type holds, reading it through
  \<^verbatim>\<open>image->type_private\<close> without a test for \<^verbatim>\<open>NULL\<close>; for a BUILDER image it frees the
  block of each of the \<^verbatim>\<open>num_sections\<close> sections. Then it frees and clears
  \<^verbatim>\<open>type_private\<close> and \<^verbatim>\<open>sections\<close>; \<^verbatim>\<open>free(NULL)\<close> does nothing. \<^verbatim>\<open>num_sections\<close> stays.
  Closing the file acts on the file source, not on the image.
\<close>

definition image_close_private :: "image \<Rightarrow> error + unit" where
  "image_close_private img =
     (case type_img img of
        IMAGE_BINARY \<Rightarrow>
          (case type_private img of
             PRIVATE_BINARY \<Rightarrow> Inr ()
           | NULL \<Rightarrow> Inl UNDEFINED_NULL_DEREFERENCE
           | _ \<Rightarrow> Inl UNDEFINED_TYPE_MISMATCH)
      | IMAGE_IHEX \<Rightarrow>
          (case type_private img of
             PRIVATE_IHEX buffer \<Rightarrow> Inr ()
           | NULL \<Rightarrow> Inl UNDEFINED_NULL_DEREFERENCE
           | _ \<Rightarrow> Inl UNDEFINED_TYPE_MISMATCH)
      | IMAGE_ELF \<Rightarrow>
          (case type_private img of
             PRIVATE_ELF elf \<Rightarrow> Inr ()
           | NULL \<Rightarrow> Inl UNDEFINED_NULL_DEREFERENCE
           | _ \<Rightarrow> Inl UNDEFINED_TYPE_MISMATCH)
      | IMAGE_MEMORY \<Rightarrow>
          (case type_private img of
             PRIVATE_MEMORY image_memory \<Rightarrow> Inr ()
           | NULL \<Rightarrow> Inl UNDEFINED_NULL_DEREFERENCE
           | _ \<Rightarrow> Inl UNDEFINED_TYPE_MISMATCH)
      | IMAGE_SRECORD \<Rightarrow>
          (case type_private img of
             PRIVATE_MOT buffer \<Rightarrow> Inr ()
           | NULL \<Rightarrow> Inl UNDEFINED_NULL_DEREFERENCE
           | _ \<Rightarrow> Inl UNDEFINED_TYPE_MISMATCH)
      | IMAGE_BUILDER \<Rightarrow>
          (if num_sections img = 0 then Inr ()
           else case sections img of
                  None \<Rightarrow> Inl UNDEFINED_NULL_DEREFERENCE
                | Some secs \<Rightarrow>
                    if num_sections img \<le> length secs then Inr ()
                    else Inl UNDEFINED_OUT_OF_BOUNDS))"

definition image_close :: "image \<Rightarrow> error + image" where
  "image_close img =
     (case image_close_private img of
        Inl e \<Rightarrow> Inl e
      | Inr u \<Rightarrow> Inr (img\<lparr>type_private := NULL, sections := None\<rparr>))"


section \<open>ELF-32 headers (image_elf32_read_headers)\<close>

text \<open>
  The structures as the file holds them: \<^verbatim>\<open>fileio_read\<close> stores \<^verbatim>\<open>sizeof(Elf32_Ehdr)\<close> = 52
  bytes over the header and \<^verbatim>\<open>sizeof(Elf32_Phdr)\<close> = 32 bytes over each program header, the
  fields in the order of \<^verbatim>\<open>elf.h\<close>.
\<close>

fun raw16 :: "u8 list \<Rightarrow> u16" where
  "raw16 (b0 # b1 # bs) = ucast b0 OR push_bit 8 (ucast b1)"
| "raw16 bs = 0"

fun raw32 :: "u8 list \<Rightarrow> u32" where
  "raw32 (b0 # b1 # b2 # b3 # bs) =
     ucast b0 OR push_bit 8 (ucast b1) OR push_bit 16 (ucast b2) OR push_bit 24 (ucast b3)"
| "raw32 bs = 0"

definition Elf32_Ehdr_of :: "u8 list \<Rightarrow> Elf32_Ehdr" where
  "Elf32_Ehdr_of bytes =
     \<lparr>e_ident = take 16 bytes,
      e_type = raw16 (drop 16 bytes),
      e_machine = raw16 (drop 18 bytes),
      e_version = raw32 (drop 20 bytes),
      e_entry = raw32 (drop 24 bytes),
      e_phoff = raw32 (drop 28 bytes),
      e_shoff = raw32 (drop 32 bytes),
      e_flags = raw32 (drop 36 bytes),
      e_ehsize = raw16 (drop 40 bytes),
      e_phentsize = raw16 (drop 42 bytes),
      e_phnum = raw16 (drop 44 bytes),
      e_shentsize = raw16 (drop 46 bytes),
      e_shnum = raw16 (drop 48 bytes),
      e_shstrndx = raw16 (drop 50 bytes)\<rparr>"

definition Elf32_Phdr_of :: "u8 list \<Rightarrow> Elf32_Phdr" where
  "Elf32_Phdr_of bytes =
     \<lparr>p_type = raw32 bytes,
      p_offset = raw32 (drop 4 bytes),
      p_vaddr = raw32 (drop 8 bytes),
      p_paddr = raw32 (drop 12 bytes),
      p_filesz = raw32 (drop 16 bytes),
      p_memsz = raw32 (drop 20 bytes),
      p_flags = raw32 (drop 24 bytes),
      p_align = raw32 (drop 28 bytes)\<rparr>"

fun Elf32_Phdrs_of :: "nat \<Rightarrow> u8 list \<Rightarrow> Elf32_Phdr list" where
  "Elf32_Phdrs_of 0 bytes = []"
| "Elf32_Phdrs_of (Suc n) bytes = Elf32_Phdr_of (take 32 bytes) # Elf32_Phdrs_of n (drop 32 bytes)"

text \<open>The first loop: \<^verbatim>\<open>if (p_type == PT_LOAD && p_filesz != 0) image->num_sections++;\<close>\<close>

definition elf32_loadable :: "image_elf \<Rightarrow> Elf32_Phdr \<Rightarrow> bool" where
  "elf32_loadable elf seg \<longleftrightarrow>
     field32 elf (p_type seg) = PT_LOAD \<and> field32 elf (p_filesz seg) \<noteq> 0"

fun elf32_count_sections :: "image_elf \<Rightarrow> Elf32_Phdr list \<Rightarrow> nat \<Rightarrow> nat" where
  "elf32_count_sections elf [] num = num"
| "elf32_count_sections elf (seg # segs) num =
     elf32_count_sections elf segs (if elf32_loadable elf seg then num + 1 else num)"

text \<open>
  The second loop, with its \<^verbatim>\<open>break\<close> at the first \<^verbatim>\<open>p_paddr != 0\<close> (a test of the raw
  field). The result says whether the loop ran to the end (\<^verbatim>\<open>i >= elf->segment_count\<close>), and
  gives \<^verbatim>\<open>nload\<close>.
\<close>

fun elf32_scan_paddr :: "image_elf \<Rightarrow> Elf32_Phdr list \<Rightarrow> nat \<Rightarrow> bool \<times> nat" where
  "elf32_scan_paddr elf [] nload = (True, nload)"
| "elf32_scan_paddr elf (seg # segs) nload =
     (if p_paddr seg \<noteq> 0 then (False, nload)
      else elf32_scan_paddr elf segs
             (if field32 elf (p_type seg) = PT_LOAD \<and> field32 elf (p_memsz seg) \<noteq> 0
              then nload + 1 else nload))"

definition elf32_load_to_vaddr :: "image_elf \<Rightarrow> Elf32_Phdr list \<Rightarrow> bool" where
  "elf32_load_to_vaddr elf segs =
     (let (at_end, nload) = elf32_scan_paddr elf segs 0 in at_end \<and> 1 < nload)"

text \<open>The third loop fills \<^verbatim>\<open>image->sections[j]\<close> from segment \<open>i\<close>.\<close>

fun elf32_fill_sections ::
  "image_elf \<Rightarrow> bool \<Rightarrow> Elf32_Phdr list \<Rightarrow> nat \<Rightarrow> imagesection list" where
  "elf32_fill_sections elf load_to_vaddr [] i = []"
| "elf32_fill_sections elf load_to_vaddr (seg # segs) i =
     (if elf32_loadable elf seg
      then \<lparr>base_address = (if load_to_vaddr then ucast (field32 elf (p_vaddr seg))
                             else ucast (field32 elf (p_paddr seg))),
            size_sec = field32 elf (p_filesz seg),
            flags = ucast (field32 elf (p_flags seg)),
            private_sec = PRIVATE_SEGMENT i\<rparr>
           # elf32_fill_sections elf load_to_vaddr segs (Suc i)
      else elf32_fill_sections elf load_to_vaddr segs (Suc i))"

text \<open>
  \<^verbatim>\<open>image_elf32_read_headers\<close>. On success it returns the file source and the image; the
  allocations are taken to succeed.
\<close>

definition image_elf32_read_headers :: "fileio \<Rightarrow> image \<Rightarrow> error + (fileio \<times> image)" where
  "image_elf32_read_headers f img =
     (case type_private img of
        PRIVATE_ELF elf \<Rightarrow>
          (case fileio_seek f 0 of
             Inl e \<Rightarrow> Inl e
           | Inr f1 \<Rightarrow>
          (case fileio_read f1 52 of
             Inl e \<Rightarrow> Inl ERROR_FILEIO_OPERATION_FAILED
           | Inr (header_bytes, f2) \<Rightarrow>
          if length header_bytes \<noteq> 52 then Inl ERROR_FILEIO_OPERATION_FAILED
          else
            let header32 = Elf32_Ehdr_of header_bytes;
                count = ucast (field16 elf (e_phnum header32)) :: u32
            in
            if count = 0 then Inl ERROR_IMAGE_FORMAT_ERROR
            else
          (case fileio_seek f2 (unat (field32 elf (e_phoff header32))) of
             Inl e \<Rightarrow> Inl e
           | Inr f3 \<Rightarrow>
          (case fileio_read f3 (unat count * 32) of
             Inl e \<Rightarrow> Inl e
           | Inr (segment_bytes, f4) \<Rightarrow>
          if length segment_bytes \<noteq> unat count * 32 then Inl ERROR_FILEIO_OPERATION_FAILED
          else
            let segs = Elf32_Phdrs_of (unat count) segment_bytes;
                elf' = elf\<lparr>header := HEADER32 header32, segments := SEGMENTS32 segs,
                          segment_count := count\<rparr>;
                num = elf32_count_sections elf' segs 0
            in
            if num = 0 then Inl ERROR_IMAGE_FORMAT_ERROR
            else
              let load_to_vaddr = elf32_load_to_vaddr elf' segs
              in Inr (f4, img\<lparr>type_private := PRIVATE_ELF elf',
                               num_sections := num,
                               sections := Some (elf32_fill_sections elf' load_to_vaddr segs 0),
                               start_address_set := True,
                               start_address := field32 elf' (e_entry header32)\<rparr>)))))
      | NULL \<Rightarrow> Inl UNDEFINED_NULL_DEREFERENCE
      | _ \<Rightarrow> Inl UNDEFINED_TYPE_MISMATCH)"

section \<open>The text formats: common parts of the IHEX and S-record parsers\<close>

text \<open>
  Modelled from the spec: \<^verbatim>\<open>IMAGE_MAX_SECTIONS\<close> (\<^verbatim>\<open>image.h\<close>) is 128.
\<close>

definition IMAGE_MAX_SECTIONS :: nat where
  "IMAGE_MAX_SECTIONS = 128"

text \<open>
  Modelled from the spec: the file source opened as text, with \<open>size\<close>, \<open>fgets(max)\<close> and
  \<open>feof\<close>. The source holds the characters not yet read. \<open>fgets(max)\<close> fails at the end of
  the file; otherwise it returns the characters up to and with the next newline, at most
  \<open>max - 1\<close> of them. The end-of-file mark is set by a read that ran into the end: a failed
  \<open>fgets\<close>, or a last line without newline. \<open>size_reply\<close> is what \<open>size\<close> answers.
\<close>

record textio =
  unread :: string
  at_eof :: bool
  size_reply :: "error + nat"

fun take_line :: "nat \<Rightarrow> string \<Rightarrow> string" where
  "take_line 0 s = []"
| "take_line (Suc k) [] = []"
| "take_line (Suc k) (c # s) = (if c = CHR 0x0A then [c] else c # take_line k s)"

definition fileio_fgets :: "textio \<Rightarrow> nat \<Rightarrow> string option \<times> textio" where
  "fileio_fgets tf n =
     (if unread tf = [] \<or> n < 2 then (None, tf\<lparr>at_eof := (unread tf = [] \<or> at_eof tf)\<rparr>)
      else
        let line = take_line (n - 1) (unread tf);
            rest = drop (length line) (unread tf)
        in (Some line,
            tf\<lparr>unread := rest,
               at_eof := (rest = [] \<and> last line \<noteq> CHR 0x0A \<and> length line < n - 1)\<rparr>))"

definition fileio_feof :: "textio \<Rightarrow> bool" where
  "fileio_feof tf = at_eof tf"

definition fileio_size :: "textio \<Rightarrow> error + nat" where
  "fileio_size tf = size_reply tf"

text \<open>
  The conversions \<^verbatim>\<open>%1x\<close>, \<^verbatim>\<open>%2x\<close>, \<^verbatim>\<open>%4x\<close>, ... of \<^verbatim>\<open>sscanf\<close> belong to the C library.
  The parsers take the conversion as a parameter: \<open>scan width s\<close> is the number read from
  the start of \<open>s\<close> and the rest of \<open>s\<close>, or \<open>None\<close> where \<^verbatim>\<open>sscanf\<close> converts nothing.
  \<open>sscanf_hex\<close> is the conversion on hexadecimal digits: at most \<open>width\<close> of them, at least
  one (white space, signs and a \<^verbatim>\<open>0x\<close> prefix, which the C library would also take, are
  left out).
\<close>

type_synonym scanner = "nat \<Rightarrow> string \<Rightarrow> (u32 \<times> string) option"

definition hex_value :: "char \<Rightarrow> u32 option" where
  "hex_value c =
     (let n = of_char c :: nat in
      if 48 \<le> n \<and> n \<le> 57 then Some (of_nat (n - 48))
      else if 65 \<le> n \<and> n \<le> 70 then Some (of_nat (n - 55))
      else if 97 \<le> n \<and> n \<le> 102 then Some (of_nat (n - 87))
      else None)"

fun scan_digits :: "nat \<Rightarrow> string \<Rightarrow> u32 \<Rightarrow> u32 \<times> string" where
  "scan_digits 0 s acc = (acc, s)"
| "scan_digits (Suc k) [] acc = (acc, [])"
| "scan_digits (Suc k) (c # s) acc =
     (case hex_value c of
        None \<Rightarrow> (acc, c # s)
      | Some d \<Rightarrow> scan_digits k s (push_bit 4 acc OR d))"

definition sscanf_hex :: scanner where
  "sscanf_hex width s =
     (case s of
        [] \<Rightarrow> None
      | c # s' \<Rightarrow> if width = 0 \<or> hex_value c = None then None else Some (scan_digits width s 0))"

text \<open>
  A conversion at \<^verbatim>\<open>&lpsz_line[bytes_read]\<close> whose result the code does not test, into a
  variable that has no value yet and is used next. Where nothing is converted, and where
  \<^verbatim>\<open>bytes_read\<close> lies behind the end of the line (in what earlier lines left in the buffer),
  the value used is indeterminate.
\<close>

definition scan_at :: "scanner \<Rightarrow> nat \<Rightarrow> string \<Rightarrow> nat \<Rightarrow> error + u32" where
  "scan_at scan width line bytes_read =
     (if length line < bytes_read then Inl UNDEFINED_INDETERMINATE_VALUE
      else case scan width (drop bytes_read line) of
             None \<Rightarrow> Inl UNDEFINED_INDETERMINATE_VALUE
           | Some (v, rest) \<Rightarrow> Inr v)"

text \<open>
  \<^verbatim>\<open>(lpsz_line[0] == '#') || (strlen(lpsz_line + strspn(lpsz_line, "\n\t\r ")) == 0)\<close>:
  comments and blank lines.
\<close>

definition skipped_line :: "string \<Rightarrow> bool" where
  "skipped_line line \<longleftrightarrow>
     (case line of [] \<Rightarrow> False | c # s \<Rightarrow> c = CHR ''#'')
     \<or> dropWhile (\<lambda>c. c \<in> {CHR 0x0A, CHR 0x09, CHR 0x0D, CHR '' ''}) line = []"

text \<open>
  The locals of the two parsers that live across lines, with the image they fill:
  the scratch array \<^verbatim>\<open>section\<close> of \<^verbatim>\<open>IMAGE_MAX_SECTIONS\<close> entries, the decoded bytes
  \<^verbatim>\<open>buffer[0..cooked_bytes)\<close> (so \<^verbatim>\<open>cooked_bytes\<close> is the length of \<open>cooked\<close>),
  \<^verbatim>\<open>full_address\<close> and \<^verbatim>\<open>end_rec\<close>. \<^verbatim>\<open>image->num_sections\<close> is the index of the section
  being filled. The buffer of \<^verbatim>\<open>filesize >> 1\<close> bytes has room for every byte decoded from
  two characters of the file, and allocations are taken to succeed.
\<close>

record parser =
  image_of :: image
  section_array :: "imagesection list"
  cooked :: "u8 list"
  full_address :: u32
  end_rec :: bool

text \<open>A store into \<^verbatim>\<open>section[n]\<close>; outside the array it is undefined.\<close>

definition section_store ::
  "imagesection list \<Rightarrow> nat \<Rightarrow> (imagesection \<Rightarrow> imagesection) \<Rightarrow> error + imagesection list" where
  "section_store secs n upd =
     (if n < length secs then Inr (secs[n := upd (secs ! n)]) else Inl UNDEFINED_OUT_OF_BOUNDS)"

definition current_store :: "parser \<Rightarrow> (imagesection \<Rightarrow> imagesection) \<Rightarrow> error + parser" where
  "current_store st upd =
     (case section_store (section_array st) (num_sections (image_of st)) upd of
        Inl e \<Rightarrow> Inl e
      | Inr secs \<Rightarrow> Inr (st\<lparr>section_array := secs\<rparr>))"

definition current_size :: "parser \<Rightarrow> error + u32" where
  "current_size st =
     (if num_sections (image_of st) < length (section_array st)
      then Inr (size_sec (section_array st ! num_sections (image_of st)))
      else Inl UNDEFINED_OUT_OF_BOUNDS)"

definition next_section :: "parser \<Rightarrow> parser" where
  "next_section st =
     st\<lparr>image_of := (image_of st)\<lparr>num_sections := num_sections (image_of st) + 1\<rparr>\<rparr>"

text \<open>
  The start of each round of the outer loop \<^verbatim>\<open>while (!fileio_feof(fileio))\<close>:
  \<^verbatim>\<open>full_address = 0\<close> and the four stores into \<^verbatim>\<open>section[image->num_sections]\<close>.
\<close>

definition begin_pass :: "parser \<Rightarrow> error + parser" where
  "begin_pass st =
     current_store (st\<lparr>full_address := 0\<rparr>)
       (\<lambda>s. \<lparr>base_address = 0, size_sec = 0, flags = 0,
             private_sec = PRIVATE_BUFFER (length (cooked st))\<rparr>)"

text \<open>
  \<^verbatim>\<open>while (count-- > 0)\<close> over the data bytes of a record, the same in both parsers: convert
  two digits, store the byte, add it to the checksum, grow the current section.
\<close>

function data_loop ::
  "scanner \<Rightarrow> string \<Rightarrow> u32 \<Rightarrow> nat \<Rightarrow> u8 \<Rightarrow> parser \<Rightarrow> error + (nat \<times> u8 \<times> parser)" where
  "data_loop scan line count bytes_read cal_checksum st =
     (if count = 0 then Inr (bytes_read, cal_checksum, st)
      else case scan_at scan 2 line bytes_read of
             Inl e \<Rightarrow> Inl e
           | Inr v \<Rightarrow>
               (case current_store (st\<lparr>cooked := cooked st @ [ucast v]\<rparr>)
                       (\<lambda>s. s\<lparr>size_sec := size_sec s + 1\<rparr>) of
                  Inl e \<Rightarrow> Inl e
                | Inr st' \<Rightarrow>
                    data_loop scan line (count - 1) (bytes_read + 2) (cal_checksum + ucast v)
                      (st'\<lparr>full_address := full_address st' + 1\<rparr>)))"
  by pat_completeness auto
termination
  by (relation "measure (\<lambda>(scan, line, count, bytes_read, cal_checksum, st). unat count)")
     (auto simp: unat_minus_one unat_gt_0)

declare data_loop.simps [simp del]

text \<open>
  \<^verbatim>\<open>while (count-- > 0)\<close> over bytes that only count for the checksum (IHEX type 3,
  S0, S5, S6).
\<close>

function skip_loop :: "scanner \<Rightarrow> string \<Rightarrow> u32 \<Rightarrow> nat \<Rightarrow> u8 \<Rightarrow> error + (nat \<times> u8)" where
  "skip_loop scan line count bytes_read cal_checksum =
     (if count = 0 then Inr (bytes_read, cal_checksum)
      else case scan_at scan 2 line bytes_read of
             Inl e \<Rightarrow> Inl e
           | Inr v \<Rightarrow> skip_loop scan line (count - 1) (bytes_read + 2) (cal_checksum + ucast v))"
  by pat_completeness auto
termination
  by (relation "measure (\<lambda>(scan, line, count, bytes_read, cal_checksum). unat count)")
     (auto simp: unat_minus_one unat_gt_0)

declare skip_loop.simps [simp del]

text \<open>
  The end record of both parsers: \<^verbatim>\<open>image->num_sections++\<close>, then the copy of
  \<^verbatim>\<open>section[0..num_sections)\<close> into a fresh \<^verbatim>\<open>image->sections\<close>, and \<^verbatim>\<open>end_rec = true\<close>.
\<close>

definition finish_sections :: "parser \<Rightarrow> error + parser" where
  "finish_sections st =
     (let st' = next_section st; n = num_sections (image_of st')
      in if length (section_array st') < n then Inl UNDEFINED_OUT_OF_BOUNDS
         else Inr (st'\<lparr>image_of := (image_of st')\<lparr>sections := Some (take n (section_array st'))\<rparr>,
                       end_rec := True\<rparr>))"

section \<open>The IHEX parser (image_ihex_buffer_complete_inner)\<close>

text \<open>
  \<^verbatim>\<open>sscanf(lpsz_line, ":%2x%4x%2x", &count, &address, &record_type) != 3\<close>: the colon,
  then three conversions, each from where the one before stopped.
\<close>

definition ihex_scan_header :: "scanner \<Rightarrow> string \<Rightarrow> (u32 \<times> u32 \<times> u32) option" where
  "ihex_scan_header scan line =
     (case line of
        [] \<Rightarrow> None
      | c # s1 \<Rightarrow>
          if c \<noteq> CHR '':'' then None
          else case scan 2 s1 of
                 None \<Rightarrow> None
               | Some (count, s2) \<Rightarrow>
                   (case scan 4 s2 of
                      None \<Rightarrow> None
                    | Some (address, s3) \<Rightarrow>
                        (case scan 2 s3 of
                           None \<Rightarrow> None
                         | Some (record_type, s4) \<Rightarrow> Some (count, address, record_type))))"

text \<open>
  The block that the record types 0, 2 and 4 share, entered when the record does not
  continue at \<^verbatim>\<open>full_address\<close>: a non-empty current section is closed and the next one
  opened (\<open>ERROR_IMAGE_FORMAT_ERROR\<close> when \<^verbatim>\<open>image->num_sections >= IMAGE_MAX_SECTIONS\<close>),
  then the current section and \<^verbatim>\<open>full_address\<close> get the new address.
\<close>

definition ihex_new_address :: "parser \<Rightarrow> u32 \<Rightarrow> error + parser" where
  "ihex_new_address st a =
     (case current_size st of
        Inl e \<Rightarrow> Inl e
      | Inr n \<Rightarrow>
          (case (if n \<noteq> 0
                 then let st' = next_section st in
                      if IMAGE_MAX_SECTIONS \<le> num_sections (image_of st')
                      then Inl ERROR_IMAGE_FORMAT_ERROR
                      else current_store st'
                             (\<lambda>s. s\<lparr>size_sec := 0, flags := 0,
                                    private_sec := PRIVATE_BUFFER (length (cooked st'))\<rparr>)
                 else Inr st) of
             Inl e \<Rightarrow> Inl e
           | Inr st1 \<Rightarrow>
               (case current_store st1 (\<lambda>s. s\<lparr>base_address := ucast a\<rparr>) of
                  Inl e \<Rightarrow> Inl e
                | Inr st2 \<Rightarrow> Inr (st2\<lparr>full_address := a\<rparr>))))"

text \<open>
  The body of a record of type 0, 2, 3, 4 or 5, up to the checksum: the new
  \<^verbatim>\<open>bytes_read\<close>, \<^verbatim>\<open>cal_checksum\<close> and state. \<^verbatim>\<open>upper_address\<close> is a \<^verbatim>\<open>uint16_t\<close>.
  \<^verbatim>\<open>be_to_h_u32((uint8_t *)&start_address)\<close> reads the bytes of a host integer, here of a
  little-endian host.
\<close>

definition ihex_record_body ::
  "scanner \<Rightarrow> string \<Rightarrow> u32 \<Rightarrow> u32 \<Rightarrow> u32 \<Rightarrow> u8 \<Rightarrow> parser \<Rightarrow> error + (nat \<times> u8 \<times> parser)" where
  "ihex_record_body scan line count address record_type cal_checksum st =
     (if record_type = 0 then
        (case (if full_address st AND 0xffff \<noteq> address
               then ihex_new_address st ((full_address st AND 0xffff0000) OR address)
               else Inr st) of
           Inl e \<Rightarrow> Inl e
         | Inr st1 \<Rightarrow> data_loop scan line count 9 cal_checksum st1)
      else if record_type = 2 then
        (case scan_at scan 4 line 9 of
           Inl e \<Rightarrow> Inl e
         | Inr v \<Rightarrow>
             let upper_address = ucast v :: u16;
                 cal = cal_checksum + ucast (drop_bit 8 upper_address) + ucast upper_address
             in case (if drop_bit 4 (full_address st) \<noteq> ucast upper_address
                      then ihex_new_address st
                             ((full_address st AND 0xffff) OR push_bit 4 (ucast upper_address))
                      else Inr st) of
                  Inl e \<Rightarrow> Inl e
                | Inr st1 \<Rightarrow> Inr (13, cal, st1))
      else if record_type = 3 then
        (case skip_loop scan line count 9 cal_checksum of
           Inl e \<Rightarrow> Inl e
         | Inr (bytes_read, cal) \<Rightarrow> Inr (bytes_read, cal, st))
      else if record_type = 4 then
        (case scan_at scan 4 line 9 of
           Inl e \<Rightarrow> Inl e
         | Inr v \<Rightarrow>
             let upper_address = ucast v :: u16;
                 cal = cal_checksum + ucast (drop_bit 8 upper_address) + ucast upper_address
             in case (if drop_bit 16 (full_address st) \<noteq> ucast upper_address
                      then ihex_new_address st
                             ((full_address st AND 0xffff) OR push_bit 16 (ucast upper_address))
                      else Inr st) of
                  Inl e \<Rightarrow> Inl e
                | Inr st1 \<Rightarrow> Inr (13, cal, st1))
      else if record_type = 5 then
        (case scan_at scan 8 line 9 of
           Inl e \<Rightarrow> Inl e
         | Inr start \<Rightarrow>
             let cal = cal_checksum + ucast (drop_bit 24 start) + ucast (drop_bit 16 start)
                         + ucast (drop_bit 8 start) + ucast start
             in Inr (17, cal,
                     st\<lparr>image_of := (image_of st)\<lparr>start_address_set := True,
                                                   start_address := be_to_h_u32 start\<rparr>\<rparr>))
      else Inl ERROR_IMAGE_FORMAT_ERROR)"

text \<open>
  One line that is not skipped. The result says whether the inner loop is left
  (\<^verbatim>\<open>break\<close> after the end-of-file record, before the checksum is looked at).
\<close>

definition ihex_record :: "scanner \<Rightarrow> string \<Rightarrow> parser \<Rightarrow> error + (parser \<times> bool)" where
  "ihex_record scan line st =
     (case ihex_scan_header scan line of
        None \<Rightarrow> Inl ERROR_IMAGE_FORMAT_ERROR
      | Some (count, address, record_type) \<Rightarrow>
          let cal_checksum = ucast count + ucast (drop_bit 8 address) + ucast address
                               + ucast record_type :: u8
          in if record_type = 1 then
               (case finish_sections st of
                  Inl e \<Rightarrow> Inl e
                | Inr st' \<Rightarrow> Inr (st', True))
             else
               (case ihex_record_body scan line count address record_type cal_checksum st of
                  Inl e \<Rightarrow> Inl e
                | Inr (bytes_read, cal, st') \<Rightarrow>
                    (case scan_at scan 2 line bytes_read of
                       Inl e \<Rightarrow> Inl e
                     | Inr checksum \<Rightarrow>
                         if (ucast checksum :: u8) \<noteq> NOT cal + 1 then Inl ERROR_IMAGE_CHECKSUM
                         else Inr (st'\<lparr>end_rec := False\<rparr>, False))))"

text \<open>The inner loop \<^verbatim>\<open>while (fileio_fgets(fileio, 1023, lpsz_line) == ERROR_OK)\<close>.\<close>

lemma take_line_nonempty: "0 < k \<Longrightarrow> s \<noteq> [] \<Longrightarrow> take_line k s \<noteq> []"
  by (cases k; cases s) auto

lemma take_line_length: "length (take_line k s) \<le> length s"
  by (induction k s rule: take_line.induct) auto

lemma fileio_fgets_shorter:
  "fileio_fgets tf n = (Some line, tf') \<Longrightarrow> length (unread tf') < length (unread tf)"
  using take_line_nonempty [of "n - 1" "unread tf"] take_line_length [of "n - 1" "unread tf"]
  by (auto simp: fileio_fgets_def Let_def split: if_splits)

lemma fileio_fgets_end:
  "fileio_fgets tf n = (None, tf') \<Longrightarrow> 1 < n \<Longrightarrow> unread tf' = unread tf \<and> at_eof tf'"
  by (auto simp: fileio_fgets_def Let_def split: if_splits)

function ihex_lines :: "scanner \<Rightarrow> textio \<Rightarrow> parser \<Rightarrow> error + (parser \<times> textio)" where
  "ihex_lines scan tf st =
     (case fileio_fgets tf 1023 of
        (None, tf') \<Rightarrow> Inr (st, tf')
      | (Some line, tf') \<Rightarrow>
          if skipped_line line then ihex_lines scan tf' st
          else case ihex_record scan line st of
                 Inl e \<Rightarrow> Inl e
               | Inr (st', leave) \<Rightarrow> if leave then Inr (st', tf') else ihex_lines scan tf' st')"
  by pat_completeness auto
termination
  by (relation "measure (\<lambda>(scan, tf, st). length (unread tf))")
     (auto dest: fileio_fgets_shorter [OF sym])

declare ihex_lines.simps [simp del]

text \<open>
  After the inner loop the file is shorter, or it is at its end and says so; this bounds
  the rounds of the outer loop.
\<close>

definition unread_measure :: "textio \<Rightarrow> nat" where
  "unread_measure tf = 2 * length (unread tf) + (if at_eof tf then 0 else 1)"

lemma ihex_lines_progress:
  "ihex_lines scan tf st = Inr (st', tf') \<Longrightarrow>
   length (unread tf') < length (unread tf) \<or> (unread tf' = unread tf \<and> at_eof tf')"
proof (induction scan tf st rule: ihex_lines.induct)
  case (1 scan tf st)
  obtain l tf1 where g: "fileio_fgets tf 1023 = (l, tf1)" by (cases "fileio_fgets tf 1023")
  show ?case
  proof (cases l)
    case None
    with g 1(3) have "tf' = tf1" by (subst (asm) ihex_lines.simps) simp
    moreover from g None have "unread tf1 = unread tf \<and> at_eof tf1"
      using fileio_fgets_end [of tf 1023 tf1] by simp
    ultimately show ?thesis by simp
  next
    case (Some line)
    with g have short: "length (unread tf1) < length (unread tf)"
      using fileio_fgets_shorter by simp
    have "length (unread tf') \<le> length (unread tf1)"
    proof (cases "skipped_line line")
      case True
      with g Some 1(3) have "ihex_lines scan tf1 st = Inr (st', tf')"
        by (subst (asm) ihex_lines.simps) simp
      with 1(1) [OF g [symmetric] Some True] show ?thesis by auto
    next
      case False
      with g Some 1(3) obtain st1 leave where r: "ihex_record scan line st = Inr (st1, leave)"
        and c: "(if leave then Inr (st1, tf1) else ihex_lines scan tf1 st1) = Inr (st', tf')"
        by (subst (asm) ihex_lines.simps) (auto split: sum.splits)
      show ?thesis
      proof (cases leave)
        case True
        with c show ?thesis by simp
      next
        case nl: False
        with c have "ihex_lines scan tf1 st1 = Inr (st', tf')" by simp
        with 1(2) [OF g [symmetric] Some False r refl nl] show ?thesis by auto
      qed
    qed
    with short show ?thesis by simp
  qed
qed

lemma ihex_lines_measure:
  "ihex_lines scan tf st = Inr (st', tf') \<Longrightarrow> \<not> at_eof tf \<Longrightarrow>
   unread_measure tf' < unread_measure tf"
  by (drule ihex_lines_progress) (auto simp: unread_measure_def)

text \<open>The outer loop \<^verbatim>\<open>while (!fileio_feof(fileio))\<close>.\<close>

function ihex_passes :: "scanner \<Rightarrow> textio \<Rightarrow> parser \<Rightarrow> error + parser" where
  "ihex_passes scan tf st =
     (if fileio_feof tf then Inr st
      else case begin_pass st of
             Inl e \<Rightarrow> Inl e
           | Inr st1 \<Rightarrow>
               (case ihex_lines scan tf st1 of
                  Inl e \<Rightarrow> Inl e
                | Inr (st2, tf2) \<Rightarrow> ihex_passes scan tf2 st2))"
  by pat_completeness auto
termination
  by (relation "measure (\<lambda>(scan, tf, st). unread_measure tf)")
     (auto simp: fileio_feof_def intro: ihex_lines_measure)

declare ihex_passes.simps [simp del]

text \<open>
  \<^verbatim>\<open>image_ihex_buffer_complete_inner\<close>, with the scratch array it is given, and
  \<^verbatim>\<open>image_ihex_buffer_complete\<close>, which allocates the array: its entries hold nothing
  before the first stores.
\<close>

definition image_ihex_buffer_complete_inner ::
  "scanner \<Rightarrow> textio \<Rightarrow> image \<Rightarrow> imagesection list \<Rightarrow> error + image" where
  "image_ihex_buffer_complete_inner scan tf img section_array0 =
     (case type_private img of
        PRIVATE_IHEX buffer \<Rightarrow>
          (case fileio_size tf of
             Inl e \<Rightarrow> Inl e
           | Inr filesize \<Rightarrow>
               (case ihex_passes scan tf
                       \<lparr>image_of = img\<lparr>num_sections := 0\<rparr>, section_array = section_array0,
                        cooked = [], full_address = 0, end_rec = False\<rparr> of
                  Inl e \<Rightarrow> Inl e
                | Inr st \<Rightarrow>
                    if end_rec st
                    then Inr ((image_of st)\<lparr>type_private := PRIVATE_IHEX (Some (cooked st))\<rparr>)
                    else Inl ERROR_IMAGE_FORMAT_ERROR))
      | NULL \<Rightarrow> Inl UNDEFINED_NULL_DEREFERENCE
      | _ \<Rightarrow> Inl UNDEFINED_TYPE_MISMATCH)"

definition fresh_section_array :: "imagesection list" where
  "fresh_section_array =
     replicate IMAGE_MAX_SECTIONS
       \<lparr>base_address = 0, size_sec = 0, flags = 0, private_sec = PRIVATE_UNSET\<rparr>"

definition image_ihex_buffer_complete :: "scanner \<Rightarrow> textio \<Rightarrow> image \<Rightarrow> error + image" where
  "image_ihex_buffer_complete scan tf img =
     image_ihex_buffer_complete_inner scan tf img fresh_section_array"

section \<open>The S-record parser (image_mot_buffer_complete_inner)\<close>

text \<open>\<^verbatim>\<open>sscanf(lpsz_line, "S%1x%2x", &record_type, &count) != 2\<close>\<close>

definition mot_scan_header :: "scanner \<Rightarrow> string \<Rightarrow> (u32 \<times> u32) option" where
  "mot_scan_header scan line =
     (case line of
        [] \<Rightarrow> None
      | c # s1 \<Rightarrow>
          if c \<noteq> CHR ''S'' then None
          else case scan 1 s1 of
                 None \<Rightarrow> None
               | Some (record_type, s2) \<Rightarrow>
                   (case scan 2 s2 of
                      None \<Rightarrow> None
                    | Some (count, s3) \<Rightarrow> Some (record_type, count)))"

text \<open>
  The block of the data records entered when \<^verbatim>\<open>full_address != address\<close>. Other than in
  the IHEX parser, \<^verbatim>\<open>image->num_sections++\<close> is followed by no test against
  \<^verbatim>\<open>IMAGE_MAX_SECTIONS\<close>.
\<close>

definition mot_new_address :: "parser \<Rightarrow> u32 \<Rightarrow> error + parser" where
  "mot_new_address st a =
     (case current_size st of
        Inl e \<Rightarrow> Inl e
      | Inr n \<Rightarrow>
          (case (if n \<noteq> 0
                 then let st' = next_section st in
                      current_store st'
                        (\<lambda>s. s\<lparr>size_sec := 0, flags := 0,
                               private_sec := PRIVATE_BUFFER (length (cooked st'))\<rparr>)
                 else Inr st) of
             Inl e \<Rightarrow> Inl e
           | Inr st1 \<Rightarrow>
               (case current_store st1 (\<lambda>s. s\<lparr>base_address := ucast a\<rparr>) of
                  Inl e \<Rightarrow> Inl e
                | Inr st2 \<Rightarrow> Inr (st2\<lparr>full_address := a\<rparr>))))"

text \<open>
  The address of an S1, S2 or S3 record: its width in digits, and what its bytes add to
  the checksum.
\<close>

definition mot_address_digits :: "u32 \<Rightarrow> nat" where
  "mot_address_digits record_type =
     (if record_type = 1 then 4 else if record_type = 2 then 6 else 8)"

definition mot_address_sum :: "u32 \<Rightarrow> u32 \<Rightarrow> u8" where
  "mot_address_sum record_type address =
     (if record_type = 1 then ucast (drop_bit 8 address) + ucast address
      else if record_type = 2
      then ucast (drop_bit 16 address) + ucast (drop_bit 8 address) + ucast address
      else ucast (drop_bit 24 address) + ucast (drop_bit 16 address)
             + ucast (drop_bit 8 address) + ucast address)"

text \<open>
  The body of a record of type 0, 1, 2, 3, 5 or 6 up to the checksum; \<open>count\<close> is the
  count of the record less one (\<^verbatim>\<open>count -= 1\<close>, "skip checksum byte").
\<close>

definition mot_record_body ::
  "scanner \<Rightarrow> string \<Rightarrow> u32 \<Rightarrow> u32 \<Rightarrow> u8 \<Rightarrow> parser \<Rightarrow> error + (nat \<times> u8 \<times> parser)" where
  "mot_record_body scan line record_type count cal_checksum st =
     (if record_type = 0 then
        (case skip_loop scan line count 4 cal_checksum of
           Inl e \<Rightarrow> Inl e
         | Inr (bytes_read, cal) \<Rightarrow> Inr (bytes_read, cal, st))
      else if 1 \<le> record_type \<and> record_type \<le> 3 then
        (case scan_at scan (mot_address_digits record_type) line 4 of
           Inl e \<Rightarrow> Inl e
         | Inr address \<Rightarrow>
             let cal = cal_checksum + mot_address_sum record_type address;
                 bytes_read = 4 + mot_address_digits record_type;
                 count' = count - of_nat (mot_address_digits record_type div 2)
             in case (if full_address st \<noteq> address then mot_new_address st address
                      else Inr st) of
                  Inl e \<Rightarrow> Inl e
                | Inr st1 \<Rightarrow> data_loop scan line count' bytes_read cal st1)
      else if record_type = 5 \<or> record_type = 6 then
        (case skip_loop scan line count 4 cal_checksum of
           Inl e \<Rightarrow> Inl e
         | Inr (bytes_read, cal) \<Rightarrow> Inr (bytes_read, cal, st))
      else Inl ERROR_IMAGE_FORMAT_ERROR)"

text \<open>
  One line that is not skipped. The records S7, S8 and S9 end the inner loop with
  \<^verbatim>\<open>break\<close>, before the checksum is looked at.
\<close>

definition mot_record :: "scanner \<Rightarrow> string \<Rightarrow> parser \<Rightarrow> error + (parser \<times> bool)" where
  "mot_record scan line st =
     (case mot_scan_header scan line of
        None \<Rightarrow> Inl ERROR_IMAGE_FORMAT_ERROR
      | Some (record_type, count) \<Rightarrow>
          let cal_checksum = ucast count :: u8;
              count' = count - 1
          in if 7 \<le> record_type \<and> record_type \<le> 9 then
               (case finish_sections st of
                  Inl e \<Rightarrow> Inl e
                | Inr st' \<Rightarrow> Inr (st', True))
             else
               (case mot_record_body scan line record_type count' cal_checksum st of
                  Inl e \<Rightarrow> Inl e
                | Inr (bytes_read, cal, st') \<Rightarrow>
                    (case scan_at scan 2 line bytes_read of
                       Inl e \<Rightarrow> Inl e
                     | Inr checksum \<Rightarrow>
                         if cal + ucast checksum \<noteq> 0xFF then Inl ERROR_IMAGE_CHECKSUM
                         else Inr (st'\<lparr>end_rec := False\<rparr>, False))))"

function mot_lines :: "scanner \<Rightarrow> textio \<Rightarrow> parser \<Rightarrow> error + (parser \<times> textio)" where
  "mot_lines scan tf st =
     (case fileio_fgets tf 1023 of
        (None, tf') \<Rightarrow> Inr (st, tf')
      | (Some line, tf') \<Rightarrow>
          if skipped_line line then mot_lines scan tf' st
          else case mot_record scan line st of
                 Inl e \<Rightarrow> Inl e
               | Inr (st', leave) \<Rightarrow> if leave then Inr (st', tf') else mot_lines scan tf' st')"
  by pat_completeness auto
termination
  by (relation "measure (\<lambda>(scan, tf, st). length (unread tf))")
     (auto dest: fileio_fgets_shorter [OF sym])

declare mot_lines.simps [simp del]

lemma mot_lines_progress:
  "mot_lines scan tf st = Inr (st', tf') \<Longrightarrow>
   length (unread tf') < length (unread tf) \<or> (unread tf' = unread tf \<and> at_eof tf')"
proof (induction scan tf st rule: mot_lines.induct)
  case (1 scan tf st)
  obtain l tf1 where g: "fileio_fgets tf 1023 = (l, tf1)" by (cases "fileio_fgets tf 1023")
  show ?case
  proof (cases l)
    case None
    with g 1(3) have "tf' = tf1" by (subst (asm) mot_lines.simps) simp
    moreover from g None have "unread tf1 = unread tf \<and> at_eof tf1"
      using fileio_fgets_end [of tf 1023 tf1] by simp
    ultimately show ?thesis by simp
  next
    case (Some line)
    with g have short: "length (unread tf1) < length (unread tf)"
      using fileio_fgets_shorter by simp
    have "length (unread tf') \<le> length (unread tf1)"
    proof (cases "skipped_line line")
      case True
      with g Some 1(3) have "mot_lines scan tf1 st = Inr (st', tf')"
        by (subst (asm) mot_lines.simps) simp
      with 1(1) [OF g [symmetric] Some True] show ?thesis by auto
    next
      case False
      with g Some 1(3) obtain st1 leave where r: "mot_record scan line st = Inr (st1, leave)"
        and c: "(if leave then Inr (st1, tf1) else mot_lines scan tf1 st1) = Inr (st', tf')"
        by (subst (asm) mot_lines.simps) (auto split: sum.splits)
      show ?thesis
      proof (cases leave)
        case True
        with c show ?thesis by simp
      next
        case nl: False
        with c have "mot_lines scan tf1 st1 = Inr (st', tf')" by simp
        with 1(2) [OF g [symmetric] Some False r refl nl] show ?thesis by auto
      qed
    qed
    with short show ?thesis by simp
  qed
qed

lemma mot_lines_measure:
  "mot_lines scan tf st = Inr (st', tf') \<Longrightarrow> \<not> at_eof tf \<Longrightarrow>
   unread_measure tf' < unread_measure tf"
  by (drule mot_lines_progress) (auto simp: unread_measure_def)

function mot_passes :: "scanner \<Rightarrow> textio \<Rightarrow> parser \<Rightarrow> error + parser" where
  "mot_passes scan tf st =
     (if fileio_feof tf then Inr st
      else case begin_pass st of
             Inl e \<Rightarrow> Inl e
           | Inr st1 \<Rightarrow>
               (case mot_lines scan tf st1 of
                  Inl e \<Rightarrow> Inl e
                | Inr (st2, tf2) \<Rightarrow> mot_passes scan tf2 st2))"
  by pat_completeness auto
termination
  by (relation "measure (\<lambda>(scan, tf, st). unread_measure tf)")
     (auto simp: fileio_feof_def intro: mot_lines_measure)

declare mot_passes.simps [simp del]

definition image_mot_buffer_complete_inner ::
  "scanner \<Rightarrow> textio \<Rightarrow> image \<Rightarrow> imagesection list \<Rightarrow> error + image" where
  "image_mot_buffer_complete_inner scan tf img section_array0 =
     (case type_private img of
        PRIVATE_MOT buffer \<Rightarrow>
          (case fileio_size tf of
             Inl e \<Rightarrow> Inl e
           | Inr filesize \<Rightarrow>
               (case mot_passes scan tf
                       \<lparr>image_of = img\<lparr>num_sections := 0\<rparr>, section_array = section_array0,
                        cooked = [], full_address = 0, end_rec = False\<rparr> of
                  Inl e \<Rightarrow> Inl e
                | Inr st \<Rightarrow>
                    if end_rec st
                    then Inr ((image_of st)\<lparr>type_private := PRIVATE_MOT (Some (cooked st))\<rparr>)
                    else Inl ERROR_IMAGE_FORMAT_ERROR))
      | NULL \<Rightarrow> Inl UNDEFINED_NULL_DEREFERENCE
      | _ \<Rightarrow> Inl UNDEFINED_TYPE_MISMATCH)"

definition image_mot_buffer_complete :: "scanner \<Rightarrow> textio \<Rightarrow> image \<Rightarrow> error + image" where
  "image_mot_buffer_complete scan tf img =
     image_mot_buffer_complete_inner scan tf img fresh_section_array"

section \<open>Example images\<close>

text \<open>
  A little-endian ELF-32 file of 124 bytes: the header, two program headers at offset 52 and
  eight bytes of segment data. Both segments are \<open>PT_LOAD\<close> with \<open>p_paddr = 0\<close>,
  \<open>p_vaddr = 0x20000000\<close> and \<open>0x20001000\<close>, \<open>p_filesz = 4\<close>. The file source stands behind
  the 16 bytes of \<^verbatim>\<open>e_ident\<close>, where \<^verbatim>\<open>image_elf_read_headers\<close> leaves it.
\<close>

definition example_elf_bytes :: "u8 list" where
  "example_elf_bytes =
     [0x7F, 0x45, 0x4C, 0x46, 0x01, 0x01, 0x01, 0x00, 0, 0, 0, 0, 0, 0, 0, 0,
      0x02, 0x00, 0x28, 0x00, 0x01, 0, 0, 0, 0x00, 0x00, 0x00, 0x20, 0x34, 0, 0, 0,
      0, 0, 0, 0, 0, 0, 0, 0, 0x34, 0x00, 0x20, 0x00, 0x02, 0x00, 0x28, 0x00,
      0, 0, 0, 0,
      0x01, 0, 0, 0, 0x74, 0, 0, 0, 0x00, 0x00, 0x00, 0x20, 0, 0, 0, 0,
      0x04, 0, 0, 0, 0x04, 0, 0, 0, 0x05, 0, 0, 0, 0x04, 0, 0, 0,
      0x01, 0, 0, 0, 0x78, 0, 0, 0, 0x00, 0x10, 0x00, 0x20, 0, 0, 0, 0,
      0x04, 0, 0, 0, 0x08, 0, 0, 0, 0x06, 0, 0, 0, 0x04, 0, 0, 0,
      0xDE, 0xAD, 0xBE, 0xEF, 0xCA, 0xFE, 0xBA, 0xBE]"

definition example_elf_file :: fileio where
  "example_elf_file = \<lparr>contents = example_elf_bytes, position = 16, healthy = True\<rparr>"

definition example_elf_fresh :: image where
  "example_elf_fresh =
     \<lparr>type_img = IMAGE_ELF,
      type_private = PRIVATE_ELF \<lparr>is_64_bit = False, header = HEADER_NULL,
        segments = SEGMENTS_NULL, segment_count = 0, endianness = ELFDATA2LSB\<rparr>,
      num_sections = 0, sections = None, base_address_set = False, base_address_img = 0,
      start_address_set = False, start_address = 0\<rparr>"

definition example_elf_segments :: "Elf32_Phdr list" where
  "example_elf_segments =
     [\<lparr>p_type = 1, p_offset = 0x74, p_vaddr = 0x20000000, p_paddr = 0, p_filesz = 4,
       p_memsz = 4, p_flags = 5, p_align = 4\<rparr>,
      \<lparr>p_type = 1, p_offset = 0x78, p_vaddr = 0x20001000, p_paddr = 0, p_filesz = 4,
       p_memsz = 8, p_flags = 6, p_align = 4\<rparr>]"

definition example_elf_header :: Elf32_Ehdr where
  "example_elf_header =
     \<lparr>e_ident = [0x7F, 0x45, 0x4C, 0x46, 0x01, 0x01, 0x01, 0x00, 0, 0, 0, 0, 0, 0, 0, 0],
      e_type = 2, e_machine = 0x28, e_version = 1, e_entry = 0x20000000, e_phoff = 0x34,
      e_shoff = 0, e_flags = 0, e_ehsize = 0x34, e_phentsize = 0x20, e_phnum = 2,
      e_shentsize = 0x28, e_shnum = 0, e_shstrndx = 0\<rparr>"

definition example_elf :: image_elf where
  "example_elf =
     \<lparr>is_64_bit = False, header = HEADER32 example_elf_header,
      segments = SEGMENTS32 example_elf_segments, segment_count = 2,
      endianness = ELFDATA2LSB\<rparr>"

definition example_elf_sections :: "imagesection list" where
  "example_elf_sections =
     [\<lparr>base_address = 0x20000000, size_sec = 4, flags = 5, private_sec = PRIVATE_SEGMENT 0\<rparr>,
      \<lparr>base_address = 0x20001000, size_sec = 4, flags = 6, private_sec = PRIVATE_SEGMENT 1\<rparr>]"

definition example_elf_image :: image where
  "example_elf_image =
     \<lparr>type_img = IMAGE_ELF,
      type_private = PRIVATE_ELF example_elf,
      num_sections = 2,
      sections = Some example_elf_sections,
      base_address_set = False, base_address_img = 0,
      start_address_set = True, start_address = 0x20000000\<rparr>"

text \<open>A target whose memory holds at each address the low byte of the address.\<close>

definition example_target :: target where
  "example_target = \<lparr>memory = (\<lambda>a. ucast a), readable = (\<lambda>a. True)\<rparr>"

definition example_page :: "u8 list" where
  "example_page = map (\<lambda>i. memory example_target (of_nat i)) [0..<512]"

text \<open>A MEMORY image as \<^verbatim>\<open>image_open\<close> builds it, the cache not yet allocated.\<close>

definition example_memory_image :: image where
  "example_memory_image =
     \<lparr>type_img = IMAGE_MEMORY,
      type_private = PRIVATE_MEMORY \<lparr>cache = None, cache_address = 0\<rparr>,
      num_sections = 1,
      sections = Some [\<lparr>base_address = 0, size_sec = 0xffffffff, flags = 0,
                        private_sec = PRIVATE_UNSET\<rparr>],
      base_address_set = False, base_address_img = 0,
      start_address_set = False, start_address = 0\<rparr>"

definition example_memory_image_cached :: image where
  "example_memory_image_cached =
     example_memory_image
       \<lparr>type_private := PRIVATE_MEMORY \<lparr>cache = Some example_page, cache_address = 0\<rparr>\<rparr>"

text \<open>An IHEX image with two sections of four bytes, open and closed, and a BUILDER image
  without sections, as \<^verbatim>\<open>image_open\<close> builds it.\<close>

definition example_ihex_image :: image where
  "example_ihex_image =
     \<lparr>type_img = IMAGE_IHEX,
      type_private = PRIVATE_IHEX (Some [0xDE, 0xAD, 0xBE, 0xEF, 0xCA, 0xFE, 0xBA, 0xBE]),
      num_sections = 2,
      sections = Some
        [\<lparr>base_address = 0x08000000, size_sec = 4, flags = 0, private_sec = PRIVATE_BUFFER 0\<rparr>,
         \<lparr>base_address = 0x08000100, size_sec = 4, flags = 0, private_sec = PRIVATE_BUFFER 4\<rparr>],
      base_address_set = False, base_address_img = 0,
      start_address_set = False, start_address = 0\<rparr>"

definition example_ihex_closed :: image where
  "example_ihex_closed = example_ihex_image\<lparr>type_private := NULL, sections := None\<rparr>"

definition example_builder_image :: image where
  "example_builder_image =
     \<lparr>type_img = IMAGE_BUILDER, type_private = NULL, num_sections = 0, sections = None,
      base_address_set = False, base_address_img = 0,
      start_address_set = False, start_address = 0\<rparr>"

section \<open>Statements about the checksum\<close>

subsection \<open>The CRC of the specification\<close>

text \<open>
  The GDB CRC-32 in the words of the specification: polynomial \<open>0x04C11DB7\<close>, initial value
  \<open>0xFFFFFFFF\<close>, no final XOR, and for each byte of the span, in order, the update
  \<^verbatim>\<open>crc = (crc << 8) ^ table[((crc >> 24) ^ byte) & 0xFF]\<close>, where entry \<open>i\<close> of the table
  is \<open>i << 24\<close> after eight iterations of
  \<^verbatim>\<open>c = (c & 0x80000000) ? (c << 1) ^ poly : c << 1\<close>. No runs, no polls.
\<close>

definition gdb_crc32_table :: "nat \<Rightarrow> u32" where
  "gdb_crc32_table i =
     ((\<lambda>c. if c AND 0x80000000 \<noteq> 0 then push_bit 1 c XOR 0x04C11DB7 else push_bit 1 c) ^^ 8)
       (push_bit 24 (of_nat i))"

definition gdb_crc32 :: "u8 list \<Rightarrow> u32" where
  "gdb_crc32 bytes =
     foldl (\<lambda>crc byte. push_bit 8 crc XOR
                gdb_crc32_table (unat ((drop_bit 24 crc XOR ucast byte) AND 0xFF)))
       0xFFFFFFFF bytes"

text \<open>
  The bytes of the ASCII string \<^verbatim>\<open>123456789\<close>, and two hosts: one that always asks
  for a shutdown, and one that does from its second answer on.
\<close>

definition check_input :: "u8 list" where
  "check_input = [0x31, 0x32, 0x33, 0x34, 0x35, 0x36, 0x37, 0x38, 0x39]"

definition stopping_host :: host where
  "stopping_host = \<lparr>keep_alives = 0, polls = 0, pending = (\<lambda>k. True)\<rparr>"

definition late_host :: host where
  "late_host = \<lparr>keep_alives = 0, polls = 0, pending = (\<lambda>k. 0 < k)\<rparr>"

text \<open>
  The number of runs of at most 32768 bytes that a span of \<open>nbytes\<close> bytes is cut into;
  each run is followed by one poll of the shutdown flag.
\<close>

definition crc32_runs :: "u32 \<Rightarrow> nat" where
  "crc32_runs nbytes = (unat nbytes + 32767) div 32768"

subsection \<open>The table\<close>

lemma crc32_table_loop_funpow: "crc32_table_loop j c = (crc32_shift ^^ j) c"
  by (induction j arbitrary: c) (simp_all add: funpow_swap1)

lemma crc32_table_entry_gdb: "crc32_table_entry i = gdb_crc32_table i"
proof -
  have "crc32_shift =
      (\<lambda>c. if c AND 0x80000000 \<noteq> 0 then push_bit 1 c XOR 0x04C11DB7 else push_bit 1 c)"
    by (rule ext) (simp add: crc32_shift_def)
  then show ?thesis
    by (simp add: crc32_table_entry_def gdb_crc32_table_def crc32_table_loop_funpow)
qed

lemma crc32_table_loop_8:
  "crc32_table_loop 8 c =
     crc32_shift (crc32_shift (crc32_shift (crc32_shift
       (crc32_shift (crc32_shift (crc32_shift (crc32_shift c)))))))"
proof -
  have "(8::nat) = Suc (Suc (Suc (Suc (Suc (Suc (Suc (Suc 0)))))))" by simp
  then show ?thesis by (simp only: crc32_table_loop.simps)
qed

lemma crc32_table_nth: "i < 256 \<Longrightarrow> crc32_table ! i = crc32_table_entry i"
  unfolding crc32_table_def by (simp only: nth_map_upt add_0 minus_nat.diff_0)

lemma unat_and_255: "unat ((x :: u32) AND 255) < 256"
proof -
  have "x AND 255 \<le> 255" by (rule word_and_le1)
  then show ?thesis by (simp add: word_le_nat_alt)
qed

lemma crc32_update_entry:
  "crc32_update crc b =
     push_bit 8 crc XOR crc32_table_entry (unat ((drop_bit 24 crc XOR ucast b) AND 255))"
  by (simp only: crc32_update_def crc32_table_nth unat_and_255)

lemma foldl_crc32_update_gdb: "foldl crc32_update 0xFFFFFFFF bytes = gdb_crc32 bytes"
proof -
  have "crc32_update = (\<lambda>crc byte. push_bit 8 crc XOR
                gdb_crc32_table (unat ((drop_bit 24 crc XOR ucast byte) AND 0xFF)))"
    by (intro ext) (simp add: crc32_update_entry crc32_table_entry_gdb)
  then show ?thesis by (simp add: gdb_crc32_def)
qed

lemma crc32_check_value: "foldl crc32_update 0xFFFFFFFF check_input = 0x0376E6E7"
  by (simp add: check_input_def crc32_update_entry crc32_table_entry_def crc32_shift_def
      crc32_table_loop_8)

subsection \<open>The runs\<close>

lemma crc32_run_take:
  "unat run \<le> length buffer \<Longrightarrow> unat run < 2 ^ 31 \<Longrightarrow>
   crc32_run crc buffer run =
     Inr (foldl crc32_update crc (take (unat run) buffer), drop (unat run) buffer)"
proof (induction crc buffer run rule: crc32_run.induct)
  case (1 crc buffer run)
  show ?case
  proof (cases "run = 0")
    case True
    then show ?thesis by (subst crc32_run.simps) simp
  next
    case False
    then have pos: "0 < unat run" by (simp add: unat_gt_0)
    from 1(3) have min: "run \<noteq> 0x80000000" by auto
    with 1(2) pos obtain b buffer' where buf: "buffer = b # buffer'"
      by (cases buffer) auto
    from False have dec: "unat (run - 1) = unat run - 1" by (simp add: unat_minus_one)
    with 1(2,3) buf pos have "unat (run - 1) \<le> length buffer'" "unat (run - 1) < 2 ^ 31"
      by simp_all
    with 1(1) [OF False min buf] have
      "crc32_run (crc32_update crc b) buffer' (run - 1) =
         Inr (foldl crc32_update (crc32_update crc b) (take (unat (run - 1)) buffer'),
              drop (unat (run - 1)) buffer')" by simp
    moreover obtain n where n: "unat run = Suc n" using pos by (cases "unat run") auto
    ultimately show ?thesis using False min buf dec
      by (subst crc32_run.simps) simp
  qed
qed

lemma sint_unat_small: "unat (x :: u32) < 2 ^ 31 \<Longrightarrow> sint x = int (unat x)"
proof -
  assume "unat x < 2 ^ 31"
  then have "int (unat x) < int (2 ^ 31)" by (simp only: of_nat_less_iff)
  then have "uint x < 2 ^ 31" by (simp only: uint_nat of_nat_power of_nat_numeral)
  then have a: "uint x < 2147483648" by simp
  have "(0::int) \<le> uint x" by simp
  then have "- 2147483648 \<le> uint x" by linarith
  with a have "sint x = uint x"
    by (simp add: sint_uint signed_take_bit_int_eq_self)
  then show ?thesis by (simp only: uint_nat)
qed

lemma sint_unat_big: "2 ^ 31 \<le> unat (x :: u32) \<Longrightarrow> sint x < 0"
proof -
  assume "2 ^ 31 \<le> unat x"
  then have "int (2 ^ 31) \<le> int (unat x)" by (simp only: of_nat_le_iff)
  then have "2 ^ 31 \<le> uint x" by (simp only: uint_nat of_nat_power of_nat_numeral)
  then have a: "2147483648 \<le> uint x" by simp
  have b: "uint x < 4294967296" using uint_bounded [of x] by simp
  have "uint x = 2147483648 + (uint x - 2147483648)" by simp
  moreover have "(2147483648 + (uint x - 2147483648)) div 2147483648 =
      (uint x - 2147483648) div 2147483648 + 1"
    by (rule div_add_self1) simp
  moreover have "(uint x - 2147483648) div 2147483648 = 0"
    using a b by (intro div_pos_pos_trivial) simp_all
  ultimately have "uint x div 2147483648 = 1" by simp
  then have "bit (uint x) (31::nat)" by (simp add: bit_iff_odd)
  then have "bit x (31::nat)" by (simp add: bit_uint_iff)
  then show "sint x < 0" using bit_last_iff [of x] by simp
qed

lemma sless_32768_iff:
  assumes "unat nbytes < 2 ^ 31"
  shows "(32768::u32) <s nbytes \<longleftrightarrow> 32768 < unat nbytes"
proof -
  have s: "sint nbytes = int (unat nbytes)" by (rule sint_unat_small [OF assms])
  have "sint (32768::u32) = 32768" by simp
  then have "(32768 <s nbytes) = (32768 < sint nbytes)" by (simp only: word_sless_alt)
  also have "\<dots> = (32768 < int (unat nbytes))" by (simp only: s)
  also have "\<dots> = (32768 < unat nbytes)" by linarith
  finally show ?thesis .
qed

lemma unat_crc32_run_length:
  "unat nbytes < 2 ^ 31 \<Longrightarrow> unat (crc32_run_length nbytes) = min 32768 (unat nbytes)"
  by (simp add: crc32_run_length_def sless_32768_iff)

lemma crc32_runs_0: "crc32_runs 0 = 0"
  by (simp add: crc32_runs_def)

lemma crc32_runs_Suc:
  assumes "nbytes \<noteq> 0" and "unat nbytes < 2 ^ 31"
  shows "crc32_runs nbytes = Suc (crc32_runs (nbytes - crc32_run_length nbytes))"
proof -
  from assms(1) have pos: "0 < unat nbytes" by (simp add: unat_gt_0)
  have "unat (nbytes - crc32_run_length nbytes) = unat nbytes - min 32768 (unat nbytes)"
    by (simp only: unat_sub_crc32_run_length unat_crc32_run_length [OF assms(2)])
  with pos show ?thesis
    by (cases "unat nbytes \<le> 32768") (simp_all add: crc32_runs_def)
qed

lemma poll_after_run:
  "openocd_is_shutdown_pending (keep_alive h) =
     (pending h (polls h), h\<lparr>keep_alives := Suc (keep_alives h), polls := Suc (polls h)\<rparr>)"
  by (simp add: openocd_is_shutdown_pending_def keep_alive_def)

text \<open>
  The loop over the runs: the result is the fold over the span where none of the polls
  after the runs reports a shutdown, and \<open>ERROR_SERVER_INTERRUPTED\<close> where one does.
\<close>

lemma crc32_loop_polls:
  "unat nbytes \<le> length buffer \<Longrightarrow> unat nbytes < 2 ^ 31 \<Longrightarrow>
   fst (crc32_loop h crc buffer nbytes) =
     (if \<forall>k<crc32_runs nbytes. \<not> pending h (polls h + k)
      then Inr (foldl crc32_update crc (take (unat nbytes) buffer))
      else Inl ERROR_SERVER_INTERRUPTED)"
proof (induction h crc buffer nbytes rule: crc32_loop.induct)
  case (1 h crc buffer nbytes)
  show ?case
  proof (cases "nbytes = 0")
    case True
    then show ?thesis by (subst crc32_loop.simps) (simp add: crc32_runs_0)
  next
    case False
    define run where "run = crc32_run_length nbytes"
    define h' where "h' = h\<lparr>keep_alives := Suc (keep_alives h), polls := Suc (polls h)\<rparr>"
    define crc' where "crc' = foldl crc32_update crc (take (unat run) buffer)"
    have le: "unat run \<le> unat nbytes" by (simp add: run_def unat_crc32_run_length_le)
    with 1(2,3) have "unat run \<le> length buffer" "unat run < 2 ^ 31" by simp_all
    then have r: "crc32_run crc buffer run = Inr (crc', drop (unat run) buffer)"
      unfolding crc'_def by (rule crc32_run_take)
    have poll: "openocd_is_shutdown_pending (keep_alive h) = (pending h (polls h), h')"
      by (simp add: h'_def poll_after_run)
    have runs: "crc32_runs nbytes = Suc (crc32_runs (nbytes - run))"
      unfolding run_def using False 1(3) by (rule crc32_runs_Suc)
    have all: "(\<forall>k<crc32_runs nbytes. \<not> pending h (polls h + k)) \<longleftrightarrow>
        \<not> pending h (polls h) \<and> (\<forall>k<crc32_runs (nbytes - run). \<not> pending h' (polls h' + k))"
      by (simp add: runs All_less_Suc2 h'_def)
    show ?thesis
    proof (cases "pending h (polls h)")
      case True
      with all have "\<not> (\<forall>k<crc32_runs nbytes. \<not> pending h (polls h + k))" by simp
      moreover have "fst (crc32_loop h crc buffer nbytes) = Inl ERROR_SERVER_INTERRUPTED"
        using False r poll True
        by (subst crc32_loop.simps) (simp add: run_def [symmetric] Let_def)
      ultimately show ?thesis by simp
    next
      case quiet: False
      have sub: "unat (nbytes - run) = unat nbytes - unat run"
        by (simp add: run_def unat_sub_crc32_run_length)
      have "unat (nbytes - run) \<le> length (drop (unat run) buffer)"
        and "unat (nbytes - run) < 2 ^ 31"
        using 1(2,3) sub by simp_all
      with 1(1) [OF False run_def refl r refl refl poll [symmetric] quiet]
      have ih: "fst (crc32_loop h' crc' (drop (unat run) buffer) (nbytes - run)) =
          (if \<forall>k<crc32_runs (nbytes - run). \<not> pending h' (polls h' + k)
           then Inr (foldl crc32_update crc'
                  (take (unat (nbytes - run)) (drop (unat run) buffer)))
           else Inl ERROR_SERVER_INTERRUPTED)"
        by blast
      have "take (unat nbytes) buffer =
            take (unat run) buffer @ take (unat nbytes - unat run) (drop (unat run) buffer)"
        using le by (metis le_add_diff_inverse take_add)
      then have fold: "foldl crc32_update crc (take (unat nbytes) buffer) =
          foldl crc32_update crc' (take (unat (nbytes - run)) (drop (unat run) buffer))"
        by (simp add: sub crc'_def)
      have "fst (crc32_loop h crc buffer nbytes) =
          fst (crc32_loop h' crc' (drop (unat run) buffer) (nbytes - run))"
        using False r poll quiet
        by (subst crc32_loop.simps) (simp add: run_def [symmetric] Let_def)
      with ih fold all quiet show ?thesis by simp
    qed
  qed
qed

text \<open>Where no poll reports a shutdown, each run has left one keep-alive and one poll.\<close>

lemma crc32_loop_host:
  "unat nbytes \<le> length buffer \<Longrightarrow> unat nbytes < 2 ^ 31 \<Longrightarrow>
   \<forall>k<crc32_runs nbytes. \<not> pending h (polls h + k) \<Longrightarrow>
   snd (crc32_loop h crc buffer nbytes) =
     h\<lparr>keep_alives := keep_alives h + crc32_runs nbytes,
       polls := polls h + crc32_runs nbytes\<rparr>"
proof (induction h crc buffer nbytes rule: crc32_loop.induct)
  case (1 h crc buffer nbytes)
  show ?case
  proof (cases "nbytes = 0")
    case True
    then show ?thesis by (subst crc32_loop.simps) (simp add: crc32_runs_0)
  next
    case False
    define run where "run = crc32_run_length nbytes"
    define h' where "h' = h\<lparr>keep_alives := Suc (keep_alives h), polls := Suc (polls h)\<rparr>"
    define crc' where "crc' = foldl crc32_update crc (take (unat run) buffer)"
    have le: "unat run \<le> unat nbytes" by (simp add: run_def unat_crc32_run_length_le)
    with 1(2,3) have "unat run \<le> length buffer" "unat run < 2 ^ 31" by simp_all
    then have r: "crc32_run crc buffer run = Inr (crc', drop (unat run) buffer)"
      unfolding crc'_def by (rule crc32_run_take)
    have poll: "openocd_is_shutdown_pending (keep_alive h) = (pending h (polls h), h')"
      by (simp add: h'_def poll_after_run)
    have runs: "crc32_runs nbytes = Suc (crc32_runs (nbytes - run))"
      unfolding run_def using False 1(3) by (rule crc32_runs_Suc)
    from 1(4) have quiet: "\<not> pending h (polls h)"
      and rest: "\<forall>k<crc32_runs (nbytes - run). \<not> pending h' (polls h' + k)"
      by (simp_all add: runs All_less_Suc2 h'_def)
    have sub: "unat (nbytes - run) = unat nbytes - unat run"
      by (simp add: run_def unat_sub_crc32_run_length)
    have "unat (nbytes - run) \<le> length (drop (unat run) buffer)"
      and "unat (nbytes - run) < 2 ^ 31"
      using 1(2,3) sub by simp_all
    with 1(1) [OF False run_def refl r refl refl poll [symmetric] quiet] rest
    have ih: "snd (crc32_loop h' crc' (drop (unat run) buffer) (nbytes - run)) =
        h'\<lparr>keep_alives := keep_alives h' + crc32_runs (nbytes - run),
           polls := polls h' + crc32_runs (nbytes - run)\<rparr>"
      by blast
    have "snd (crc32_loop h crc buffer nbytes) =
        snd (crc32_loop h' crc' (drop (unat run) buffer) (nbytes - run))"
      using False r poll quiet
      by (subst crc32_loop.simps) (simp add: run_def [symmetric] Let_def)
    with ih show ?thesis by (simp add: runs h'_def)
  qed
qed

text \<open>
  A span of \<open>2^31\<close> bytes or more never gets a checksum: \<^verbatim>\<open>int run = nbytes\<close> is negative,
  the test \<^verbatim>\<open>run > 32768\<close> fails, and the run counts down from there until it leaves the
  buffer or reaches \<^verbatim>\<open>INT_MIN\<close>.
\<close>

lemma crc32_run_negative:
  "2 ^ 31 \<le> unat run \<Longrightarrow>
   crc32_run crc buffer run = Inl UNDEFINED_OUT_OF_BOUNDS
   \<or> crc32_run crc buffer run = Inl UNDEFINED_SIGNED_OVERFLOW"
proof (induction crc buffer run rule: crc32_run.induct)
  case (1 crc buffer run)
  from 1(2) have nz: "run \<noteq> 0" by auto
  show ?case
  proof (cases "run = 0x80000000")
    case True
    then show ?thesis by (subst (1 2) crc32_run.simps) simp
  next
    case False
    from nz have dec: "unat (run - 1) = unat run - 1" by (simp add: unat_minus_one)
    from False have "unat run \<noteq> 2 ^ 31" by (auto simp: word_unat_eq_iff)
    with 1(2) dec have big: "2 ^ 31 \<le> unat (run - 1)" by simp
    show ?thesis
    proof (cases buffer)
      case Nil
      with nz False show ?thesis by (subst (1 2) crc32_run.simps) simp
    next
      case (Cons b buffer')
      from 1(1) [OF nz False Cons big] nz False Cons show ?thesis
        by (subst (1 2) crc32_run.simps) simp
    qed
  qed
qed

lemma crc32_run_length_negative: "2 ^ 31 \<le> unat nbytes \<Longrightarrow> crc32_run_length nbytes = nbytes"
  by (drule sint_unat_big) (simp add: crc32_run_length_def word_sless_alt)

lemma image_calculate_checksum_huge:
  assumes "2 ^ 31 \<le> unat nbytes"
  shows "image_calculate_checksum h buffer nbytes = (Inl UNDEFINED_OUT_OF_BOUNDS, h)
       \<or> image_calculate_checksum h buffer nbytes = (Inl UNDEFINED_SIGNED_OVERFLOW, h)"
proof -
  from assms have nz: "nbytes \<noteq> 0" by auto
  from crc32_run_negative [OF assms, of "0xffffffff" buffer] nz show ?thesis
    by (subst (1 2) image_calculate_checksum_def, subst (1 2) crc32_loop.simps)
       (auto simp: crc32_run_length_negative [OF assms] Let_def)
qed

lemma crc32_run_length_9: "crc32_run_length 9 = 9"
  by (simp add: crc32_run_length_def word_sless_alt)

lemma crc32_runs_9: "crc32_runs 9 = 1"
  by (simp add: crc32_runs_def)

subsection \<open>The checksum of a span\<close>

text \<open>
  C5, as amended. For a span of fewer than \<open>2^31\<close> bytes that lies in the buffer,
  \<open>image_calculate_checksum\<close> works in runs of at most 32768 bytes and polls the shutdown
  flag once after each run. If none of these polls reports a pending shutdown, it returns
  success with the GDB CRC-32 (polynomial \<open>0x04C11DB7\<close>, initial value \<open>0xFFFFFFFF\<close>, no final
  XOR, MSB-first table update) of the span, having made exactly these polls; if one of them
  does, it returns \<open>ERROR_SERVER_INTERRUPTED\<close> and no checksum. On the nine bytes
  \<^verbatim>\<open>123456789\<close> there is one run and one poll: the call returns success with \<open>0x0376E6E7\<close>
  unless that poll reports a shutdown.
\<close>

theorem image_calculate_checksum_gdb_crc32:
  assumes "unat nbytes \<le> length buffer" and "unat nbytes < 2 ^ 31"
  shows "fst (image_calculate_checksum h buffer nbytes) =
           (if \<forall>k<crc32_runs nbytes. \<not> pending h (polls h + k)
            then Inr (gdb_crc32 (take (unat nbytes) buffer))
            else Inl ERROR_SERVER_INTERRUPTED)
         \<and> ((\<forall>k<crc32_runs nbytes. \<not> pending h (polls h + k)) \<longrightarrow>
              snd (image_calculate_checksum h buffer nbytes) =
                h\<lparr>keep_alives := keep_alives h + crc32_runs nbytes,
                  polls := polls h + crc32_runs nbytes\<rparr>)
         \<and> fst (image_calculate_checksum h check_input 9) =
             (if pending h (polls h) then Inl ERROR_SERVER_INTERRUPTED else Inr 0x0376E6E7)"
proof (intro conjI impI)
  show "fst (image_calculate_checksum h buffer nbytes) =
           (if \<forall>k<crc32_runs nbytes. \<not> pending h (polls h + k)
            then Inr (gdb_crc32 (take (unat nbytes) buffer))
            else Inl ERROR_SERVER_INTERRUPTED)"
    using assms
    by (simp add: image_calculate_checksum_def crc32_loop_polls foldl_crc32_update_gdb)
next
  assume "\<forall>k<crc32_runs nbytes. \<not> pending h (polls h + k)"
  with assms show "snd (image_calculate_checksum h buffer nbytes) =
      h\<lparr>keep_alives := keep_alives h + crc32_runs nbytes,
        polls := polls h + crc32_runs nbytes\<rparr>"
    by (simp add: image_calculate_checksum_def crc32_loop_host)
next
  have "unat (9 :: u32) \<le> length check_input" "unat (9 :: u32) < 2 ^ 31"
    by (simp_all add: check_input_def)
  then have "fst (image_calculate_checksum h check_input 9) =
      (if \<forall>k<crc32_runs 9. \<not> pending h (polls h + k)
       then Inr (foldl crc32_update 0xFFFFFFFF (take (unat (9 :: u32)) check_input))
       else Inl ERROR_SERVER_INTERRUPTED)"
    unfolding image_calculate_checksum_def by (rule crc32_loop_polls)
  moreover have "take (unat (9 :: u32)) check_input = check_input"
    by (simp add: check_input_def)
  ultimately show "fst (image_calculate_checksum h check_input 9) =
      (if pending h (polls h) then Inl ERROR_SERVER_INTERRUPTED else Inr 0x0376E6E7)"
    by (simp add: crc32_check_value crc32_runs_9)
qed

text \<open>
  On the nine bytes the host that reports a shutdown from its second answer on is asked
  once, and the call succeeds; the host that always reports one stops the call.
\<close>

theorem image_calculate_checksum_gdb_crc32_witness:
  "unat (9 :: u32) \<le> length (check_input @ [0]) \<and> unat (9 :: u32) < 2 ^ 31
   \<and> crc32_runs 9 = 1 \<and> \<not> pending late_host (polls late_host)
   \<and> pending late_host (polls late_host + 1)
   \<and> image_calculate_checksum late_host (check_input @ [0]) 9 =
       (Inr (gdb_crc32 check_input), late_host\<lparr>keep_alives := 1, polls := 1\<rparr>)
   \<and> fst (image_calculate_checksum late_host check_input 9) = Inr 0x0376E6E7
   \<and> fst (image_calculate_checksum stopping_host check_input 9) = Inl ERROR_SERVER_INTERRUPTED"
proof -
  have l: "unat (9 :: u32) \<le> length (check_input @ [0])" "unat (9 :: u32) < 2 ^ 31"
    by (simp_all add: check_input_def)
  have t: "take (unat (9 :: u32)) (check_input @ [0]) = check_input"
    by (simp add: check_input_def)
  have q: "\<not> pending late_host (polls late_host)" "pending late_host (polls late_host + 1)"
    "keep_alives late_host = 0" "polls late_host = 0"
    by (simp_all add: late_host_def)
  have s: "pending stopping_host (polls stopping_host)" by (simp add: stopping_host_def)
  from image_calculate_checksum_gdb_crc32 [OF l, of late_host] q t
  have "fst (image_calculate_checksum late_host (check_input @ [0]) 9) =
          Inr (gdb_crc32 check_input)"
    and "snd (image_calculate_checksum late_host (check_input @ [0]) 9) =
          late_host\<lparr>keep_alives := 1, polls := 1\<rparr>"
    and "fst (image_calculate_checksum late_host check_input 9) = Inr 0x0376E6E7"
    by (simp_all add: crc32_runs_9)
  moreover from image_calculate_checksum_gdb_crc32 [OF l, of stopping_host] s
  have "fst (image_calculate_checksum stopping_host check_input 9) =
          Inl ERROR_SERVER_INTERRUPTED"
    by simp
  ultimately show ?thesis using l q by (simp add: crc32_runs_9 prod_eq_iff)
qed

text \<open>
  C5 as stated fails where a shutdown is pending: after the single run over the nine bytes
  the poll answers yes, and the call returns \<open>ERROR_SERVER_INTERRUPTED\<close> and no checksum.
\<close>

theorem image_calculate_checksum_interrupted:
  "fst (image_calculate_checksum stopping_host check_input 9) = Inl ERROR_SERVER_INTERRUPTED"
proof -
  have "unat (9 :: u32) \<le> length check_input" "unat (9 :: u32) < 2 ^ 31"
    by (simp_all add: check_input_def)
  then have "crc32_run 0xffffffff check_input 9 =
      Inr (foldl crc32_update 0xffffffff (take (unat (9 :: u32)) check_input),
           drop (unat (9 :: u32)) check_input)"
    by (rule crc32_run_take)
  then show ?thesis
    by (subst image_calculate_checksum_def, subst crc32_loop.simps)
       (simp add: crc32_run_length_9 stopping_host_def openocd_is_shutdown_pending_def
          keep_alive_def)
qed

text \<open>
  C10. For a span of length 0 the loop body never runs: the call returns success with the
  initial value \<open>0xFFFFFFFF\<close> and leaves the host as it was, so no poll was made (the poll
  counter is the same) and \<open>ERROR_SERVER_INTERRUPTED\<close> is not returned, whatever the server
  would answer.
\<close>

theorem image_calculate_checksum_empty:
  "image_calculate_checksum h buffer 0 = (Inr 0xFFFFFFFF, h)
   \<and> polls (snd (image_calculate_checksum h buffer 0)) = polls h
   \<and> fst (image_calculate_checksum h buffer 0) \<noteq> Inl ERROR_SERVER_INTERRUPTED"
  by (subst (1 2 3) image_calculate_checksum_def, subst (1 2 3) crc32_loop.simps) simp


section \<open>Statements about the ELF-32 headers\<close>

text \<open>
  The rule of the specification for the base addresses: all program headers have
  \<open>p_paddr = 0\<close> (a field is zero exactly when its bytes are, so this is the test the code
  makes on the raw field), and more than one has \<open>p_type = PT_LOAD\<close> and \<open>p_memsz \<noteq> 0\<close>.
\<close>

definition elf32_in_memory :: "image_elf \<Rightarrow> Elf32_Phdr \<Rightarrow> bool" where
  "elf32_in_memory elf seg \<longleftrightarrow>
     field32 elf (p_type seg) = PT_LOAD \<and> field32 elf (p_memsz seg) \<noteq> 0"

definition elf32_uses_vaddr :: "image_elf \<Rightarrow> Elf32_Phdr list \<Rightarrow> bool" where
  "elf32_uses_vaddr elf segs \<longleftrightarrow>
     list_all (\<lambda>seg. p_paddr seg = 0) segs \<and> 1 < length (filter (elf32_in_memory elf) segs)"

lemma elf32_scan_paddr_all_zero:
  "fst (elf32_scan_paddr elf segs nload) = list_all (\<lambda>seg. p_paddr seg = 0) segs"
  by (induction segs arbitrary: nload) simp_all

lemma elf32_scan_paddr_nload:
  "list_all (\<lambda>seg. p_paddr seg = 0) segs \<Longrightarrow>
   snd (elf32_scan_paddr elf segs nload) = nload + length (filter (elf32_in_memory elf) segs)"
  by (induction segs arbitrary: nload) (simp_all add: elf32_in_memory_def)

lemma elf32_load_to_vaddr_iff: "elf32_load_to_vaddr elf segs = elf32_uses_vaddr elf segs"
  using elf32_scan_paddr_all_zero [of elf segs 0] elf32_scan_paddr_nload [of segs elf 0]
  by (auto simp: elf32_load_to_vaddr_def elf32_uses_vaddr_def split: prod.splits)

lemma elf32_fill_sections_private:
  "map private_sec (elf32_fill_sections elf use_vaddr segs i) =
     map (\<lambda>(k, seg). PRIVATE_SEGMENT k)
       (filter (\<lambda>(k, seg). elf32_loadable elf seg) (enumerate i segs))"
  by (induction segs arbitrary: i) simp_all

lemma elf32_fill_sections_base_address:
  "map base_address (elf32_fill_sections elf use_vaddr segs i) =
     map (\<lambda>seg. ucast (field32 elf (if use_vaddr then p_vaddr seg else p_paddr seg)))
       (filter (elf32_loadable elf) segs)"
  by (induction segs arbitrary: i) simp_all

lemma Elf32_Phdrs_of_2:
  "Elf32_Phdrs_of 2 bytes = [Elf32_Phdr_of (take 32 bytes), Elf32_Phdr_of (take 32 (drop 32 bytes))]"
proof -
  have "(2::nat) = Suc (Suc 0)" by simp
  then show ?thesis by (simp only: Elf32_Phdrs_of.simps)
qed

lemma example_elf_read_headers:
  "image_elf32_read_headers example_elf_file example_elf_fresh =
     Inr (example_elf_file\<lparr>position := 116\<rparr>, example_elf_image)"
  by (simp add: image_elf32_read_headers_def example_elf_file_def example_elf_fresh_def
      example_elf_image_def example_elf_def example_elf_header_def example_elf_segments_def
      example_elf_sections_def
      example_elf_bytes_def fileio_seek_def fileio_read_def Let_def
      Elf32_Ehdr_of_def Elf32_Phdr_of_def Elf32_Phdrs_of_2 field16_def field32_def
      le_to_h_u16_def le_to_h_u32_def ELFDATA2LSB_def PT_LOAD_def
      elf32_loadable_def elf32_load_to_vaddr_def)

text \<open>
  C4. Whenever \<open>image_elf32_read_headers\<close> succeeds, the sections of the image are the
  program headers with \<open>p_type = PT_LOAD\<close> and \<open>p_filesz \<noteq> 0\<close>, in their order, each
  pointing to its program header; and the base address of each is the \<open>p_vaddr\<close> of its
  program header if every program header has \<open>p_paddr = 0\<close> and more than one has
  \<open>p_type = PT_LOAD\<close> and \<open>p_memsz \<noteq> 0\<close>, and its \<open>p_paddr\<close> in every other image.
\<close>

theorem image_elf32_read_headers_base_address:
  assumes "image_elf32_read_headers f img = Inr (f', img')"
  shows "\<exists>elf segs secs.
           type_private img' = PRIVATE_ELF elf \<and> segments elf = SEGMENTS32 segs
           \<and> sections img' = Some secs
           \<and> map private_sec secs =
               map (\<lambda>(i, seg). PRIVATE_SEGMENT i)
                 (filter (\<lambda>(i, seg). elf32_loadable elf seg) (enumerate 0 segs))
           \<and> map base_address secs =
               map (\<lambda>seg. ucast (field32 elf
                      (if elf32_uses_vaddr elf segs then p_vaddr seg else p_paddr seg)))
                 (filter (elf32_loadable elf) segs)"
  using assms
  by (auto simp: image_elf32_read_headers_def Let_def elf32_load_to_vaddr_iff
      elf32_fill_sections_private elf32_fill_sections_base_address
      split: type_private.splits sum.splits prod.splits if_splits)

theorem image_elf32_read_headers_base_address_witness:
  "image_elf32_read_headers example_elf_file example_elf_fresh =
     Inr (example_elf_file\<lparr>position := 116\<rparr>, example_elf_image)
   \<and> elf32_uses_vaddr example_elf example_elf_segments
   \<and> map base_address example_elf_sections = [0x20000000, 0x20001000]
   \<and> (\<exists>elf segs secs.
           type_private example_elf_image = PRIVATE_ELF elf \<and> segments elf = SEGMENTS32 segs
           \<and> sections example_elf_image = Some secs
           \<and> map private_sec secs =
               map (\<lambda>(i, seg). PRIVATE_SEGMENT i)
                 (filter (\<lambda>(i, seg). elf32_loadable elf seg) (enumerate 0 segs))
           \<and> map base_address secs =
               map (\<lambda>seg. ucast (field32 elf
                      (if elf32_uses_vaddr elf segs then p_vaddr seg else p_paddr seg)))
                 (filter (elf32_loadable elf) segs))"
proof -
  have "elf32_uses_vaddr example_elf example_elf_segments"
    by (simp add: elf32_uses_vaddr_def elf32_in_memory_def example_elf_def
        example_elf_segments_def field32_def le_to_h_u32_def ELFDATA2LSB_def PT_LOAD_def)
  moreover have "map base_address example_elf_sections = [0x20000000, 0x20001000]"
    by (simp add: example_elf_sections_def)
  ultimately show ?thesis
    using image_elf32_read_headers_base_address [OF example_elf_read_headers]
      example_elf_read_headers
    by simp
qed

section \<open>Statements about reading a section\<close>

text \<open>
  The file offset and the file size of the program header \<open>n\<close> of an ELF image, in host
  order and widened to 64 bits, for the class of the image.
\<close>

definition elf_segment_extent :: "image_elf \<Rightarrow> nat \<Rightarrow> (u64 \<times> u64) option" where
  "elf_segment_extent elf n =
     (case segments elf of
        SEGMENTS_NULL \<Rightarrow> None
      | SEGMENTS32 segs \<Rightarrow>
          if \<not> is_64_bit elf \<and> n < length segs
          then Some (ucast (field32 elf (p_offset (segs ! n))),
                     ucast (field32 elf (p_filesz (segs ! n))))
          else None
      | SEGMENTS64 segs \<Rightarrow>
          if is_64_bit elf \<and> n < length segs
          then Some (field64 elf (p_offset64 (segs ! n)), field64 elf (p_filesz64 (segs ! n)))
          else None)"

text \<open>The \<open>n\<close> bytes of the file from position \<open>pos\<close> on, as far as the file has them.\<close>

definition file_range :: "fileio \<Rightarrow> nat \<Rightarrow> nat \<Rightarrow> u8 list" where
  "file_range f pos n = take n (drop pos (contents f))"

lemma image_elf_read_section_extent:
  assumes "type_private img = PRIVATE_ELF elf"
    and "private_sec sec = PRIVATE_SEGMENT n"
    and "elf_segment_extent elf n = Some (p_offset_h, p_filesz_h)"
    and "healthy f"
  shows "image_elf_read_section f img sec offset sz =
     (if offset < p_filesz_h
      then let read_size = min (ucast sz) (p_filesz_h - offset);
               bytes = file_range f (unat (p_offset_h + offset)) (unat read_size)
           in (Inr (bytes, read_size),
               f\<lparr>position := unat (p_offset_h + offset) + length bytes\<rparr>)
      else (Inr ([], 0), f))"
  using assms
  by (auto simp: image_elf_read_section_def elf_segment_extent_def image_elf32_read_section_def
      image_elf64_read_section_def fileio_seek_def fileio_read_def file_range_def Let_def
      split: elf_segments.splits if_splits)

lemma example_elf_extent_0: "elf_segment_extent example_elf 0 = Some (0x74, 4)"
  by (simp add: elf_segment_extent_def example_elf_def example_elf_segments_def field32_def
      le_to_h_u32_def ELFDATA2LSB_def)

lemma example_elf_extent_1: "elf_segment_extent example_elf 1 = Some (0x78, 4)"
  by (simp add: elf_segment_extent_def example_elf_def example_elf_segments_def field32_def
      le_to_h_u32_def ELFDATA2LSB_def)

text \<open>
  C6, as amended. An ELF section read that fails the range check of \<open>image_read_section\<close>
  (\<open>offset + size > sections[i].size\<close>, computed in 64 bits) returns
  \<open>ERROR_COMMAND_SYNTAX_ERROR\<close>. A read that passes it, on a healthy file, seeks to
  \<open>p_offset + offset\<close> of the backing segment and reads \<open>min(size, p_filesz - offset)\<close> bytes
  there when \<open>offset < p_filesz\<close>, with \<open>size_read\<close> that minimum; when \<open>offset\<close> is at or
  beyond \<open>p_filesz\<close> it returns success with \<open>size_read = 0\<close> and leaves the file alone.
\<close>

theorem image_read_section_elf:
  assumes "type_img img = IMAGE_ELF"
    and "type_private img = PRIVATE_ELF elf"
    and "sections img = Some secs"
    and "0 \<le> section" and "nat section < length secs"
    and "private_sec (secs ! nat section) = PRIVATE_SEGMENT n"
    and "elf_segment_extent elf n = Some (p_offset_h, p_filesz_h)"
    and "healthy f"
  shows "image_read_section fuel t f img section offset sz =
     Some (if ucast (size_sec (secs ! nat section)) < offset + ucast sz
           then (Inl ERROR_COMMAND_SYNTAX_ERROR, f, img)
           else if offset < p_filesz_h
           then let read_size = min (ucast sz) (p_filesz_h - offset);
                    bytes = file_range f (unat (p_offset_h + offset)) (unat read_size)
                in (Inr (bytes, read_size),
                    f\<lparr>position := unat (p_offset_h + offset) + length bytes\<rparr>, img)
           else (Inr ([], 0), f, img))"
proof -
  from assms(4,5) have idx: "\<not> (section < 0 \<or> int (length secs) \<le> section)" by linarith
  show ?thesis
    using assms(1,3) idx
    by (simp add: image_read_section_def Let_def
        image_elf_read_section_extent [OF assms(2) assms(6) assms(7) assms(8)])
qed

lemma example_elf_image_facts:
  "type_img example_elf_image = IMAGE_ELF"
  "type_private example_elf_image = PRIVATE_ELF example_elf"
  "sections example_elf_image = Some example_elf_sections"
  "healthy example_elf_file"
  "length example_elf_sections = 2"
  "example_elf_sections ! 0 =
     \<lparr>base_address = 0x20000000, size_sec = 4, flags = 5, private_sec = PRIVATE_SEGMENT 0\<rparr>"
  "example_elf_sections ! Suc 0 =
     \<lparr>base_address = 0x20001000, size_sec = 4, flags = 6, private_sec = PRIVATE_SEGMENT 1\<rparr>"
  by (simp_all add: example_elf_image_def example_elf_file_def example_elf_sections_def)

lemma example_elf_read_first:
  "image_elf_read_section example_elf_file example_elf_image (example_elf_sections ! 0)
     offset sz =
     (if offset < 4
      then let read_size = min (ucast sz) (4 - offset);
               bytes = file_range example_elf_file (unat (0x74 + offset)) (unat read_size)
           in (Inr (bytes, read_size),
               example_elf_file\<lparr>position := unat (0x74 + offset) + length bytes\<rparr>)
      else (Inr ([], 0), example_elf_file))"
proof -
  have p: "private_sec (example_elf_sections ! 0) = PRIVATE_SEGMENT 0"
    by (simp add: example_elf_image_facts)
  show ?thesis
    by (rule image_elf_read_section_extent [OF example_elf_image_facts(2) p
          example_elf_extent_0 example_elf_image_facts(4)])
qed

lemma example_elf_file_range: "file_range example_elf_file 121 2 = [0xFE, 0xBA]"
  by (simp add: file_range_def example_elf_file_def example_elf_bytes_def)

theorem image_read_section_elf_witness:
  "type_img example_elf_image = IMAGE_ELF
   \<and> type_private example_elf_image = PRIVATE_ELF example_elf
   \<and> sections example_elf_image = Some example_elf_sections
   \<and> (0::int) \<le> 1 \<and> nat 1 < length example_elf_sections
   \<and> private_sec (example_elf_sections ! nat 1) = PRIVATE_SEGMENT 1
   \<and> elf_segment_extent example_elf 1 = Some (0x78, 4)
   \<and> healthy example_elf_file
   \<and> image_read_section 0 example_target example_elf_file example_elf_image 1 1 2 =
       Some (Inr ([0xFE, 0xBA], 2), example_elf_file\<lparr>position := 123\<rparr>, example_elf_image)
   \<and> image_read_section 0 example_target example_elf_file example_elf_image 1 4 0 =
       Some (Inr ([], 0), example_elf_file, example_elf_image)
   \<and> image_read_section 0 example_target example_elf_file example_elf_image 1 3 2 =
       Some (Inl ERROR_COMMAND_SYNTAX_ERROR, example_elf_file, example_elf_image)"
proof -
  have p: "private_sec (example_elf_sections ! nat 1) = PRIVATE_SEGMENT 1"
    and l: "nat 1 < length example_elf_sections"
    by (simp_all add: example_elf_image_facts)
  note rd = image_read_section_elf [OF example_elf_image_facts(1,2,3) _ l p
      example_elf_extent_1 example_elf_image_facts(4), of 0 example_target]
  have "image_read_section 0 example_target example_elf_file example_elf_image 1 1 2 =
       Some (Inr ([0xFE, 0xBA], 2), example_elf_file\<lparr>position := 123\<rparr>, example_elf_image)"
    using rd [of 1 2] by (simp add: example_elf_image_facts example_elf_file_range Let_def)
  moreover have "image_read_section 0 example_target example_elf_file example_elf_image 1 4 0 =
       Some (Inr ([], 0), example_elf_file, example_elf_image)"
    using rd [of 4 0] by (simp add: example_elf_image_facts)
  moreover have "image_read_section 0 example_target example_elf_file example_elf_image 1 3 2 =
       Some (Inl ERROR_COMMAND_SYNTAX_ERROR, example_elf_file, example_elf_image)"
    using rd [of 3 2] by (simp add: example_elf_image_facts)
  ultimately show ?thesis
    using p l example_elf_extent_1 by (simp add: example_elf_image_facts)
qed

text \<open>
  C6 as stated fails: a read of one byte at \<open>offset = p_filesz = 4\<close> of the first section
  is at the end of the segment's file data, and \<open>image_read_section\<close> does not return success
  with \<open>size_read = 0\<close> but \<open>ERROR_COMMAND_SYNTAX_ERROR\<close>, from its range check.
\<close>

theorem image_read_section_elf_at_filesz:
  "image_read_section 0 example_target example_elf_file example_elf_image 0 4 1 =
     Some (Inl ERROR_COMMAND_SYNTAX_ERROR, example_elf_file, example_elf_image)"
  by (simp add: image_read_section_def Let_def example_elf_image_facts(1,3,5))
     (simp add: example_elf_image_facts(6))

text \<open>
  C7. The range check adds \<open>offset\<close> and \<open>size\<close> in 64 bits. Where the sum does not wrap, a
  read past the end of the section fails with \<open>ERROR_COMMAND_SYNTAX_ERROR\<close>, as does a read
  of a section other than the first of a BINARY image that has one.
\<close>

lemma unat_ucast_32_64: "unat (ucast (w :: u32) :: u64) = unat w"
proof -
  have "unat w < 2 ^ 32" using unsigned_less [of w] by simp
  then have "unat w < 2 ^ 64" by simp
  then show ?thesis by (simp add: unsigned_ucast_eq take_bit_nat_eq_self)
qed

lemma image_read_section_past_end:
  assumes "sections img = Some secs"
    and "0 \<le> section" and "nat section < length secs"
    and "unat (size_sec (secs ! nat section)) < unat offset + unat sz"
    and "unat offset + unat sz < 2 ^ 64"
  shows "image_read_section fuel t f img section offset sz =
     Some (Inl ERROR_COMMAND_SYNTAX_ERROR, f, img)"
proof -
  from assms(2,3) have idx: "\<not> (section < 0 \<or> int (length secs) \<le> section)" by linarith
  have "unat (offset + ucast sz) = unat offset + unat sz"
    using assms(5) unat_add_lem [of offset "ucast sz"] by (simp add: unat_ucast_32_64)
  then have "ucast (size_sec (secs ! nat section)) < offset + ucast sz"
    using assms(4) by (simp add: word_less_nat_alt unat_ucast_32_64)
  then show ?thesis
    using assms(1) idx by (simp add: image_read_section_def Let_def)
qed

lemma image_read_section_binary_other:
  assumes "type_img img = IMAGE_BINARY" and "sections img = Some secs"
    and "0 < section" and "nat section < length secs"
  shows "image_read_section fuel t f img section offset sz =
     Some (Inl ERROR_COMMAND_SYNTAX_ERROR, f, img)"
proof -
  from assms(3,4) have idx: "\<not> (section < 0 \<or> int (length secs) \<le> section)" by linarith
  show ?thesis
    using assms idx by (simp add: image_read_section_def Let_def)
qed

text \<open>
  C7 fails where the sum wraps. With \<open>offset = 2^64 - 1\<close> and \<open>size = 1\<close> the sum is 0, the
  check passes although the read lies past the four bytes of the section, and the call on
  the ELF image returns success with \<open>size_read = 0\<close>, not \<open>ERROR_COMMAND_SYNTAX_ERROR\<close>.
\<close>

theorem image_read_section_offset_wraps:
  "unat (size_sec (example_elf_sections ! 0)) <
     unat (0xFFFFFFFFFFFFFFFF :: u64) + unat (1 :: u32)
   \<and> image_read_section 0 example_target example_elf_file example_elf_image 0
       0xFFFFFFFFFFFFFFFF 1 =
       Some (Inr ([], 0), example_elf_file, example_elf_image)"
  by (simp add: image_read_section_def Let_def example_elf_image_facts(1,3,5)
        example_elf_read_first)
     (simp add: example_elf_image_facts(6))

text \<open>
  The MEMORY loop touches nothing but the private data it is given; on the other branches
  the image comes back as it went in.
\<close>

lemma example_target_read_page:
  "target_read_buffer example_target 0 512 = Some example_page"
  by (simp add: target_read_buffer_def example_page_def example_target_def del: upt.simps)

lemma example_page_first: "take (Suc 0) example_page = [0]"
proof -
  have "take (Suc 0) [0..<512] = [0]" by (simp add: take_upt)
  then show ?thesis
    by (simp add: example_page_def take_map example_target_def del: upt.simps)
qed

lemma example_memory_read_first:
  "image_memory_read (Suc (Suc 0)) example_target \<lparr>cache = None, cache_address = 0\<rparr>
          0 1 [] 0 =
   image_memory_read (Suc 0) example_target \<lparr>cache = Some example_page, cache_address = 0\<rparr>
          1 1 [0] 1"
  apply (subst image_memory_read.simps(2))
  apply (simp only: Let_def IMAGE_MEMORY_CACHE_SIZE_def)
  apply (simp add: example_target_read_page example_page_first del: image_memory_read.simps)
  done

lemma example_memory_read_second:
  "image_memory_read (Suc 0) example_target \<lparr>cache = Some example_page, cache_address = 0\<rparr>
          1 1 [0] 1 =
   Some (Inr ([0], 1), \<lparr>cache = Some example_page, cache_address = 0\<rparr>)"
  by simp

lemma example_memory_read:
  "image_read_section 2 example_target example_elf_file example_memory_image 0 0 1 =
     Some (Inr ([0], 1), example_elf_file, example_memory_image_cached)"
proof -
  have two: "(2::nat) = Suc (Suc 0)" by simp
  show ?thesis
    unfolding image_read_section_def two
    by (simp add: example_memory_image_def example_memory_image_cached_def
        example_memory_read_first example_memory_read_second del: image_memory_read.simps)
qed

text \<open>
  C8, as amended. A call of \<open>image_read_section\<close> that returns leaves the image as it was,
  but for a MEMORY image, where of all the fields only \<open>type_private\<close> (the page cache and
  its address) may have changed. The position of the backing file, which belongs to the
  file source, moves with BINARY and ELF reads.
\<close>

theorem image_read_section_frame:
  assumes "image_read_section fuel t f img section offset sz = Some (r, f', img')"
  shows "img' = (if type_img img = IMAGE_MEMORY then img\<lparr>type_private := type_private img'\<rparr>
                 else img)"
proof (cases "sections img")
  case None
  with assms show ?thesis by (simp add: image_read_section_def)
next
  case (Some secs)
  show ?thesis
  proof (cases "section < 0 \<or> int (length secs) \<le> section")
    case True
    with assms Some show ?thesis by (simp add: image_read_section_def)
  next
    case idx: False
    show ?thesis
    proof (cases "ucast (size_sec (secs ! nat section)) < offset + ucast sz")
      case True
      with assms Some idx show ?thesis by (simp add: image_read_section_def)
    next
      case chk: False
      show ?thesis
      proof (cases "type_img img")
        case IMAGE_MEMORY
        with assms Some idx chk show ?thesis
          by (auto simp: image_read_section_def
              split: type_private.splits option.splits if_splits)
      qed (use assms Some idx chk in
            \<open>auto simp: image_read_section_def split: prod.splits if_splits\<close>)
    qed
  qed
qed

theorem image_read_section_frame_witness:
  "image_read_section 2 example_target example_elf_file example_memory_image 0 0 1 =
     Some (Inr ([0], 1), example_elf_file, example_memory_image_cached)
   \<and> type_img example_memory_image = IMAGE_MEMORY
   \<and> example_memory_image_cached =
       example_memory_image\<lparr>type_private := type_private example_memory_image_cached\<rparr>"
  using image_read_section_frame [OF example_memory_read] example_memory_read
  by (simp add: example_memory_image_def)

text \<open>
  C8 as stated fails on a MEMORY image: the first read of one byte allocates the page cache
  and fills it from the target, so the private state after the call is not the one before.
\<close>

theorem image_read_section_fills_cache:
  "image_read_section 2 example_target example_elf_file example_memory_image 0 0 1 =
     Some (Inr ([0], 1), example_elf_file, example_memory_image_cached)
   \<and> type_private example_memory_image = PRIVATE_MEMORY \<lparr>cache = None, cache_address = 0\<rparr>
   \<and> type_private example_memory_image_cached =
       PRIVATE_MEMORY \<lparr>cache = Some example_page, cache_address = 0\<rparr>
   \<and> example_memory_image_cached \<noteq> example_memory_image"
proof -
  have "type_private example_memory_image_cached \<noteq> type_private example_memory_image"
    by (simp add: example_memory_image_cached_def example_memory_image_def)
  then have "example_memory_image_cached \<noteq> example_memory_image" by auto
  then show ?thesis
    by (simp add: example_memory_read)
       (simp add: example_memory_image_cached_def example_memory_image_def)
qed

section \<open>Statements about closing\<close>

lemma image_close_private_closed:
  "image_close_private (img\<lparr>type_private := NULL, sections := None\<rparr>) =
     (if type_img img = IMAGE_BUILDER \<and> num_sections img = 0 then Inr ()
      else Inl UNDEFINED_NULL_DEREFERENCE)"
  by (cases "type_img img") (simp_all add: image_close_private_def)

text \<open>
  C9, as amended. A close that returns has reset \<open>type_private\<close> and \<open>sections\<close> to
  \<open>NULL\<close>. A second close of that image is defined, and then leaves the image unchanged,
  only for a BUILDER image with \<open>num_sections = 0\<close>; for every other image it dereferences
  the null \<open>type_private\<close>, or for a BUILDER image the null \<open>sections\<close>.
\<close>

theorem image_close_twice:
  assumes "image_close img = Inr img'"
  shows "type_private img' = NULL \<and> sections img' = None
         \<and> image_close img' =
             (if type_img img = IMAGE_BUILDER \<and> num_sections img = 0 then Inr img'
              else Inl UNDEFINED_NULL_DEREFERENCE)"
proof -
  from assms have img': "img' = img\<lparr>type_private := NULL, sections := None\<rparr>"
    by (simp add: image_close_def split: sum.splits)
  show ?thesis
    unfolding img' by (simp add: image_close_def image_close_private_closed)
qed

lemma example_builder_close: "image_close example_builder_image = Inr example_builder_image"
  by (simp add: image_close_def image_close_private_def example_builder_image_def)

theorem image_close_twice_witness:
  "image_close example_builder_image = Inr example_builder_image
   \<and> type_private example_builder_image = NULL \<and> sections example_builder_image = None
   \<and> type_img example_builder_image = IMAGE_BUILDER \<and> num_sections example_builder_image = 0"
  using image_close_twice [OF example_builder_close] example_builder_close
  by (simp add: example_builder_image_def)

text \<open>
  C9 as stated fails: the close of an open IHEX image returns, and the close of the closed
  image is no no-op, it reads \<^verbatim>\<open>image_ihex->fileio\<close> through the null \<open>type_private\<close>.
\<close>

theorem image_close_closed_ihex:
  "image_close example_ihex_image = Inr example_ihex_closed
   \<and> image_close example_ihex_closed = Inl UNDEFINED_NULL_DEREFERENCE"
  by (simp add: image_close_def image_close_private_def example_ihex_closed_def
      example_ihex_image_def)

section \<open>Evaluating the parsers\<close>

definition nl :: string where
  "nl = [CHR 0x0A]"

lemma hex_values:
  "hex_value CHR ''0'' = Some 0" "hex_value CHR ''1'' = Some 1" "hex_value CHR ''2'' = Some 2"
  "hex_value CHR ''3'' = Some 3" "hex_value CHR ''4'' = Some 4" "hex_value CHR ''5'' = Some 5"
  "hex_value CHR ''6'' = Some 6" "hex_value CHR ''7'' = Some 7" "hex_value CHR ''8'' = Some 8"
  "hex_value CHR ''9'' = Some 9" "hex_value CHR ''A'' = Some 10" "hex_value CHR ''B'' = Some 11"
  "hex_value CHR ''C'' = Some 12" "hex_value CHR ''D'' = Some 13" "hex_value CHR ''E'' = Some 14"
  "hex_value CHR ''F'' = Some 15" "hex_value (CHR 0x0A) = None"
  by (simp_all add: hex_value_def)

lemma take_line_Cons:
  "take_line (numeral k) (c # s) = (if c = CHR 0x0A then [c] else c # take_line (pred_numeral k) s)"
  by (simp add: numeral_eq_Suc)

lemma scan_digits_Cons:
  "scan_digits (numeral k) (c # s) acc =
     (case hex_value c of None \<Rightarrow> (acc, c # s)
      | Some d \<Rightarrow> scan_digits (pred_numeral k) s (push_bit 4 acc OR d))"
  by (simp add: numeral_eq_Suc)

lemma scan_digits_Cons1:
  "scan_digits 1 (c # s) acc =
     (case hex_value c of None \<Rightarrow> (acc, c # s)
      | Some d \<Rightarrow> (push_bit 4 acc OR d, s))"
  by (simp split: option.splits)

lemmas scan_eval = sscanf_hex_def scan_digits_Cons scan_digits_Cons1 hex_values scan_at_def
  word_le_nat_alt word_less_nat_alt

lemmas store_eval = current_store_def section_store_def current_size_def next_section_def

lemmas ihex_eval = ihex_record_def ihex_scan_header_def ihex_record_body_def
  ihex_new_address_def finish_sections_def data_loop.simps skip_loop.simps begin_pass_def

lemmas mot_eval = mot_record_def mot_scan_header_def mot_record_body_def mot_new_address_def
  mot_address_digits_def mot_address_sum_def finish_sections_def data_loop.simps
  skip_loop.simps begin_pass_def

lemma take_line_append:
  "line \<noteq> [] \<Longrightarrow> CHR 0x0A \<notin> set (butlast line) \<Longrightarrow> last line = CHR 0x0A \<Longrightarrow>
   length line \<le> k \<Longrightarrow> take_line k (line @ rest) = line"
proof (induction line arbitrary: k)
  case Nil
  then show ?case by simp
next
  case (Cons c line')
  from Cons.prems(4) obtain k' where k: "k = Suc k'" by (cases k) auto
  show ?case
  proof (cases "line' = []")
    case True
    with Cons.prems k show ?thesis by simp
  next
    case False
    with Cons.prems k have "take_line k' (line' @ rest) = line'"
      by (intro Cons.IH) auto
    moreover from False Cons.prems(2) have "c \<noteq> CHR 0x0A" by auto
    ultimately show ?thesis using k by simp
  qed
qed

lemma fileio_fgets_line:
  assumes "line \<noteq> []" and "CHR 0x0A \<notin> set (butlast line)" and "last line = CHR 0x0A"
    and "length line < 1023"
  shows "fileio_fgets \<lparr>unread = line @ rest, at_eof = e, size_reply = z\<rparr> 1023 =
           (Some line, \<lparr>unread = rest, at_eof = False, size_reply = z\<rparr>)"
proof -
  from assms have "take_line (1023 - 1) (line @ rest) = line"
    by (intro take_line_append) simp_all
  with assms show ?thesis by (simp add: fileio_fgets_def Let_def)
qed

section \<open>Statements about the section limit\<close>

text \<open>
  An S1 record and an IHEX data record that hold one byte for address 0. Behind a record
  that left \<^verbatim>\<open>full_address\<close> at 1, each of them starts a new section.
\<close>

definition mot_one_byte :: string where
  "mot_one_byte = ''S104000000FB'' @ nl"

definition ihex_one_byte :: string where
  "ihex_one_byte = '':0100000000FF'' @ nl"

definition mot_end :: string where
  "mot_end = ''S9030000FC'' @ nl"

definition ihex_end :: string where
  "ihex_end = '':00000001FF'' @ nl"

text \<open>The parser is filling section \<open>n\<close>, which is not empty, and stands at address 1.\<close>

definition filling :: "nat \<Rightarrow> parser \<Rightarrow> bool" where
  "filling n st \<longleftrightarrow>
     num_sections (image_of st) = n \<and> length (section_array st) = IMAGE_MAX_SECTIONS
     \<and> size_sec (section_array st ! n) \<noteq> 0 \<and> full_address st = 1"

lemma one_plus_one_u32: "(0 :: u32) + 1 \<noteq> 0"
  by simp

lemma mot_one_byte_first:
  assumes "num_sections (image_of st) = 0" and "length (section_array st) = IMAGE_MAX_SECTIONS"
    and "size_sec (section_array st ! 0) = 0" and "full_address st = 0"
  shows "\<exists>st'. mot_record sscanf_hex mot_one_byte st = Inr (st', False) \<and> filling 0 st'"
  using assms
  by (simp add: mot_one_byte_def nl_def mot_eval scan_eval store_eval filling_def
      IMAGE_MAX_SECTIONS_def)

lemma mot_one_byte_next:
  assumes "filling n st" and "n + 1 < IMAGE_MAX_SECTIONS"
  shows "\<exists>st'. mot_record sscanf_hex mot_one_byte st = Inr (st', False) \<and> filling (n + 1) st'"
  using assms
  by (simp add: mot_one_byte_def nl_def mot_eval scan_eval store_eval filling_def
      IMAGE_MAX_SECTIONS_def)

lemma mot_one_byte_overflow:
  assumes "filling n st" and "n + 1 = IMAGE_MAX_SECTIONS"
  shows "mot_record sscanf_hex mot_one_byte st = Inl UNDEFINED_OUT_OF_BOUNDS"
  using assms
  by (simp add: mot_one_byte_def nl_def mot_eval scan_eval store_eval filling_def
      IMAGE_MAX_SECTIONS_def)

lemma mot_one_byte_line:
  "mot_one_byte \<noteq> []" "CHR 0x0A \<notin> set (butlast mot_one_byte)"
  "last mot_one_byte = CHR 0x0A" "length mot_one_byte < 1023" "\<not> skipped_line mot_one_byte"
  by (simp_all add: mot_one_byte_def nl_def skipped_line_def)

lemma mot_lines_one_byte:
  "mot_lines sscanf_hex \<lparr>unread = mot_one_byte @ rest, at_eof = e, size_reply = z\<rparr> st =
     (case mot_record sscanf_hex mot_one_byte st of
        Inl err \<Rightarrow> Inl err
      | Inr (st', leave) \<Rightarrow>
          if leave then Inr (st', \<lparr>unread = rest, at_eof = False, size_reply = z\<rparr>)
          else mot_lines sscanf_hex \<lparr>unread = rest, at_eof = False, size_reply = z\<rparr> st')"
  by (subst mot_lines.simps)
     (simp add: fileio_fgets_line [OF mot_one_byte_line(1-4)] mot_one_byte_line(5))

lemma mot_lines_one_bytes:
  assumes "filling n st" and "n + k < IMAGE_MAX_SECTIONS"
  shows "\<exists>st' e'. filling (n + k) st' \<and>
           mot_lines sscanf_hex
             \<lparr>unread = concat (replicate k mot_one_byte) @ rest, at_eof = e, size_reply = z\<rparr> st =
           mot_lines sscanf_hex \<lparr>unread = rest, at_eof = e', size_reply = z\<rparr> st'"
  using assms
proof (induction k arbitrary: n st e)
  case 0
  then show ?case by auto
next
  case (Suc k)
  from Suc.prems obtain st1 where r: "mot_record sscanf_hex mot_one_byte st = Inr (st1, False)"
    and f: "filling (n + 1) st1"
    using mot_one_byte_next [of n st] by auto
  from Suc.prems have "n + 1 + k < IMAGE_MAX_SECTIONS" by simp
  from Suc.IH [OF f this, of False] obtain st' e' where "filling (n + 1 + k) st'"
    and "mot_lines sscanf_hex
           \<lparr>unread = concat (replicate k mot_one_byte) @ rest, at_eof = False, size_reply = z\<rparr> st1 =
         mot_lines sscanf_hex \<lparr>unread = rest, at_eof = e', size_reply = z\<rparr> st'"
    by blast
  with r show ?case by (auto simp: mot_lines_one_byte)
qed

text \<open>
  The failing input of C1: an S-record file of 129 records of one byte for address 0, each
  of which but the first starts a section, and an S9 record; and an image for it as
  \<^verbatim>\<open>image_open\<close> prepares it.
\<close>

definition mot_129_sections :: textio where
  "mot_129_sections =
     \<lparr>unread = concat (replicate 129 mot_one_byte) @ mot_end, at_eof = False,
      size_reply = Inr 1688\<rparr>"

definition example_mot_fresh :: image where
  "example_mot_fresh =
     \<lparr>type_img = IMAGE_SRECORD, type_private = PRIVATE_MOT None, num_sections = 0,
      sections = None, base_address_set = False, base_address_img = 0,
      start_address_set = False, start_address = 0\<rparr>"

lemma replicate_129: "replicate 129 x = x # replicate 127 x @ [x]"
proof -
  have "(129::nat) = Suc (127 + 1)" by simp
  then have "replicate 129 x = x # replicate (127 + 1) x" by (simp only: replicate_Suc)
  then show ?thesis by (simp only: replicate_add) simp
qed

text \<open>
  C1 fails for the S-record parser: the 129th section is not refused with
  \<open>ERROR_IMAGE_FORMAT_ERROR\<close>. The parser has no test of the section count, and the record
  that starts section 129 stores into \<^verbatim>\<open>section[128]\<close>, behind the end of the scratch array
  of \<^verbatim>\<open>IMAGE_MAX_SECTIONS\<close> entries.
\<close>

theorem image_mot_buffer_complete_129_sections:
  "image_mot_buffer_complete sscanf_hex mot_129_sections example_mot_fresh =
     Inl UNDEFINED_OUT_OF_BOUNDS"
proof -
  define st0 :: parser where "st0 =
    \<lparr>image_of = example_mot_fresh\<lparr>num_sections := 0\<rparr>, section_array = fresh_section_array,
     cooked = [], full_address = 0, end_rec = False\<rparr>"
  obtain st1 where b: "begin_pass st0 = Inr st1" and n1: "num_sections (image_of st1) = 0"
    and l1: "length (section_array st1) = IMAGE_MAX_SECTIONS"
    and s1: "size_sec (section_array st1 ! 0) = 0" and a1: "full_address st1 = 0"
    by (simp add: st0_def begin_pass_def store_eval fresh_section_array_def
        IMAGE_MAX_SECTIONS_def example_mot_fresh_def)
  from mot_one_byte_first [OF n1 l1 s1 a1] obtain st2
    where r2: "mot_record sscanf_hex mot_one_byte st1 = Inr (st2, False)" and f2: "filling 0 st2"
    by blast
  have "0 + 127 < IMAGE_MAX_SECTIONS" by (simp add: IMAGE_MAX_SECTIONS_def)
  from mot_lines_one_bytes [OF f2 this, of "mot_one_byte @ mot_end" False "Inr 1688"]
  obtain st3 e3 where f3: "filling 127 st3"
    and r3: "mot_lines sscanf_hex
              \<lparr>unread = concat (replicate 127 mot_one_byte) @ mot_one_byte @ mot_end,
               at_eof = False, size_reply = Inr 1688\<rparr> st2 =
             mot_lines sscanf_hex
              \<lparr>unread = mot_one_byte @ mot_end, at_eof = e3, size_reply = Inr 1688\<rparr> st3"
    by auto
  have "127 + 1 = IMAGE_MAX_SECTIONS" by (simp add: IMAGE_MAX_SECTIONS_def)
  from mot_one_byte_overflow [OF f3 this]
  have r4: "mot_lines sscanf_hex
              \<lparr>unread = mot_one_byte @ mot_end, at_eof = e3, size_reply = Inr 1688\<rparr> st3 =
            Inl UNDEFINED_OUT_OF_BOUNDS"
    by (simp add: mot_lines_one_byte)
  have "mot_lines sscanf_hex mot_129_sections st1 = Inl UNDEFINED_OUT_OF_BOUNDS"
    using r2 r3 r4 by (simp add: mot_129_sections_def replicate_129 mot_lines_one_byte)
  then have "mot_passes sscanf_hex mot_129_sections st0 = Inl UNDEFINED_OUT_OF_BOUNDS"
    using b by (subst mot_passes.simps) (simp add: fileio_feof_def mot_129_sections_def)
  then show ?thesis
    by (simp add: image_mot_buffer_complete_def image_mot_buffer_complete_inner_def
        fileio_size_def st0_def example_mot_fresh_def mot_129_sections_def)
qed

text \<open>
  The IHEX parser does refuse the 129th section: the same file in IHEX records fails with
  \<open>ERROR_IMAGE_FORMAT_ERROR\<close>.
\<close>

lemma ihex_one_byte_first:
  assumes "num_sections (image_of st) = 0" and "length (section_array st) = IMAGE_MAX_SECTIONS"
    and "size_sec (section_array st ! 0) = 0" and "full_address st = 0"
  shows "\<exists>st'. ihex_record sscanf_hex ihex_one_byte st = Inr (st', False) \<and> filling 0 st'"
  using assms
  by (simp add: ihex_one_byte_def nl_def ihex_eval scan_eval store_eval filling_def
      IMAGE_MAX_SECTIONS_def)

lemma ihex_one_byte_next:
  assumes "filling n st" and "n + 1 < IMAGE_MAX_SECTIONS"
  shows "\<exists>st'. ihex_record sscanf_hex ihex_one_byte st = Inr (st', False) \<and> filling (n + 1) st'"
  using assms
  by (simp add: ihex_one_byte_def nl_def ihex_eval scan_eval store_eval filling_def
      IMAGE_MAX_SECTIONS_def)

lemma ihex_one_byte_refused:
  assumes "filling n st" and "n + 1 = IMAGE_MAX_SECTIONS"
  shows "ihex_record sscanf_hex ihex_one_byte st = Inl ERROR_IMAGE_FORMAT_ERROR"
  using assms
  by (simp add: ihex_one_byte_def nl_def ihex_eval scan_eval store_eval filling_def
      IMAGE_MAX_SECTIONS_def)

lemma ihex_one_byte_line:
  "ihex_one_byte \<noteq> []" "CHR 0x0A \<notin> set (butlast ihex_one_byte)"
  "last ihex_one_byte = CHR 0x0A" "length ihex_one_byte < 1023" "\<not> skipped_line ihex_one_byte"
  by (simp_all add: ihex_one_byte_def nl_def skipped_line_def)

lemma ihex_lines_one_byte:
  "ihex_lines sscanf_hex \<lparr>unread = ihex_one_byte @ rest, at_eof = e, size_reply = z\<rparr> st =
     (case ihex_record sscanf_hex ihex_one_byte st of
        Inl err \<Rightarrow> Inl err
      | Inr (st', leave) \<Rightarrow>
          if leave then Inr (st', \<lparr>unread = rest, at_eof = False, size_reply = z\<rparr>)
          else ihex_lines sscanf_hex \<lparr>unread = rest, at_eof = False, size_reply = z\<rparr> st')"
  by (subst ihex_lines.simps)
     (simp add: fileio_fgets_line [OF ihex_one_byte_line(1-4)] ihex_one_byte_line(5))

lemma ihex_lines_one_bytes:
  assumes "filling n st" and "n + k < IMAGE_MAX_SECTIONS"
  shows "\<exists>st' e'. filling (n + k) st' \<and>
           ihex_lines sscanf_hex
             \<lparr>unread = concat (replicate k ihex_one_byte) @ rest, at_eof = e, size_reply = z\<rparr> st =
           ihex_lines sscanf_hex \<lparr>unread = rest, at_eof = e', size_reply = z\<rparr> st'"
  using assms
proof (induction k arbitrary: n st e)
  case 0
  then show ?case by auto
next
  case (Suc k)
  from Suc.prems obtain st1 where r: "ihex_record sscanf_hex ihex_one_byte st = Inr (st1, False)"
    and f: "filling (n + 1) st1"
    using ihex_one_byte_next [of n st] by auto
  from Suc.prems have "n + 1 + k < IMAGE_MAX_SECTIONS" by simp
  from Suc.IH [OF f this, of False] obtain st' e' where "filling (n + 1 + k) st'"
    and "ihex_lines sscanf_hex
           \<lparr>unread = concat (replicate k ihex_one_byte) @ rest, at_eof = False, size_reply = z\<rparr> st1 =
         ihex_lines sscanf_hex \<lparr>unread = rest, at_eof = e', size_reply = z\<rparr> st'"
    by blast
  with r show ?case by (auto simp: ihex_lines_one_byte)
qed

definition ihex_129_sections :: textio where
  "ihex_129_sections =
     \<lparr>unread = concat (replicate 129 ihex_one_byte) @ ihex_end, at_eof = False,
      size_reply = Inr 1818\<rparr>"

definition example_ihex_fresh :: image where
  "example_ihex_fresh =
     \<lparr>type_img = IMAGE_IHEX, type_private = PRIVATE_IHEX None, num_sections = 0,
      sections = None, base_address_set = False, base_address_img = 0,
      start_address_set = False, start_address = 0\<rparr>"

lemma image_ihex_buffer_complete_129_sections:
  "image_ihex_buffer_complete sscanf_hex ihex_129_sections example_ihex_fresh =
     Inl ERROR_IMAGE_FORMAT_ERROR"
proof -
  define st0 :: parser where "st0 =
    \<lparr>image_of = example_ihex_fresh\<lparr>num_sections := 0\<rparr>, section_array = fresh_section_array,
     cooked = [], full_address = 0, end_rec = False\<rparr>"
  obtain st1 where b: "begin_pass st0 = Inr st1" and n1: "num_sections (image_of st1) = 0"
    and l1: "length (section_array st1) = IMAGE_MAX_SECTIONS"
    and s1: "size_sec (section_array st1 ! 0) = 0" and a1: "full_address st1 = 0"
    by (simp add: st0_def begin_pass_def store_eval fresh_section_array_def
        IMAGE_MAX_SECTIONS_def example_ihex_fresh_def)
  from ihex_one_byte_first [OF n1 l1 s1 a1] obtain st2
    where r2: "ihex_record sscanf_hex ihex_one_byte st1 = Inr (st2, False)" and f2: "filling 0 st2"
    by blast
  have "0 + 127 < IMAGE_MAX_SECTIONS" by (simp add: IMAGE_MAX_SECTIONS_def)
  from ihex_lines_one_bytes [OF f2 this, of "ihex_one_byte @ ihex_end" False "Inr 1818"]
  obtain st3 e3 where f3: "filling 127 st3"
    and r3: "ihex_lines sscanf_hex
              \<lparr>unread = concat (replicate 127 ihex_one_byte) @ ihex_one_byte @ ihex_end,
               at_eof = False, size_reply = Inr 1818\<rparr> st2 =
             ihex_lines sscanf_hex
              \<lparr>unread = ihex_one_byte @ ihex_end, at_eof = e3, size_reply = Inr 1818\<rparr> st3"
    by auto
  have "127 + 1 = IMAGE_MAX_SECTIONS" by (simp add: IMAGE_MAX_SECTIONS_def)
  from ihex_one_byte_refused [OF f3 this]
  have r4: "ihex_lines sscanf_hex
              \<lparr>unread = ihex_one_byte @ ihex_end, at_eof = e3, size_reply = Inr 1818\<rparr> st3 =
            Inl ERROR_IMAGE_FORMAT_ERROR"
    by (simp add: ihex_lines_one_byte)
  have "ihex_lines sscanf_hex ihex_129_sections st1 = Inl ERROR_IMAGE_FORMAT_ERROR"
    using r2 r3 r4 by (simp add: ihex_129_sections_def replicate_129 ihex_lines_one_byte)
  then have "ihex_passes sscanf_hex ihex_129_sections st0 = Inl ERROR_IMAGE_FORMAT_ERROR"
    using b by (subst ihex_passes.simps) (simp add: fileio_feof_def ihex_129_sections_def)
  then show ?thesis
    by (simp add: image_ihex_buffer_complete_def image_ihex_buffer_complete_inner_def
        fileio_size_def st0_def example_ihex_fresh_def ihex_129_sections_def)
qed

section \<open>Statements about the S-record checksum\<close>

text \<open>
  The bytes of a record in the words of the specification: \<open>scan_bytes scan line pos n\<close>
  are the \<open>n\<close> bytes written in two digits each from position \<open>pos\<close> of the line on, and
  \<open>be_bytes k a\<close> are the \<open>k\<close> low bytes of the address \<open>a\<close>, the most significant first.
  The checksum sum of an S-record is the 8-bit sum of its count, of its address bytes (two,
  three or four in an S1, S2 or S3 record, none in the others) and of the bytes that follow,
  the data bytes and the checksum byte, which are \<open>count\<close> less the address bytes.
\<close>

primrec scan_bytes :: "scanner \<Rightarrow> string \<Rightarrow> nat \<Rightarrow> nat \<Rightarrow> u8 list option" where
  "scan_bytes scan line pos 0 = Some []"
| "scan_bytes scan line pos (Suc n) =
     (case scan_at scan 2 line pos of
        Inl e \<Rightarrow> None
      | Inr v \<Rightarrow> map_option ((#) (ucast v)) (scan_bytes scan line (pos + 2) n))"

definition be_bytes :: "nat \<Rightarrow> u32 \<Rightarrow> u8 list" where
  "be_bytes k a = map (\<lambda>i. ucast (drop_bit (8 * i) a)) (rev [0..<k])"

definition mot_address_bytes :: "u32 \<Rightarrow> nat" where
  "mot_address_bytes record_type =
     (if record_type = 1 then 2 else if record_type = 2 then 3
      else if record_type = 3 then 4 else 0)"

definition mot_checksum_sum :: "scanner \<Rightarrow> string \<Rightarrow> u8 option" where
  "mot_checksum_sum scan line =
     (case mot_scan_header scan line of
        None \<Rightarrow> None
      | Some (record_type, count) \<Rightarrow>
          let k = mot_address_bytes record_type in
          if unat count < k + 1 then None
          else case (if k = 0 then Some []
                     else case scan_at scan (2 * k) line 4 of
                            Inl e \<Rightarrow> None
                          | Inr address \<Rightarrow> Some (be_bytes k address)) of
                 None \<Rightarrow> None
               | Some address_bytes \<Rightarrow>
                   (case scan_bytes scan line (4 + 2 * k) (unat count - k) of
                      None \<Rightarrow> None
                    | Some bytes \<Rightarrow>
                        Some (ucast count + sum_list address_bytes + sum_list bytes)))"

text \<open>The record types whose checksum the parser looks at.\<close>

definition mot_checked_type :: "u32 \<Rightarrow> bool" where
  "mot_checked_type record_type \<longleftrightarrow> record_type \<in> {0, 1, 2, 3, 5, 6}"

text \<open>
  The record starts a section: it is an S1, S2 or S3 record whose address is not the
  running address, met while the current section is not empty.
\<close>

definition mot_opens_section :: "scanner \<Rightarrow> string \<Rightarrow> parser \<Rightarrow> bool" where
  "mot_opens_section scan line st \<longleftrightarrow>
     (case mot_scan_header scan line of
        None \<Rightarrow> False
      | Some (record_type, count) \<Rightarrow>
          record_type \<in> {1, 2, 3}
          \<and> (case scan_at scan (2 * mot_address_bytes record_type) line 4 of
               Inl e \<Rightarrow> False
             | Inr address \<Rightarrow> address \<noteq> full_address st)
          \<and> (case current_size st of Inl e \<Rightarrow> False | Inr n \<Rightarrow> n \<noteq> 0))"

text \<open>
  Where the loader stands in its file. A place is the file as far as it is unread, with the
  locals of the parser, at the \<^verbatim>\<open>fileio_fgets\<close> at the head of the inner loop.
  \<open>mot_line_step\<close> is the way from one place to the next, over one line: a skipped line, a
  record that is handled without error, or an end record, after which the outer loop starts
  its next round. There is no next place where the file has no further line, where the
  record stops the loader with an error, and where the file is at its end after an end record.
  \<open>mot_loader_at scan tf img n\<close> is the place of the loader in the file \<open>tf\<close> after \<open>n\<close> lines.
\<close>

definition mot_line_step :: "scanner \<Rightarrow> textio \<times> parser \<Rightarrow> (textio \<times> parser) option" where
  "mot_line_step scan c =
     (case fileio_fgets (fst c) 1023 of
        (None, tf') \<Rightarrow> None
      | (Some line, tf') \<Rightarrow>
          if skipped_line line then Some (tf', snd c)
          else case mot_record scan line (snd c) of
                 Inl e \<Rightarrow> None
               | Inr (st', leave) \<Rightarrow>
                   if \<not> leave then Some (tf', st')
                   else if fileio_feof tf' then None
                   else case begin_pass st' of
                          Inl e \<Rightarrow> None
                        | Inr st'' \<Rightarrow> Some (tf', st''))"

fun mot_after :: "scanner \<Rightarrow> nat \<Rightarrow> textio \<times> parser \<Rightarrow> (textio \<times> parser) option" where
  "mot_after scan 0 c = Some c"
| "mot_after scan (Suc n) c =
     (case mot_line_step scan c of
        None \<Rightarrow> None
      | Some c' \<Rightarrow> mot_after scan n c')"

definition mot_loader_at ::
  "scanner \<Rightarrow> textio \<Rightarrow> image \<Rightarrow> nat \<Rightarrow> (textio \<times> parser) option" where
  "mot_loader_at scan tf img n =
     (if fileio_feof tf then None
      else case begin_pass
                  \<lparr>image_of = img\<lparr>num_sections := 0\<rparr>, section_array = fresh_section_array,
                   cooked = [], full_address = 0, end_rec = False\<rparr> of
             Inl e \<Rightarrow> None
           | Inr st \<Rightarrow> mot_after scan n (tf, st))"

text \<open>What the loader returns from a place on.\<close>

definition mot_rest :: "scanner \<Rightarrow> textio \<times> parser \<Rightarrow> error + parser" where
  "mot_rest scan c =
     (case mot_lines scan (fst c) (snd c) of
        Inl e \<Rightarrow> Inl e
      | Inr (st2, tf2) \<Rightarrow> mot_passes scan tf2 st2)"

text \<open>The current section has its entry in the scratch array of \<^verbatim>\<open>IMAGE_MAX_SECTIONS\<close>.\<close>

definition in_section_array :: "parser \<Rightarrow> bool" where
  "in_section_array st \<longleftrightarrow>
     num_sections (image_of st) < length (section_array st)
     \<and> length (section_array st) = IMAGE_MAX_SECTIONS"

subsection \<open>The places of the loader\<close>

lemma mot_line_step_rest:
  assumes "mot_line_step scan c = Some c'"
  shows "mot_rest scan c = mot_rest scan c'"
proof -
  obtain tf st where c: "c = (tf, st)" by (cases c)
  obtain tf' st' where c': "c' = (tf', st')" by (cases c')
  from assms c obtain line where g: "fileio_fgets tf 1023 = (Some line, tf')"
    and rest: "(if skipped_line line then Some (tf', st)
          else case mot_record scan line st of
                 Inl e \<Rightarrow> None
               | Inr (st1, leave) \<Rightarrow>
                   if \<not> leave then Some (tf', st1)
                   else if fileio_feof tf' then None
                   else case begin_pass st1 of
                          Inl e \<Rightarrow> None
                        | Inr st'' \<Rightarrow> Some (tf', st'')) = Some (tf', st')"
    by (cases "fileio_fgets tf 1023")
       (auto simp: mot_line_step_def c' split: option.splits if_splits sum.splits)
  show ?thesis
  proof (cases "skipped_line line")
    case True
    with rest have "st' = st" by simp
    with g True show ?thesis
      by (simp add: mot_rest_def c c' mot_lines.simps [of scan tf st])
  next
    case False
    with rest obtain st1 leave where r: "mot_record scan line st = Inr (st1, leave)"
      and rest1: "(if \<not> leave then Some (tf', st1)
                   else if fileio_feof tf' then None
                   else case begin_pass st1 of
                          Inl e \<Rightarrow> None
                        | Inr st'' \<Rightarrow> Some (tf', st'')) = Some (tf', st')"
      by (auto split: sum.splits)
    show ?thesis
    proof (cases leave)
      case nl: False
      with rest1 have "st' = st1" by simp
      with g False r nl show ?thesis
        by (simp add: mot_rest_def c c' mot_lines.simps [of scan tf st])
    next
      case True
      with rest1 have e: "\<not> fileio_feof tf'" and b: "begin_pass st1 = Inr st'"
        by (auto split: if_splits sum.splits)
      from g False r True have "mot_lines scan tf st = Inr (st1, tf')"
        by (simp add: mot_lines.simps [of scan tf st])
      then have "mot_rest scan c = mot_passes scan tf' st1"
        by (simp add: mot_rest_def c)
      also have "\<dots> = mot_rest scan c'"
        using e b by (simp add: mot_rest_def c' mot_passes.simps [of scan tf' st1])
      finally show ?thesis .
    qed
  qed
qed

lemma mot_after_rest: "mot_after scan n c = Some c' \<Longrightarrow> mot_rest scan c = mot_rest scan c'"
proof (induction n arbitrary: c)
  case 0
  then show ?case by simp
next
  case (Suc n)
  from Suc.prems obtain c1 where s: "mot_line_step scan c = Some c1"
    and a: "mot_after scan n c1 = Some c'"
    by (auto split: option.splits)
  from mot_line_step_rest [OF s] Suc.IH [OF a] show ?case by simp
qed

lemma current_store_frame:
  "current_store st upd = Inr st' \<Longrightarrow>
   num_sections (image_of st') = num_sections (image_of st)
   \<and> length (section_array st') = length (section_array st)
   \<and> num_sections (image_of st) < length (section_array st)"
  by (auto simp: current_store_def section_store_def split: if_splits sum.splits)

lemma data_loop_frame:
  "data_loop scan line count pos cal st = Inr (pos', cal', st') \<Longrightarrow>
   num_sections (image_of st') = num_sections (image_of st)
   \<and> length (section_array st') = length (section_array st)"
proof (induction scan line count pos cal st rule: data_loop.induct)
  case (1 scan line count bytes_read cal_checksum st)
  show ?case
  proof (cases "count = 0")
    case True
    with 1(2) show ?thesis by (subst (asm) data_loop.simps) simp
  next
    case False
    with 1(2) obtain v st1 where v: "scan_at scan 2 line bytes_read = Inr v"
      and c: "current_store (st\<lparr>cooked := cooked st @ [ucast v]\<rparr>)
                (\<lambda>s. s\<lparr>size_sec := size_sec s + 1\<rparr>) = Inr st1"
      and d: "data_loop scan line (count - 1) (bytes_read + 2) (cal_checksum + ucast v)
                (st1\<lparr>full_address := full_address st1 + 1\<rparr>) = Inr (pos', cal', st')"
      by (subst (asm) data_loop.simps) (auto split: sum.splits)
    from 1(1) [OF False v c d] current_store_frame [OF c] show ?thesis by simp
  qed
qed

lemma mot_new_address_frame:
  "mot_new_address st a = Inr st' \<Longrightarrow>
   length (section_array st') = length (section_array st)
   \<and> num_sections (image_of st') < length (section_array st')"
  by (auto simp: mot_new_address_def current_size_def current_store_def section_store_def
      next_section_def Let_def split: if_splits sum.splits)

lemma mot_record_body_frame:
  assumes "mot_record_body scan line record_type count cal st = Inr (pos', cal', st')"
    and "in_section_array st"
  shows "in_section_array st'"
proof (cases "1 \<le> record_type \<and> record_type \<le> 3")
  case True
  then have nz: "record_type \<noteq> 0" by auto
  from assms(1) True nz obtain address st1 where
    n: "(if full_address st \<noteq> address then mot_new_address st address else Inr st) = Inr st1"
    and d: "data_loop scan line (count - of_nat (mot_address_digits record_type div 2))
              (4 + mot_address_digits record_type)
              (cal + mot_address_sum record_type address) st1 = Inr (pos', cal', st')"
    by (auto simp: mot_record_body_def Let_def split: sum.splits)
  from n assms(2) have "in_section_array st1"
    by (cases "full_address st \<noteq> address")
       (auto simp: in_section_array_def dest: mot_new_address_frame)
  with data_loop_frame [OF d] show ?thesis by (simp add: in_section_array_def)
next
  case False
  with assms(1) have "st' = st"
    by (auto simp: mot_record_body_def split: if_splits sum.splits)
  with assms(2) show ?thesis by simp
qed

lemma mot_record_frame:
  assumes "mot_record scan line st = Inr (st', False)" and "in_section_array st"
  shows "in_section_array st'"
proof -
  from assms(1) obtain record_type count pos cal st1 where
    b: "mot_record_body scan line record_type (count - 1) (ucast count) st =
          Inr (pos, cal, st1)"
    and e: "st' = st1\<lparr>end_rec := False\<rparr>"
    by (auto simp: mot_record_def Let_def split: option.splits if_splits sum.splits)
  from mot_record_body_frame [OF b assms(2)] e show ?thesis
    by (simp add: in_section_array_def)
qed

lemma begin_pass_frame:
  "begin_pass st = Inr st' \<Longrightarrow> length (section_array st) = IMAGE_MAX_SECTIONS \<Longrightarrow>
   in_section_array st'"
  by (auto simp: begin_pass_def in_section_array_def dest!: current_store_frame)

lemma finish_sections_frame:
  "finish_sections st = Inr st' \<Longrightarrow> length (section_array st') = length (section_array st)"
  by (auto simp: finish_sections_def next_section_def Let_def split: if_splits)

lemma mot_record_leave_frame:
  "mot_record scan line st = Inr (st', True) \<Longrightarrow>
   length (section_array st') = length (section_array st)"
  by (auto simp: mot_record_def Let_def split: option.splits if_splits sum.splits
      dest: finish_sections_frame)

lemma mot_line_step_frame:
  assumes "mot_line_step scan c = Some c'" and "in_section_array (snd c)"
  shows "in_section_array (snd c')"
proof -
  obtain tf st where c: "c = (tf, st)" by (cases c)
  obtain tf' st' where c': "c' = (tf', st')" by (cases c')
  from assms(1) c c' consider "st' = st"
    | line where "mot_record scan line st = Inr (st', False)"
    | line st1 where "mot_record scan line st = Inr (st1, True)" "begin_pass st1 = Inr st'"
    by (cases "fileio_fgets tf 1023")
       (auto simp: mot_line_step_def split: option.splits if_splits sum.splits)
  then show ?thesis
  proof cases
    case 1
    with assms(2) c c' show ?thesis by simp
  next
    case 2
    with mot_record_frame assms(2) c c' show ?thesis by auto
  next
    case 3
    from mot_record_leave_frame [OF 3(1)] assms(2) c
    have "length (section_array st1) = IMAGE_MAX_SECTIONS"
      by (simp add: in_section_array_def)
    with begin_pass_frame [OF 3(2)] c' show ?thesis by simp
  qed
qed

lemma mot_after_frame:
  "mot_after scan n c = Some c' \<Longrightarrow> in_section_array (snd c) \<Longrightarrow> in_section_array (snd c')"
proof (induction n arbitrary: c)
  case 0
  then show ?case by simp
next
  case (Suc n)
  from Suc.prems(1) obtain c1 where s: "mot_line_step scan c = Some c1"
    and a: "mot_after scan n c1 = Some c'"
    by (auto split: option.splits)
  from Suc.IH [OF a mot_line_step_frame [OF s Suc.prems(2)]] show ?case .
qed

lemma length_fresh_section_array: "length fresh_section_array = IMAGE_MAX_SECTIONS"
  by (simp add: fresh_section_array_def)

lemma mot_loader_at_frame:
  "mot_loader_at scan tf0 img n = Some (tf, st) \<Longrightarrow> in_section_array st"
  by (auto simp: mot_loader_at_def length_fresh_section_array
      split: if_splits sum.splits dest!: begin_pass_frame mot_after_frame)

lemma mot_loader_at_rest:
  assumes "mot_loader_at scan tf0 img n = Some c"
  shows "mot_passes scan tf0
           \<lparr>image_of = img\<lparr>num_sections := 0\<rparr>, section_array = fresh_section_array,
            cooked = [], full_address = 0, end_rec = False\<rparr> = mot_rest scan c"
proof -
  from assms obtain st where e: "\<not> fileio_feof tf0"
    and b: "begin_pass
              \<lparr>image_of = img\<lparr>num_sections := 0\<rparr>, section_array = fresh_section_array,
               cooked = [], full_address = 0, end_rec = False\<rparr> = Inr st"
    and a: "mot_after scan n (tf0, st) = Some c"
    by (auto simp: mot_loader_at_def split: if_splits sum.splits)
  from e b have "mot_passes scan tf0
           \<lparr>image_of = img\<lparr>num_sections := 0\<rparr>, section_array = fresh_section_array,
            cooked = [], full_address = 0, end_rec = False\<rparr> = mot_rest scan (tf0, st)"
    by (subst mot_passes.simps) (simp add: mot_rest_def)
  with mot_after_rest [OF a] show ?thesis by simp
qed

subsection \<open>The sum of a record\<close>

lemma scan_bytes_snoc:
  "scan_bytes scan line pos (Suc n) = Some bytes \<Longrightarrow>
   \<exists>ds v. bytes = ds @ [ucast v] \<and> scan_bytes scan line pos n = Some ds
          \<and> scan_at scan 2 line (pos + 2 * n) = Inr v"
proof (induction n arbitrary: pos bytes)
  case 0
  then show ?case by (auto split: sum.splits)
next
  case (Suc n)
  from Suc.prems obtain v rest where v: "scan_at scan 2 line pos = Inr v"
    and rest: "scan_bytes scan line (pos + 2) (Suc n) = Some rest" and b: "bytes = ucast v # rest"
    by (auto split: sum.splits)
  from Suc.IH [OF rest] obtain ds w where "rest = ds @ [ucast w]"
    and "scan_bytes scan line (pos + 2) n = Some ds"
    and "scan_at scan 2 line (pos + 2 + 2 * n) = Inr w" by blast
  with v b show ?case by (auto simp: add.assoc)
qed

lemma skip_loop_sum:
  "scan_bytes scan line pos (unat count) = Some bytes \<Longrightarrow>
   skip_loop scan line count pos cal = Inr (pos + 2 * unat count, cal + sum_list bytes)"
proof (induction scan line count pos cal arbitrary: bytes rule: skip_loop.induct)
  case (1 scan line count bytes_read cal_checksum)
  show ?case
  proof (cases "count = 0")
    case True
    with 1(2) show ?thesis by (subst skip_loop.simps) simp
  next
    case False
    then obtain n where n: "unat count = Suc n" and m: "unat (count - 1) = n"
      using unat_gt_0 [of count] by (cases "unat count") (auto simp: unat_minus_one)
    with 1(2) obtain v rest where v: "scan_at scan 2 line bytes_read = Inr v"
      and rest: "scan_bytes scan line (bytes_read + 2) (unat (count - 1)) = Some rest"
      and b: "bytes = ucast v # rest"
      by (auto split: sum.splits)
    from 1(1) [OF False v rest] False v b n m show ?thesis
      by (subst skip_loop.simps) (simp add: add.assoc)
  qed
qed

lemma data_loop_sum:
  "scan_bytes scan line pos (unat count) = Some bytes \<Longrightarrow>
   num_sections (image_of st) < length (section_array st) \<Longrightarrow>
   \<exists>st'. data_loop scan line count pos cal st = Inr (pos + 2 * unat count, cal + sum_list bytes, st')"
proof (induction scan line count pos cal st arbitrary: bytes rule: data_loop.induct)
  case (1 scan line count bytes_read cal_checksum st)
  show ?case
  proof (cases "count = 0")
    case True
    with 1(2) show ?thesis by (subst data_loop.simps) simp
  next
    case False
    then obtain n where n: "unat count = Suc n" and m: "unat (count - 1) = n"
      using unat_gt_0 [of count] by (cases "unat count") (auto simp: unat_minus_one)
    with 1(2) obtain v rest where v: "scan_at scan 2 line bytes_read = Inr v"
      and rest: "scan_bytes scan line (bytes_read + 2) (unat (count - 1)) = Some rest"
      and b: "bytes = ucast v # rest"
      by (auto split: sum.splits)
    define st1 where "st1 = st\<lparr>cooked := cooked st @ [ucast v],
      section_array := (section_array st)[num_sections (image_of st) :=
        (section_array st ! num_sections (image_of st))
          \<lparr>size_sec := size_sec (section_array st ! num_sections (image_of st)) + 1\<rparr>]\<rparr>"
    have c: "current_store (st\<lparr>cooked := cooked st @ [ucast v]\<rparr>)
               (\<lambda>s. s\<lparr>size_sec := size_sec s + 1\<rparr>) = Inr st1"
      using 1(3) by (simp add: current_store_def section_store_def st1_def)
    have "num_sections (image_of (st1\<lparr>full_address := full_address st1 + 1\<rparr>))
            < length (section_array (st1\<lparr>full_address := full_address st1 + 1\<rparr>))"
      using 1(3) by (simp add: st1_def)
    from 1(1) [OF False v c rest this] obtain st' where
      "data_loop scan line (count - 1) (bytes_read + 2) (cal_checksum + ucast v)
         (st1\<lparr>full_address := full_address st1 + 1\<rparr>) =
       Inr (bytes_read + 2 + 2 * unat (count - 1), cal_checksum + ucast v + sum_list rest, st')"
      by blast
    with False v c b n m show ?thesis
      by (subst data_loop.simps) (simp add: add.assoc)
  qed
qed

lemma mot_new_address_room:
  assumes "num_sections (image_of st) < length (section_array st)"
    and "size_sec (section_array st ! num_sections (image_of st)) \<noteq> 0 \<longrightarrow>
         num_sections (image_of st) + 1 < length (section_array st)"
  shows "\<exists>st1. mot_new_address st a = Inr st1
           \<and> num_sections (image_of st1) < length (section_array st1)"
  using assms
  by (auto simp: mot_new_address_def current_size_def current_store_def section_store_def
      next_section_def Let_def)

lemma mot_data_type_cases:
  assumes "1 \<le> record_type" and "record_type \<le> 3"
  shows "record_type = 1 \<or> record_type = 2 \<or> record_type = (3 :: u32)"
proof -
  from assms have "1 \<le> unat record_type" "unat record_type \<le> 3"
    by (simp_all add: word_le_nat_alt)
  then have "unat record_type = 1 \<or> unat record_type = 2 \<or> unat record_type = 3" by arith
  then show ?thesis by (auto simp: word_unat_eq_iff)
qed

lemma mot_address_digits_bytes:
  "1 \<le> record_type \<Longrightarrow> record_type \<le> 3 \<Longrightarrow>
   mot_address_digits record_type = 2 * mot_address_bytes record_type"
  by (drule (1) mot_data_type_cases) (auto simp: mot_address_digits_def mot_address_bytes_def)

lemma be_bytes_numeral:
  "be_bytes 2 a = [ucast (drop_bit 8 a), ucast a]"
  "be_bytes 3 a = [ucast (drop_bit 16 a), ucast (drop_bit 8 a), ucast a]"
  "be_bytes 4 a = [ucast (drop_bit 24 a), ucast (drop_bit 16 a), ucast (drop_bit 8 a), ucast a]"
proof -
  have "[0..<2] = [0, Suc 0]" "[0..<3] = [0, Suc 0, 2]" "[0..<4] = [0, Suc 0, 2, 3]"
    by (simp_all add: upt_rec)
  then show "be_bytes 2 a = [ucast (drop_bit 8 a), ucast a]"
    "be_bytes 3 a = [ucast (drop_bit 16 a), ucast (drop_bit 8 a), ucast a]"
    "be_bytes 4 a = [ucast (drop_bit 24 a), ucast (drop_bit 16 a), ucast (drop_bit 8 a), ucast a]"
    by (simp_all add: be_bytes_def)
qed

lemma be_bytes_sum:
  "1 \<le> record_type \<Longrightarrow> record_type \<le> 3 \<Longrightarrow>
   sum_list (be_bytes (mot_address_bytes record_type) a) = mot_address_sum record_type a"
  by (drule (1) mot_data_type_cases)
     (auto simp: mot_address_bytes_def mot_address_sum_def be_bytes_numeral)

text \<open>
  The handling of one record of a checked type with a sum other than \<open>0xFF\<close>, met where
  the current section has its entry in the scratch array and, if the record starts a
  section, that section too.
\<close>

lemma mot_record_bad_sum:
  assumes "mot_scan_header scan line = Some (record_type, count)"
    and "mot_checked_type record_type"
    and "mot_checksum_sum scan line = Some s" and "s \<noteq> 0xFF"
    and "num_sections (image_of st) < length (section_array st)"
    and "mot_opens_section scan line st \<longrightarrow>
         num_sections (image_of st) + 1 < length (section_array st)"
  shows "mot_record scan line st = Inl ERROR_IMAGE_CHECKSUM"
proof -
  define k where "k = mot_address_bytes record_type"
  from assms(1,3) have cnt: "k + 1 \<le> unat count"
    by (auto simp: mot_checksum_sum_def Let_def k_def split: if_splits)
  let ?A = "if k = 0 then Some []
            else case scan_at scan (2 * k) line 4 of
                   Inl e \<Rightarrow> None
                 | Inr address \<Rightarrow> Some (be_bytes k address)"
  let ?B = "scan_bytes scan line (4 + 2 * k) (unat count - k)"
  from assms(1,3) cnt have m: "(case ?A of
        None \<Rightarrow> None
      | Some address_bytes \<Rightarrow>
          (case ?B of
             None \<Rightarrow> None
           | Some bytes \<Rightarrow> Some (ucast count + sum_list address_bytes + sum_list bytes))) =
      Some s"
    unfolding k_def by (simp add: mot_checksum_sum_def Let_def)
  then obtain address_bytes where asum: "?A = Some address_bytes"
    by (cases ?A) simp_all
  from m [unfolded asum] obtain bytes where bytes: "?B = Some bytes"
    and s: "s = ucast count + sum_list address_bytes + sum_list bytes"
    by (cases ?B) auto
  from cnt obtain n where n: "unat count - k = Suc n" by (cases "unat count - k") auto
  from scan_bytes_snoc [OF bytes [unfolded n]] obtain ds v where
    b: "bytes = ds @ [ucast v]" and ds: "scan_bytes scan line (4 + 2 * k) n = Some ds"
    and v: "scan_at scan 2 line (4 + 2 * k + 2 * n) = Inr v" by blast
  from cnt have "count \<noteq> 0" by auto
  then have c1: "unat (count - 1) = unat count - 1" by (rule unat_minus_one)
  have body: "\<exists>st'. mot_record_body scan line record_type (count - 1) (ucast count) st =
      Inr (4 + 2 * k + 2 * n, ucast count + sum_list address_bytes + sum_list ds, st')"
  proof (cases "1 \<le> record_type \<and> record_type \<le> 3")
    case True
    then have t: "record_type = 1 \<or> record_type = 2 \<or> record_type = 3"
      using mot_data_type_cases by blast
    then have k0: "k \<noteq> 0" and kk: "k \<le> 4" and ne: "record_type \<noteq> 0"
      by (auto simp: k_def mot_address_bytes_def)
    from True have dig: "mot_address_digits record_type = 2 * k"
      by (simp add: mot_address_digits_bytes k_def)
    from asum k0 obtain address where a: "scan_at scan (2 * k) line 4 = Inr address"
      and ab: "address_bytes = be_bytes k address"
      by (auto split: sum.splits)
    from True ab have as: "sum_list address_bytes = mot_address_sum record_type address"
      by (simp add: k_def be_bytes_sum)
    have ofk: "unat (of_nat k :: u32) = k" using kk by (simp add: unat_of_nat)
    have "(of_nat k :: u32) \<le> count - 1"
      using cnt c1 ofk by (simp add: word_le_nat_alt)
    then have c2: "unat (count - 1 - of_nat k) = n"
      using c1 ofk n by (simp add: unat_sub)
    have "\<exists>st1. (if full_address st \<noteq> address then mot_new_address st address
        else Inr st) = Inr st1 \<and> num_sections (image_of st1) < length (section_array st1)"
    proof (cases "full_address st \<noteq> address")
      case False
      with assms(5) show ?thesis by simp
    next
      case diff: True
      have "size_sec (section_array st ! num_sections (image_of st)) \<noteq> 0 \<longrightarrow>
          num_sections (image_of st) + 1 < length (section_array st)"
      proof
        assume "size_sec (section_array st ! num_sections (image_of st)) \<noteq> 0"
        with assms(1,5) t a diff have "mot_opens_section scan line st"
          by (auto simp: mot_opens_section_def current_size_def k_def)
        with assms(6) show "num_sections (image_of st) + 1 < length (section_array st)"
          by simp
      qed
      with mot_new_address_room [OF assms(5), of address] diff show ?thesis by simp
    qed
    then obtain st1 where st1: "(if full_address st \<noteq> address then mot_new_address st address
        else Inr st) = Inr st1"
      and room: "num_sections (image_of st1) < length (section_array st1)"
      by blast
    from data_loop_sum [of scan line "4 + 2 * k" "count - 1 - of_nat k" ds st1
        "ucast count + sum_list address_bytes"] ds c2 room
    obtain st' where "data_loop scan line (count - 1 - of_nat k) (4 + 2 * k)
        (ucast count + sum_list address_bytes) st1 =
        Inr (4 + 2 * k + 2 * n, ucast count + sum_list address_bytes + sum_list ds, st')"
      by auto
    with True ne a as dig st1 show ?thesis
      by (auto simp: mot_record_body_def Let_def)
  next
    case False
    with assms(2) have t: "record_type = 0 \<or> record_type = 5 \<or> record_type = 6"
      by (auto simp: mot_checked_type_def)
    then have k0: "k = 0" by (auto simp: k_def mot_address_bytes_def)
    with asum have as: "address_bytes = []" by simp
    from k0 n c1 have "unat (count - 1) = n" by simp
    with ds k0 have "skip_loop scan line (count - 1) 4 (ucast count) =
        Inr (4 + 2 * n, ucast count + sum_list ds)"
      using skip_loop_sum [of scan line 4 "count - 1" ds "ucast count"] by simp
    with t k0 as show ?thesis
      by (auto simp: mot_record_body_def)
  qed
  from assms(2) have nt: "\<not> (7 \<le> record_type \<and> record_type \<le> 9)"
    by (auto simp: mot_checked_type_def word_le_nat_alt)
  from body obtain st' where
    "mot_record_body scan line record_type (count - 1) (ucast count) st =
      Inr (4 + 2 * k + 2 * n, ucast count + sum_list address_bytes + sum_list ds, st')"
    by blast
  with assms(1,4) nt v s b show ?thesis
    by (auto simp: mot_record_def Let_def add.assoc)
qed

subsection \<open>The loader on a record with a bad sum\<close>

text \<open>
  C2, as amended. Whenever the S-record loader, in a file whose size is known, comes to a
  record of type S0, S1, S2, S3, S5 or S6 whose 8-bit sum of count, address bytes, data
  bytes and checksum byte is not \<open>0xFF\<close>, it stops and fails with \<open>ERROR_IMAGE_CHECKSUM\<close>
  (checksum error, not format error), wherever in the file the record stands. The one
  exception is an S1, S2 or S3 record that starts a section when the 128 entries of the
  scratch array are used up: there the store behind the array comes before the test of the
  checksum. (The loader does not come to a record that stands behind a line it stops at;
  the end records S7, S8 and S9 are left before their checksum is looked at.)
\<close>

theorem mot_loader_checksum_error:
  assumes "type_private img = PRIVATE_MOT b"
    and "fileio_size tf0 = Inr filesize"
    and "mot_loader_at scan tf0 img n = Some (tf, st)"
    and "fileio_fgets tf 1023 = (Some line, tf')" and "\<not> skipped_line line"
    and "mot_scan_header scan line = Some (record_type, count)"
    and "mot_checked_type record_type"
    and "mot_checksum_sum scan line = Some s" and "s \<noteq> 0xFF"
    and "mot_opens_section scan line st \<longrightarrow>
         num_sections (image_of st) + 1 < IMAGE_MAX_SECTIONS"
  shows "image_mot_buffer_complete scan tf0 img = Inl ERROR_IMAGE_CHECKSUM"
proof -
  from mot_loader_at_frame [OF assms(3)]
  have room: "num_sections (image_of st) < length (section_array st)"
    and len: "length (section_array st) = IMAGE_MAX_SECTIONS"
    by (simp_all add: in_section_array_def)
  from assms(10) len have "mot_opens_section scan line st \<longrightarrow>
      num_sections (image_of st) + 1 < length (section_array st)" by simp
  with assms(6-9) room have "mot_record scan line st = Inl ERROR_IMAGE_CHECKSUM"
    by (rule mot_record_bad_sum)
  with assms(4,5) have "mot_lines scan tf st = Inl ERROR_IMAGE_CHECKSUM"
    by (simp add: mot_lines.simps [of scan tf st])
  then have "mot_rest scan (tf, st) = Inl ERROR_IMAGE_CHECKSUM"
    by (simp add: mot_rest_def)
  with mot_loader_at_rest [OF assms(3)] assms(1,2) show ?thesis
    by (simp add: image_mot_buffer_complete_def image_mot_buffer_complete_inner_def)
qed

text \<open>
  An S1 record whose checksum byte is \<open>0x51\<close> where \<open>0x50\<close> is due: in a file of its own
  with an S9 record, and as the second record of a file, behind a good S1 record for the
  same address, so that it starts the second section.
\<close>

definition mot_bad_line :: string where
  "mot_bad_line = ''S1040000AB51'' @ nl"

definition mot_bad_checksum :: textio where
  "mot_bad_checksum = \<lparr>unread = mot_bad_line @ mot_end, at_eof = False, size_reply = Inr 24\<rparr>"

definition mot_bad_second :: textio where
  "mot_bad_second =
     \<lparr>unread = mot_one_byte @ mot_bad_line @ mot_end, at_eof = False, size_reply = Inr 37\<rparr>"

definition mot_start :: parser where
  "mot_start =
     \<lparr>image_of = example_mot_fresh,
      section_array = fresh_section_array
        [0 := \<lparr>base_address = 0, size_sec = 0, flags = 0, private_sec = PRIVATE_BUFFER 0\<rparr>],
      cooked = [], full_address = 0, end_rec = False\<rparr>"

definition mot_first :: parser where
  "mot_first =
     \<lparr>image_of = example_mot_fresh,
      section_array = fresh_section_array
        [0 := \<lparr>base_address = 0, size_sec = 1, flags = 0, private_sec = PRIVATE_BUFFER 0\<rparr>],
      cooked = [0], full_address = 1, end_rec = False\<rparr>"

lemma scan_bytes_numeral:
  "scan_bytes scan line pos (numeral k) =
     (case scan_at scan 2 line pos of
        Inl e \<Rightarrow> None
      | Inr v \<Rightarrow> map_option ((#) (ucast v)) (scan_bytes scan line (pos + 2) (pred_numeral k)))"
  by (simp add: numeral_eq_Suc)

lemma mot_bad_line_facts:
  "mot_scan_header sscanf_hex mot_bad_line = Some (1, 4)"
  "mot_checksum_sum sscanf_hex mot_bad_line = Some 0"
  "\<not> skipped_line mot_bad_line"
  "fileio_fgets \<lparr>unread = mot_bad_line @ mot_end, at_eof = e, size_reply = z\<rparr> 1023 =
     (Some mot_bad_line, \<lparr>unread = mot_end, at_eof = False, size_reply = z\<rparr>)"
proof -
  show h: "mot_scan_header sscanf_hex mot_bad_line = Some (1, 4)"
    by (simp add: mot_bad_line_def nl_def mot_scan_header_def scan_eval)
  show "mot_checksum_sum sscanf_hex mot_bad_line = Some 0"
    by (simp add: mot_checksum_sum_def mot_scan_header_def mot_address_bytes_def
        be_bytes_numeral Let_def scan_bytes_numeral mot_bad_line_def nl_def scan_eval)
  show "\<not> skipped_line mot_bad_line"
    by (simp add: mot_bad_line_def nl_def skipped_line_def)
  have "mot_bad_line \<noteq> []" "CHR 0x0A \<notin> set (butlast mot_bad_line)"
    "last mot_bad_line = CHR 0x0A" "length mot_bad_line < 1023"
    by (simp_all add: mot_bad_line_def nl_def)
  then show "fileio_fgets \<lparr>unread = mot_bad_line @ mot_end, at_eof = e, size_reply = z\<rparr>
      1023 = (Some mot_bad_line, \<lparr>unread = mot_end, at_eof = False, size_reply = z\<rparr>)"
    by (rule fileio_fgets_line)
qed

lemma mot_begin_pass_fresh:
  "begin_pass \<lparr>image_of = example_mot_fresh\<lparr>num_sections := 0\<rparr>,
     section_array = fresh_section_array, cooked = [], full_address = 0,
     end_rec = False\<rparr> = Inr mot_start"
  by (simp add: begin_pass_def store_eval mot_start_def fresh_section_array_def
      IMAGE_MAX_SECTIONS_def example_mot_fresh_def)

lemma mot_first_record:
  "mot_record sscanf_hex mot_one_byte mot_start = Inr (mot_first, False)"
  by (simp add: mot_one_byte_def nl_def mot_eval scan_eval store_eval mot_start_def
      mot_first_def fresh_section_array_def IMAGE_MAX_SECTIONS_def example_mot_fresh_def)

lemma mot_bad_second_at:
  "mot_loader_at sscanf_hex mot_bad_second example_mot_fresh 1 =
     Some (\<lparr>unread = mot_bad_line @ mot_end, at_eof = False, size_reply = Inr 37\<rparr>, mot_first)"
proof -
  have "mot_line_step sscanf_hex (mot_bad_second, mot_start) =
      Some (\<lparr>unread = mot_bad_line @ mot_end, at_eof = False, size_reply = Inr 37\<rparr>, mot_first)"
    by (simp add: mot_line_step_def mot_bad_second_def
        fileio_fgets_line [OF mot_one_byte_line(1-4)] mot_one_byte_line(5) mot_first_record)
  moreover have "\<not> fileio_feof mot_bad_second"
    by (simp add: fileio_feof_def mot_bad_second_def)
  ultimately show ?thesis
    by (simp add: mot_loader_at_def mot_begin_pass_fresh)
qed

lemma mot_first_opens:
  "mot_opens_section sscanf_hex mot_bad_line mot_first"
  "num_sections (image_of mot_first) + 1 < IMAGE_MAX_SECTIONS"
  by (simp_all add: mot_opens_section_def mot_scan_header_def mot_address_bytes_def
      mot_bad_line_def nl_def scan_eval store_eval mot_first_def fresh_section_array_def
      IMAGE_MAX_SECTIONS_def example_mot_fresh_def)

theorem mot_loader_checksum_error_witness:
  "type_private example_mot_fresh = PRIVATE_MOT None
   \<and> fileio_size mot_bad_second = Inr 37
   \<and> mot_loader_at sscanf_hex mot_bad_second example_mot_fresh 1 =
       Some (\<lparr>unread = mot_bad_line @ mot_end, at_eof = False, size_reply = Inr 37\<rparr>, mot_first)
   \<and> fileio_fgets \<lparr>unread = mot_bad_line @ mot_end, at_eof = False, size_reply = Inr 37\<rparr> 1023 =
       (Some mot_bad_line, \<lparr>unread = mot_end, at_eof = False, size_reply = Inr 37\<rparr>)
   \<and> \<not> skipped_line mot_bad_line
   \<and> mot_scan_header sscanf_hex mot_bad_line = Some (1, 4)
   \<and> mot_checked_type 1
   \<and> mot_checksum_sum sscanf_hex mot_bad_line = Some 0 \<and> (0 :: u8) \<noteq> 0xFF
   \<and> mot_opens_section sscanf_hex mot_bad_line mot_first
   \<and> num_sections (image_of mot_first) + 1 < IMAGE_MAX_SECTIONS
   \<and> image_mot_buffer_complete sscanf_hex mot_bad_second example_mot_fresh =
       Inl ERROR_IMAGE_CHECKSUM"
proof -
  have p: "type_private example_mot_fresh = PRIVATE_MOT None"
    by (simp add: example_mot_fresh_def)
  have z: "fileio_size mot_bad_second = Inr 37"
    by (simp add: fileio_size_def mot_bad_second_def)
  have t: "mot_checked_type 1" by (simp add: mot_checked_type_def)
  have ne: "(0 :: u8) \<noteq> 0xFF" by simp
  have r: "mot_opens_section sscanf_hex mot_bad_line mot_first \<longrightarrow>
      num_sections (image_of mot_first) + 1 < IMAGE_MAX_SECTIONS"
    using mot_first_opens by simp
  show ?thesis
    using mot_loader_checksum_error [OF p z mot_bad_second_at mot_bad_line_facts(4)
        mot_bad_line_facts(3) mot_bad_line_facts(1) t mot_bad_line_facts(2) ne r]
      p z mot_bad_second_at mot_bad_line_facts t mot_first_opens
    by simp
qed

text \<open>
  The exception is met: behind 128 good S1 records of one byte for address 0, which fill
  the 128 entries of the scratch array, the bad S1 record starts a section, and the loader
  stores behind the array before it has looked at the checksum.
\<close>

definition mot_bad_129th :: textio where
  "mot_bad_129th =
     \<lparr>unread = concat (replicate 128 mot_one_byte) @ mot_bad_line @ mot_end, at_eof = False,
      size_reply = Inr 1688\<rparr>"

lemma mot_bad_line_overflow:
  assumes "filling n st" and "n + 1 = IMAGE_MAX_SECTIONS"
  shows "mot_record sscanf_hex mot_bad_line st = Inl UNDEFINED_OUT_OF_BOUNDS"
  using assms
  by (simp add: mot_bad_line_def nl_def mot_eval scan_eval store_eval filling_def
      IMAGE_MAX_SECTIONS_def)

lemma replicate_128: "replicate 128 x = x # replicate 127 x"
proof -
  have "(128::nat) = Suc 127" by simp
  then show ?thesis by (simp only: replicate_Suc)
qed

lemma image_mot_buffer_complete_bad_129th:
  "image_mot_buffer_complete sscanf_hex mot_bad_129th example_mot_fresh =
     Inl UNDEFINED_OUT_OF_BOUNDS"
proof -
  have f1: "filling 0 mot_first"
    by (simp add: filling_def mot_first_def fresh_section_array_def IMAGE_MAX_SECTIONS_def
        example_mot_fresh_def)
  have "0 + 127 < IMAGE_MAX_SECTIONS" by (simp add: IMAGE_MAX_SECTIONS_def)
  from mot_lines_one_bytes [OF f1 this, of "mot_bad_line @ mot_end" False "Inr 1688"]
  obtain st3 e3 where f3: "filling 127 st3"
    and r3: "mot_lines sscanf_hex
              \<lparr>unread = concat (replicate 127 mot_one_byte) @ mot_bad_line @ mot_end,
               at_eof = False, size_reply = Inr 1688\<rparr> mot_first =
             mot_lines sscanf_hex
              \<lparr>unread = mot_bad_line @ mot_end, at_eof = e3, size_reply = Inr 1688\<rparr> st3"
    by auto
  have "127 + 1 = IMAGE_MAX_SECTIONS" by (simp add: IMAGE_MAX_SECTIONS_def)
  from mot_bad_line_overflow [OF f3 this]
  have r4: "mot_lines sscanf_hex
              \<lparr>unread = mot_bad_line @ mot_end, at_eof = e3, size_reply = Inr 1688\<rparr> st3 =
            Inl UNDEFINED_OUT_OF_BOUNDS"
    by (subst mot_lines.simps) (simp add: mot_bad_line_facts)
  have "mot_lines sscanf_hex mot_bad_129th mot_start = Inl UNDEFINED_OUT_OF_BOUNDS"
    using r3 r4
    by (simp add: mot_bad_129th_def replicate_128 mot_lines_one_byte mot_first_record)
  then have "mot_passes sscanf_hex mot_bad_129th
      \<lparr>image_of = example_mot_fresh\<lparr>num_sections := 0\<rparr>,
       section_array = fresh_section_array, cooked = [], full_address = 0,
       end_rec = False\<rparr> = Inl UNDEFINED_OUT_OF_BOUNDS"
    using mot_begin_pass_fresh
    by (subst mot_passes.simps) (simp add: fileio_feof_def mot_bad_129th_def)
  moreover have "type_private example_mot_fresh = PRIVATE_MOT None"
    by (simp add: example_mot_fresh_def)
  moreover have "fileio_size mot_bad_129th = Inr 1688"
    by (simp add: fileio_size_def mot_bad_129th_def)
  ultimately show ?thesis
    by (simp add: image_mot_buffer_complete_def image_mot_buffer_complete_inner_def)
qed

text \<open>
  C2 as stated fails: on the file with the bad S1 record the loader does not return
  \<open>ERROR_IMAGE_FORMAT_ERROR\<close>; it stops with \<open>ERROR_IMAGE_CHECKSUM\<close>.
\<close>

theorem image_mot_buffer_complete_bad_checksum:
  "mot_checksum_sum sscanf_hex mot_bad_line = Some 0
   \<and> image_mot_buffer_complete sscanf_hex mot_bad_checksum example_mot_fresh =
       Inl ERROR_IMAGE_CHECKSUM"
proof -
  have r: "mot_record sscanf_hex mot_bad_line mot_start = Inl ERROR_IMAGE_CHECKSUM"
    by (simp add: mot_bad_line_def nl_def mot_eval scan_eval store_eval mot_start_def
        fresh_section_array_def IMAGE_MAX_SECTIONS_def example_mot_fresh_def)
  have "mot_lines sscanf_hex mot_bad_checksum mot_start = Inl ERROR_IMAGE_CHECKSUM"
    by (subst mot_lines.simps) (simp add: mot_bad_checksum_def mot_bad_line_facts r)
  then have "mot_passes sscanf_hex mot_bad_checksum
      \<lparr>image_of = example_mot_fresh\<lparr>num_sections := 0\<rparr>,
       section_array = fresh_section_array, cooked = [], full_address = 0,
       end_rec = False\<rparr> = Inl ERROR_IMAGE_CHECKSUM"
    using mot_begin_pass_fresh
    by (subst mot_passes.simps) (simp add: fileio_feof_def mot_bad_checksum_def)
  moreover have "type_private example_mot_fresh = PRIVATE_MOT None"
    by (simp add: example_mot_fresh_def)
  moreover have "fileio_size mot_bad_checksum = Inr 24"
    by (simp add: fileio_size_def mot_bad_checksum_def)
  ultimately show ?thesis
    by (simp add: mot_bad_line_facts(2) image_mot_buffer_complete_def
        image_mot_buffer_complete_inner_def)
qed

section \<open>Statements about the Extended Segment Address record\<close>















section \<open>The example IHEX image is what the parser builds\<close>

text \<open>
  An IHEX file with an Extended Linear Address record for \<open>0x0800\<close>, four bytes for
  address \<open>0x0000\<close>, four bytes for address \<open>0x0100\<close> and the end-of-file record: two
  sections, at \<open>0x08000000\<close> and \<open>0x08000100\<close>.
\<close>

definition example_ihex_file :: textio where
  "example_ihex_file =
     \<lparr>unread = '':020000040800F2'' @ nl @ '':04000000DEADBEEFC4'' @ nl
               @ '':04010000CAFEBABEBB'' @ nl @ '':00000001FF'' @ nl,
      at_eof = False, size_reply = Inr 68\<rparr>"

lemma take_two_updated:
  "2 \<le> length xs \<Longrightarrow> take (Suc (Suc 0)) (xs[0 := a, Suc 0 := b]) = [a, b]"
  by (cases xs; cases "tl xs") auto

lemma four_Suc: "Suc (Suc (Suc (Suc 0))) = 4"
  by simp

lemma example_ihex_loaded:
  "image_ihex_buffer_complete sscanf_hex example_ihex_file example_ihex_fresh =
     Inr example_ihex_image"
  by (simp add: image_ihex_buffer_complete_def image_ihex_buffer_complete_inner_def
      example_ihex_file_def example_ihex_fresh_def example_ihex_image_def nl_def
      fileio_size_def fileio_feof_def ihex_passes.simps ihex_lines.simps fileio_fgets_def
      Let_def take_line_Cons skipped_line_def ihex_eval scan_eval store_eval
      fresh_section_array_def IMAGE_MAX_SECTIONS_def take_two_updated four_Suc)

end
